(* ===== verification/Prelude.thy ===== *)
theory Prelude
  imports "HOL-Library.Word"
begin

text \<open>
  Shared vocabulary of the development: names for the C integer types, the ways the emulator
  process can stop, the result type of fallible C code and its sequencing operator, C's
  \<open>switch\<close>, little-endian byte strings, and the generic lemmas on words and results the
  component theories use.
\<close>

unbundle bit_operations_syntax

section \<open>Types\<close>

text \<open>
  C's fixed-width integers are words. A signed type uses the same word type as its unsigned
  twin and is read with \<^const>\<open>sint\<close>; a widening conversion is \<open>scast\<close> from a
  signed and \<open>ucast\<close> from an unsigned type, a narrowing one is \<open>ucast\<close>.
\<close>

type_synonym u8 = "8 word"
type_synonym u16 = "16 word"
type_synonym u32 = "32 word"
type_synonym u64 = "64 word"
type_synonym i8 = "8 word"
type_synonym i16 = "16 word"
type_synonym i32 = "32 word"
type_synonym i64 = "64 word"

text \<open>
  The ways the process ends before a C function returns: \<open>fatal\<close> (message and
  \<open>exit(1)\<close>), a failed \<open>assert\<close>, \<open>exit\<close> itself, a memory access the page tables
  refuse, an integer division by zero, and an array index outside the array (undefined
  behaviour in C).
\<close>

datatype error =
    Fatal string
  | Assert_Fail string
  | Exit u32
  | Segv u64
  | Div_By_Zero
  | Index_Out_Of_Range int

type_synonym 'a res = "error + 'a"

section \<open>Collections of facts\<close>

named_theorems rv_enum \<open>values of the C enumeration constants\<close>
named_theorems field_defs \<open>bit-field extraction macros\<close>
named_theorems reader_defs \<open>instruction format readers\<close>
named_theorems decode_defs \<open>the parts of decode_inst\<close>
named_theorems func_defs \<open>instruction handlers and the macros they expand\<close>

section \<open>Sequencing of fallible code\<close>

fun bindE :: "'e + 'a \<Rightarrow> ('a \<Rightarrow> 'e + 'b) \<Rightarrow> 'e + 'b" where
  "bindE (Inl e) f = Inl e"
| "bindE (Inr x) f = f x"

lemma bindE_eq_Inr_iff: "bindE m f = Inr y \<longleftrightarrow> (\<exists>x. m = Inr x \<and> f x = Inr y)"
  by (cases m) auto

lemma bindE_eq_Inl_iff:
  "bindE m f = Inl e \<longleftrightarrow> m = Inl e \<or> (\<exists>x. m = Inr x \<and> f x = Inl e)"
  by (cases m) auto

lemma bindE_InrE:
  assumes "bindE m f = Inr y"
  obtains x where "m = Inr x" and "f x = Inr y"
  using assms by (auto simp: bindE_eq_Inr_iff)

lemma bindE_assoc: "bindE (bindE m f) g = bindE m (\<lambda>x. bindE (f x) g)"
  by (cases m) auto

lemma bindE_Inr_right [simp]: "bindE m Inr = m"
  by (cases m) auto

text \<open>A predicate on results: it holds of every value the code returns normally.\<close>

definition ok_all :: "('a \<Rightarrow> bool) \<Rightarrow> 'e + 'a \<Rightarrow> bool" where
  "ok_all P r \<longleftrightarrow> (\<forall>x. r = Inr x \<longrightarrow> P x)"

lemma ok_all_Inl [simp]: "ok_all P (Inl e)"
  by (simp add: ok_all_def)

lemma ok_all_Inr [simp]: "ok_all P (Inr x) = P x"
  by (simp add: ok_all_def)

lemma ok_allD: "ok_all P r \<Longrightarrow> r = Inr x \<Longrightarrow> P x"
  by (simp add: ok_all_def)

lemma ok_all_if: "(c \<Longrightarrow> ok_all P x) \<Longrightarrow> (\<not> c \<Longrightarrow> ok_all P y) \<Longrightarrow> ok_all P (if c then x else y)"
  by simp

lemma ok_all_bindE: "ok_all (\<lambda>x. ok_all P (f x)) m \<Longrightarrow> ok_all P (bindE m f)"
  by (cases m) auto

lemma ok_all_mono: "ok_all P r \<Longrightarrow> (\<And>x. P x \<Longrightarrow> Q x) \<Longrightarrow> ok_all Q r"
  by (simp add: ok_all_def)

text \<open>A predicate on both kinds of results: faults satisfy \<open>F\<close>, values \<open>P\<close>.\<close>

definition outcome :: "('e \<Rightarrow> bool) \<Rightarrow> ('a \<Rightarrow> bool) \<Rightarrow> 'e + 'a \<Rightarrow> bool" where
  "outcome F P r = (case r of Inl e \<Rightarrow> F e | Inr x \<Rightarrow> P x)"

lemma outcome_Inl [simp]: "outcome F P (Inl e) = F e"
  by (simp add: outcome_def)

lemma outcome_Inr [simp]: "outcome F P (Inr x) = P x"
  by (simp add: outcome_def)

lemma outcome_bindE:
  "outcome F (\<lambda>x. outcome F P (f x)) m \<Longrightarrow> outcome F P (bindE m f)"
  by (cases m) auto

lemma outcome_bindI:
  "outcome F Q m \<Longrightarrow> (\<And>x. Q x \<Longrightarrow> outcome F P (f x)) \<Longrightarrow> outcome F P (bindE m f)"
  by (cases m) auto

lemma outcome_if:
  "(c \<Longrightarrow> outcome F P x) \<Longrightarrow> (\<not> c \<Longrightarrow> outcome F P y) \<Longrightarrow> outcome F P (if c then x else y)"
  by simp

lemma outcome_mono:
  "outcome F P r \<Longrightarrow> (\<And>e. F e \<Longrightarrow> F' e) \<Longrightarrow> (\<And>x. P x \<Longrightarrow> P' x) \<Longrightarrow> outcome F' P' r"
  by (cases r) auto

section \<open>C's switch\<close>

text \<open>
  \<open>switch k cases d\<close> is the branch of \<open>k\<close>, or \<open>d\<close> (the \<open>default:\<close> label)
  when no case has it.
\<close>

definition switch :: "'k \<Rightarrow> ('k \<times> 'a) list \<Rightarrow> 'a \<Rightarrow> 'a" where
  "switch k cs d = (case map_of cs k of None \<Rightarrow> d | Some v \<Rightarrow> v)"

lemma switch_Nil [simp]: "switch k [] d = d"
  by (simp add: switch_def)

lemma switch_Cons [simp]:
  "switch k ((k', v) # cs) d = (if k = k' then v else switch k cs d)"
  by (simp add: switch_def)

lemma switch_all:
  assumes "list_all (\<lambda>kv. P (snd kv)) cs" and "P d"
  shows "P (switch k cs d)"
  using assms by (induction cs) auto

section \<open>Little-endian byte strings\<close>

primrec le_word :: "u8 list \<Rightarrow> 'a::len word" where
  "le_word [] = 0"
| "le_word (b # bs) = ucast b OR push_bit 8 (le_word bs)"

primrec le_bytes :: "nat \<Rightarrow> 'a::len word \<Rightarrow> u8 list" where
  "le_bytes 0 w = []"
| "le_bytes (Suc n) w = ucast w # le_bytes n (drop_bit 8 w)"

lemma length_le_bytes [simp]: "length (le_bytes n w) = n"
  by (induction n arbitrary: w) auto

lemma le_word_le_bytes: "le_word (le_bytes n w) = take_bit (8 * n) (w :: 'a::len word)"
proof (induction n arbitrary: w)
  case 0
  show ?case by simp
next
  case (Suc n)
  have "ucast (ucast w :: u8) OR push_bit 8 (take_bit (8 * n) (drop_bit 8 w))
      = take_bit (8 * Suc n) w"
    by (rule bit_word_eqI) (auto simp: bit_simps)
  with Suc show ?case by simp
qed

lemma le_bytes_roundtrip:
  "LENGTH('a) \<le> 8 * n \<Longrightarrow> le_word (le_bytes n w) = (w :: 'a::len word)"
  by (simp add: le_word_le_bytes take_bit_word_eq_self)

section \<open>Words\<close>

lemma unat_ucast_le: "unat (ucast (w :: 'a::len word) :: 'b::len word) \<le> unat w"
  by (simp add: unsigned_ucast_eq)

lemma unat_ucast_and_le:
  "unat (ucast (x AND n :: 'a::len word) :: 'b::len word) \<le> unat n"
  using unat_ucast_le [of "x AND n", where 'b = 'b] word_and_le1 [of x n]
  by (simp add: word_le_nat_alt)

lemma unat_ucast_and_less:
  "unat n < k \<Longrightarrow> unat (ucast (x AND n :: 'a::len word) :: 'b::len word) < k"
  using unat_ucast_and_le [of x n, where 'b = 'b] by simp

text \<open>Sign extension keeps the low bit, so evenness of an offset survives it.\<close>

lemma scast_even:
  "\<not> bit (w :: 'a::len word) 0 \<Longrightarrow> \<not> bit (scast w :: 'b::len word) 0"
  by (simp add: bit_simps)

lemma even_word_add:
  "\<not> bit (a :: 'a::len word) 0 \<Longrightarrow> \<not> bit b 0 \<Longrightarrow> \<not> bit (a + b) 0"
  by (simp add: bit_0)

section \<open>Decimal numbers\<close>

text \<open>The digits \<open>%lu\<close> and \<open>%d\<close> print.\<close>

fun show_nat :: "nat \<Rightarrow> string" where
  "show_nat n = (if n < 10 then [char_of (48 + n)] else show_nat (n div 10) @ [char_of (48 + n mod 10)])"

declare show_nat.simps [simp del]

definition show_int :: "int \<Rightarrow> string" where
  "show_int z = (if z < 0 then ''-'' @ show_nat (nat (- z)) else show_nat (nat z))"

end
