(* ===== verification/Memory.thy ===== *)
theory Memory
  imports Prelude
begin

text \<open>
  The memory of the host process as the emulator uses it: a partial map from host addresses to
  a byte and the protection of its page, with the loads and stores compiled C code performs on
  it, \<open>memcpy\<close> into it, and the effect of \<open>mmap\<close> and \<open>munmap\<close>. An address that is
  not mapped, or not mapped with the needed protection, is a fault that ends the process.
\<close>

section \<open>Pages and bytes\<close>

definition PROT_READ :: u32 where "PROT_READ = 1"

definition PROT_WRITE :: u32 where "PROT_WRITE = 2"

definition PROT_EXEC :: u32 where "PROT_EXEC = 4"

type_synonym mem_t = "u64 \<Rightarrow> (u8 \<times> u32) option"

definition load_byte :: "mem_t \<Rightarrow> u64 \<Rightarrow> u8 res" where
  "load_byte m a = (case m a of
       None \<Rightarrow> Inl (Segv a)
     | Some (b, p) \<Rightarrow> if p AND PROT_READ = 0 then Inl (Segv a) else Inr b)"

definition store_byte :: "mem_t \<Rightarrow> u64 \<Rightarrow> u8 \<Rightarrow> mem_t res" where
  "store_byte m a v = (case m a of
       None \<Rightarrow> Inl (Segv a)
     | Some (b, p) \<Rightarrow> if p AND PROT_WRITE = 0 then Inl (Segv a) else Inr (m(a \<mapsto> (v, p))))"

primrec load_bytes :: "nat \<Rightarrow> mem_t \<Rightarrow> u64 \<Rightarrow> u8 list res" where
  "load_bytes 0 m a = Inr []"
| "load_bytes (Suc n) m a =
     bindE (load_byte m a) (\<lambda>b. bindE (load_bytes n m (a + 1)) (\<lambda>bs. Inr (b # bs)))"

primrec store_bytes :: "u8 list \<Rightarrow> mem_t \<Rightarrow> u64 \<Rightarrow> mem_t res" where
  "store_bytes [] m a = Inr m"
| "store_bytes (b # bs) m a =
     bindE (store_byte m a b) (\<lambda>m'. store_bytes bs m' (a + 1))"

text \<open>
  The region of \<open>n\<close> bytes from \<open>a\<close>, with the wrap-around of 64-bit addresses.
\<close>

definition in_region :: "u64 \<Rightarrow> nat \<Rightarrow> u64 \<Rightarrow> bool" where
  "in_region a n x \<longleftrightarrow> unat (x - a) < n"

definition readable :: "mem_t \<Rightarrow> u64 \<Rightarrow> bool" where
  "readable m x \<longleftrightarrow> (case m x of None \<Rightarrow> False | Some (b, p) \<Rightarrow> p AND PROT_READ \<noteq> 0)"

definition writable :: "mem_t \<Rightarrow> u64 \<Rightarrow> bool" where
  "writable m x \<longleftrightarrow> (case m x of None \<Rightarrow> False | Some (b, p) \<Rightarrow> p AND PROT_WRITE \<noteq> 0)"

definition same_prot :: "mem_t \<Rightarrow> mem_t \<Rightarrow> bool" where
  "same_prot m m' \<longleftrightarrow> (\<forall>x. map_option snd (m' x) = map_option snd (m x))"

section \<open>Regions\<close>

lemma in_region_0 [simp]: "\<not> in_region a 0 x"
  by (simp add: in_region_def)

lemma in_region_Suc: "in_region a (Suc n) x \<longleftrightarrow> x = a \<or> in_region (a + 1) n x"
proof (cases "x = a")
  case False
  then have nz: "x - a \<noteq> 0" by simp
  have "x - (a + 1) = (x - a) - 1" by simp
  with unat_minus_one [OF nz] have "unat (x - (a + 1)) = unat (x - a) - 1" by (simp only:)
  moreover have "0 < unat (x - a)" using nz by (simp only: unat_gt_0 not_False_eq_True)
  ultimately have "unat (x - a) = Suc (unat (x - (a + 1)))" by simp
  with False show ?thesis by (simp add: in_region_def)
qed (simp add: in_region_def)

lemma not_in_own_tail: "Suc n \<le> 2 ^ 64 \<Longrightarrow> \<not> in_region (a + 1) n a"
proof -
  have "a - (a + 1) = (- 1 :: u64)" by simp
  moreover have "unat (- 1 :: u64) = 2 ^ 64 - 1" by (simp add: unsigned_minus_1_eq_mask mask_eq_exp_minus_1)
  ultimately show "Suc n \<le> 2 ^ 64 \<Longrightarrow> ?thesis" by (simp add: in_region_def)
qed

section \<open>Access rights\<close>

lemma load_byte_cases:
  "load_byte m a = (if readable m a then Inr (fst (the (m a))) else Inl (Segv a))"
  by (simp add: load_byte_def readable_def split: option.splits)

lemma store_byte_cases:
  "store_byte m a v =
     (if writable m a then Inr (m(a \<mapsto> (v, snd (the (m a))))) else Inl (Segv a))"
  by (simp add: store_byte_def writable_def split: option.splits)

lemma same_prot_refl [simp]: "same_prot m m"
  by (simp add: same_prot_def)

lemma same_prot_trans: "same_prot m m' \<Longrightarrow> same_prot m' m'' \<Longrightarrow> same_prot m m''"
  by (simp add: same_prot_def)

lemma same_prot_rights:
  assumes "same_prot m m'"
  shows "readable m' x = readable m x" "writable m' x = writable m x"
proof -
  have "map_option snd (m' x) = map_option snd (m x)" using assms by (simp add: same_prot_def)
  then show "readable m' x = readable m x" "writable m' x = writable m x"
    by (auto simp: readable_def writable_def split: option.splits)
qed

lemma store_byte_same_prot: "store_byte m a v = Inr m' \<Longrightarrow> same_prot m m'"
  by (auto simp: store_byte_def same_prot_def split: option.splits if_splits)

lemma store_bytes_same_prot: "store_bytes bs m a = Inr m' \<Longrightarrow> same_prot m m'"
  by (induction bs arbitrary: m a)
    (auto simp: bindE_eq_Inr_iff dest: store_byte_same_prot intro: same_prot_trans)

section \<open>Laws of loads and stores\<close>

text \<open>A load succeeds exactly on a readable region, and reports an address inside it otherwise.\<close>

lemma load_bytes_ok_iff:
  "(\<exists>bs. load_bytes n m a = Inr bs) \<longleftrightarrow> (\<forall>x. in_region a n x \<longrightarrow> readable m x)"
  by (induction n arbitrary: a)
    (auto simp: load_byte_cases in_region_Suc bindE_eq_Inr_iff)

lemma load_bytes_fault:
  "load_bytes n m a = Inl e \<Longrightarrow> \<exists>x. e = Segv x \<and> in_region a n x \<and> \<not> readable m x"
  by (induction n arbitrary: a)
    (auto simp: load_byte_cases in_region_Suc bindE_eq_Inl_iff split: if_splits)

lemma length_load_bytes: "load_bytes n m a = Inr bs \<Longrightarrow> length bs = n"
  by (induction n arbitrary: a bs) (auto simp: bindE_eq_Inr_iff)

lemma load_bytes_cong:
  "(\<And>x. in_region a n x \<Longrightarrow> m x = m' x) \<Longrightarrow> load_bytes n m a = load_bytes n m' a"
proof (induction n arbitrary: a)
  case (Suc n)
  have "load_byte m a = load_byte m' a"
    using Suc.prems [of a] by (simp add: load_byte_def in_region_Suc)
  moreover have "load_bytes n m (a + 1) = load_bytes n m' (a + 1)"
    by (rule Suc.IH) (simp add: Suc.prems in_region_Suc)
  ultimately show ?case by simp
qed simp

lemma store_bytes_ok_iff:
  "(\<exists>m'. store_bytes bs m a = Inr m') \<longleftrightarrow> (\<forall>x. in_region a (length bs) x \<longrightarrow> writable m x)"
proof (induction bs arbitrary: m a)
  case (Cons b bs)
  show ?case
  proof (cases "writable m a")
    case True
    let ?m = "m(a \<mapsto> (b, snd (the (m a))))"
    have "same_prot m ?m" using True by (intro store_byte_same_prot [of m a b]) (simp add: store_byte_cases)
    note rights = same_prot_rights(2) [OF this]
    have "store_bytes (b # bs) m a = store_bytes bs ?m (a + 1)"
      using True by (simp add: store_byte_cases)
    with Cons.IH [of ?m "a + 1"] True show ?thesis
      by (simp only: rights length_Cons in_region_Suc) blast
  qed (auto simp: store_byte_cases in_region_Suc)
qed simp

lemma store_bytes_fault:
  "store_bytes bs m a = Inl e \<Longrightarrow> \<exists>x. e = Segv x \<and> in_region a (length bs) x \<and> \<not> writable m x"
proof (induction bs arbitrary: m a)
  case (Cons b bs)
  from Cons.prems consider "store_byte m a b = Inl e"
    | m' where "store_byte m a b = Inr m'" "store_bytes bs m' (a + 1) = Inl e"
    by (auto simp: bindE_eq_Inl_iff)
  then show ?case
  proof cases
    case 1
    then show ?thesis by (auto simp: store_byte_cases in_region_Suc split: if_splits)
  next
    case 2
    from Cons.IH [OF 2(2)] same_prot_rights [OF store_byte_same_prot [OF 2(1)]] show ?thesis
      by (auto simp: in_region_Suc)
  qed
qed simp

lemma store_bytes_outside:
  "store_bytes bs m a = Inr m' \<Longrightarrow> \<not> in_region a (length bs) x \<Longrightarrow> m' x = m x"
proof (induction bs arbitrary: m a)
  case (Cons b bs)
  from Cons.prems obtain m1 where m1: "store_byte m a b = Inr m1" "store_bytes bs m1 (a + 1) = Inr m'"
    by (auto simp: bindE_eq_Inr_iff)
  from Cons.prems(2) have x: "x \<noteq> a" "\<not> in_region (a + 1) (length bs) x"
    by (simp_all add: in_region_Suc)
  from m1(1) x(1) have "m1 x = m x" by (auto simp: store_byte_cases split: if_splits)
  with Cons.IH [OF m1(2) x(2)] show ?case by simp
qed simp

text \<open>What was stored is loaded back, and a store elsewhere does not change a load.\<close>

lemma load_after_store:
  assumes "store_bytes bs m a = Inr m'" "length bs \<le> 2 ^ 64"
    and "\<And>x. in_region a (length bs) x \<Longrightarrow> readable m x"
  shows "load_bytes (length bs) m' a = Inr bs"
  using assms
proof (induction bs arbitrary: m a)
  case (Cons b bs)
  from Cons.prems(1) obtain m1 where m1: "store_byte m a b = Inr m1" "store_bytes bs m1 (a + 1) = Inr m'"
    by (auto simp: bindE_eq_Inr_iff)
  note rights = same_prot_rights [OF store_byte_same_prot [OF m1(1)]]
  from Cons.prems(2) not_in_own_tail have "m' a = m1 a"
    by (intro store_bytes_outside [OF m1(2)]) simp
  then have "load_byte m' a = load_byte m1 a" by (simp add: load_byte_def)
  also have "\<dots> = Inr b"
    using m1(1) Cons.prems(3) [of a] rights(1) [of a]
    by (auto simp: store_byte_cases load_byte_cases in_region_Suc split: if_splits)
  finally have b: "load_byte m' a = Inr b" .
  have "load_bytes (length bs) m' (a + 1) = Inr bs"
    using Cons.prems(2,3) rights(1) by (intro Cons.IH [OF m1(2)]) (simp_all add: in_region_Suc)
  with b show ?case by simp
qed simp

lemma load_disjoint_store:
  assumes "store_bytes bs m a = Inr m'"
    and "\<And>x. in_region b n x \<Longrightarrow> \<not> in_region a (length bs) x"
  shows "load_bytes n m' b = load_bytes n m b"
  using store_bytes_outside [OF assms(1)] assms(2) by (intro load_bytes_cong) simp

section \<open>Reading back\<close>

lemma mapped_not_None: "readable m x \<Longrightarrow> m x \<noteq> None"
  by (auto simp: readable_def split: option.splits)

lemma load_bytes_append:
  "load_bytes (n + k) m a =
     bindE (load_bytes n m a) (\<lambda>bs. bindE (load_bytes k m (a + word_of_nat n)) (\<lambda>cs. Inr (bs @ cs)))"
  by (induction n arbitrary: a) (simp_all add: bindE_assoc add.assoc)

lemma load_bytes_kept:
  assumes "load_bytes n m a = Inr bs" "\<And>x. in_region a n x \<Longrightarrow> m x \<noteq> None \<Longrightarrow> m' x = m x"
  shows "load_bytes n m' a = Inr bs"
proof -
  have "readable m x" if "in_region a n x" for x using that assms(1) load_bytes_ok_iff by blast
  with assms show ?thesis using load_bytes_cong [of a n m' m] mapped_not_None by metis
qed

lemma load_zeros:
  "(\<And>x. in_region a n x \<Longrightarrow> readable m x \<and> map_option fst (m x) = Some 0) \<Longrightarrow>
     load_bytes n m a = Inr (replicate n 0)"
  by (induction n arbitrary: a) (force simp: load_byte_cases in_region_Suc)+

end
