(* ===== verification/Rvemu.thy ===== *)
theory Rvemu
  imports Prelude Memory
begin

text \<open>
  The declarations of \<open>rvemu.h\<close> and \<open>regs.h\<close>: the address translation and rounding
  macros, the enumeration of instruction types, the decoded instruction \<open>inst_t\<close>, the
  register file and the state of the emulated hart. An enumeration constant is its integer
  value, as in C: \<open>inst_t.type\<close> is used as an index into the table of handlers.
\<close>

section \<open>Macros\<close>

definition GUEST_MEMORY_OFFSET :: u64 where
  "GUEST_MEMORY_OFFSET = 0x088800000000"

definition TO_HOST :: "u64 \<Rightarrow> u64" where
  "TO_HOST addr = addr + GUEST_MEMORY_OFFSET"

definition TO_GUEST :: "u64 \<Rightarrow> u64" where
  "TO_GUEST addr = addr - GUEST_MEMORY_OFFSET"

definition ROUNDDOWN :: "u64 \<Rightarrow> u64 \<Rightarrow> u64" where
  "ROUNDDOWN x k = x AND - k"

definition ROUNDUP :: "u64 \<Rightarrow> u64 \<Rightarrow> u64" where
  "ROUNDUP x k = (x + k - 1) AND - k"

definition MAX_u64 :: "u64 \<Rightarrow> u64 \<Rightarrow> u64" where
  "MAX_u64 x y = (if y < x then x else y)"

section \<open>Instruction types\<close>

type_synonym inst_type_t = nat

definition inst_lb :: inst_type_t where [rv_enum]: "inst_lb = 0"

definition inst_lh :: inst_type_t where [rv_enum]: "inst_lh = 1"

definition inst_lw :: inst_type_t where [rv_enum]: "inst_lw = 2"

definition inst_ld :: inst_type_t where [rv_enum]: "inst_ld = 3"

definition inst_lbu :: inst_type_t where [rv_enum]: "inst_lbu = 4"

definition inst_lhu :: inst_type_t where [rv_enum]: "inst_lhu = 5"

definition inst_lwu :: inst_type_t where [rv_enum]: "inst_lwu = 6"

definition inst_fence :: inst_type_t where [rv_enum]: "inst_fence = 7"

definition inst_fence_i :: inst_type_t where [rv_enum]: "inst_fence_i = 8"

definition inst_addi :: inst_type_t where [rv_enum]: "inst_addi = 9"

definition inst_slli :: inst_type_t where [rv_enum]: "inst_slli = 10"

definition inst_slti :: inst_type_t where [rv_enum]: "inst_slti = 11"

definition inst_sltiu :: inst_type_t where [rv_enum]: "inst_sltiu = 12"

definition inst_xori :: inst_type_t where [rv_enum]: "inst_xori = 13"

definition inst_srli :: inst_type_t where [rv_enum]: "inst_srli = 14"

definition inst_srai :: inst_type_t where [rv_enum]: "inst_srai = 15"

definition inst_ori :: inst_type_t where [rv_enum]: "inst_ori = 16"

definition inst_andi :: inst_type_t where [rv_enum]: "inst_andi = 17"

definition inst_auipc :: inst_type_t where [rv_enum]: "inst_auipc = 18"

definition inst_addiw :: inst_type_t where [rv_enum]: "inst_addiw = 19"

definition inst_slliw :: inst_type_t where [rv_enum]: "inst_slliw = 20"

definition inst_srliw :: inst_type_t where [rv_enum]: "inst_srliw = 21"

definition inst_sraiw :: inst_type_t where [rv_enum]: "inst_sraiw = 22"

definition inst_sb :: inst_type_t where [rv_enum]: "inst_sb = 23"

definition inst_sh :: inst_type_t where [rv_enum]: "inst_sh = 24"

definition inst_sw :: inst_type_t where [rv_enum]: "inst_sw = 25"

definition inst_sd :: inst_type_t where [rv_enum]: "inst_sd = 26"

definition inst_add :: inst_type_t where [rv_enum]: "inst_add = 27"

definition inst_sll :: inst_type_t where [rv_enum]: "inst_sll = 28"

definition inst_slt :: inst_type_t where [rv_enum]: "inst_slt = 29"

definition inst_sltu :: inst_type_t where [rv_enum]: "inst_sltu = 30"

definition inst_xor :: inst_type_t where [rv_enum]: "inst_xor = 31"

definition inst_srl :: inst_type_t where [rv_enum]: "inst_srl = 32"

definition inst_or :: inst_type_t where [rv_enum]: "inst_or = 33"

definition inst_and :: inst_type_t where [rv_enum]: "inst_and = 34"

definition inst_mul :: inst_type_t where [rv_enum]: "inst_mul = 35"

definition inst_mulh :: inst_type_t where [rv_enum]: "inst_mulh = 36"

definition inst_mulhsu :: inst_type_t where [rv_enum]: "inst_mulhsu = 37"

definition inst_mulhu :: inst_type_t where [rv_enum]: "inst_mulhu = 38"

definition inst_div :: inst_type_t where [rv_enum]: "inst_div = 39"

definition inst_divu :: inst_type_t where [rv_enum]: "inst_divu = 40"

definition inst_rem :: inst_type_t where [rv_enum]: "inst_rem = 41"

definition inst_remu :: inst_type_t where [rv_enum]: "inst_remu = 42"

definition inst_sub :: inst_type_t where [rv_enum]: "inst_sub = 43"

definition inst_sra :: inst_type_t where [rv_enum]: "inst_sra = 44"

definition inst_lui :: inst_type_t where [rv_enum]: "inst_lui = 45"

definition inst_addw :: inst_type_t where [rv_enum]: "inst_addw = 46"

definition inst_sllw :: inst_type_t where [rv_enum]: "inst_sllw = 47"

definition inst_srlw :: inst_type_t where [rv_enum]: "inst_srlw = 48"

definition inst_mulw :: inst_type_t where [rv_enum]: "inst_mulw = 49"

definition inst_divw :: inst_type_t where [rv_enum]: "inst_divw = 50"

definition inst_divuw :: inst_type_t where [rv_enum]: "inst_divuw = 51"

definition inst_remw :: inst_type_t where [rv_enum]: "inst_remw = 52"

definition inst_remuw :: inst_type_t where [rv_enum]: "inst_remuw = 53"

definition inst_subw :: inst_type_t where [rv_enum]: "inst_subw = 54"

definition inst_sraw :: inst_type_t where [rv_enum]: "inst_sraw = 55"

definition inst_beq :: inst_type_t where [rv_enum]: "inst_beq = 56"

definition inst_bne :: inst_type_t where [rv_enum]: "inst_bne = 57"

definition inst_blt :: inst_type_t where [rv_enum]: "inst_blt = 58"

definition inst_bge :: inst_type_t where [rv_enum]: "inst_bge = 59"

definition inst_bltu :: inst_type_t where [rv_enum]: "inst_bltu = 60"

definition inst_bgeu :: inst_type_t where [rv_enum]: "inst_bgeu = 61"

definition inst_jalr :: inst_type_t where [rv_enum]: "inst_jalr = 62"

definition inst_jal :: inst_type_t where [rv_enum]: "inst_jal = 63"

definition inst_ecall :: inst_type_t where [rv_enum]: "inst_ecall = 64"

definition inst_csrrc :: inst_type_t where [rv_enum]: "inst_csrrc = 65"

definition inst_csrrci :: inst_type_t where [rv_enum]: "inst_csrrci = 66"

definition inst_csrrs :: inst_type_t where [rv_enum]: "inst_csrrs = 67"

definition inst_csrrsi :: inst_type_t where [rv_enum]: "inst_csrrsi = 68"

definition inst_csrrw :: inst_type_t where [rv_enum]: "inst_csrrw = 69"

definition inst_csrrwi :: inst_type_t where [rv_enum]: "inst_csrrwi = 70"

definition inst_flw :: inst_type_t where [rv_enum]: "inst_flw = 71"

definition inst_fsw :: inst_type_t where [rv_enum]: "inst_fsw = 72"

definition inst_fmadd_s :: inst_type_t where [rv_enum]: "inst_fmadd_s = 73"

definition inst_fmsub_s :: inst_type_t where [rv_enum]: "inst_fmsub_s = 74"

definition inst_fnmsub_s :: inst_type_t where [rv_enum]: "inst_fnmsub_s = 75"

definition inst_fnmadd_s :: inst_type_t where [rv_enum]: "inst_fnmadd_s = 76"

definition inst_fadd_s :: inst_type_t where [rv_enum]: "inst_fadd_s = 77"

definition inst_fsub_s :: inst_type_t where [rv_enum]: "inst_fsub_s = 78"

definition inst_fmul_s :: inst_type_t where [rv_enum]: "inst_fmul_s = 79"

definition inst_fdiv_s :: inst_type_t where [rv_enum]: "inst_fdiv_s = 80"

definition inst_fsqrt_s :: inst_type_t where [rv_enum]: "inst_fsqrt_s = 81"

definition inst_fsgnj_s :: inst_type_t where [rv_enum]: "inst_fsgnj_s = 82"

definition inst_fsgnjn_s :: inst_type_t where [rv_enum]: "inst_fsgnjn_s = 83"

definition inst_fsgnjx_s :: inst_type_t where [rv_enum]: "inst_fsgnjx_s = 84"

definition inst_fmin_s :: inst_type_t where [rv_enum]: "inst_fmin_s = 85"

definition inst_fmax_s :: inst_type_t where [rv_enum]: "inst_fmax_s = 86"

definition inst_fcvt_w_s :: inst_type_t where [rv_enum]: "inst_fcvt_w_s = 87"

definition inst_fcvt_wu_s :: inst_type_t where [rv_enum]: "inst_fcvt_wu_s = 88"

definition inst_fmv_x_w :: inst_type_t where [rv_enum]: "inst_fmv_x_w = 89"

definition inst_feq_s :: inst_type_t where [rv_enum]: "inst_feq_s = 90"

definition inst_flt_s :: inst_type_t where [rv_enum]: "inst_flt_s = 91"

definition inst_fle_s :: inst_type_t where [rv_enum]: "inst_fle_s = 92"

definition inst_fclass_s :: inst_type_t where [rv_enum]: "inst_fclass_s = 93"

definition inst_fcvt_s_w :: inst_type_t where [rv_enum]: "inst_fcvt_s_w = 94"

definition inst_fcvt_s_wu :: inst_type_t where [rv_enum]: "inst_fcvt_s_wu = 95"

definition inst_fmv_w_x :: inst_type_t where [rv_enum]: "inst_fmv_w_x = 96"

definition inst_fcvt_l_s :: inst_type_t where [rv_enum]: "inst_fcvt_l_s = 97"

definition inst_fcvt_lu_s :: inst_type_t where [rv_enum]: "inst_fcvt_lu_s = 98"

definition inst_fcvt_s_l :: inst_type_t where [rv_enum]: "inst_fcvt_s_l = 99"

definition inst_fcvt_s_lu :: inst_type_t where [rv_enum]: "inst_fcvt_s_lu = 100"

definition inst_fld :: inst_type_t where [rv_enum]: "inst_fld = 101"

definition inst_fsd :: inst_type_t where [rv_enum]: "inst_fsd = 102"

definition inst_fmadd_d :: inst_type_t where [rv_enum]: "inst_fmadd_d = 103"

definition inst_fmsub_d :: inst_type_t where [rv_enum]: "inst_fmsub_d = 104"

definition inst_fnmsub_d :: inst_type_t where [rv_enum]: "inst_fnmsub_d = 105"

definition inst_fnmadd_d :: inst_type_t where [rv_enum]: "inst_fnmadd_d = 106"

definition inst_fadd_d :: inst_type_t where [rv_enum]: "inst_fadd_d = 107"

definition inst_fsub_d :: inst_type_t where [rv_enum]: "inst_fsub_d = 108"

definition inst_fmul_d :: inst_type_t where [rv_enum]: "inst_fmul_d = 109"

definition inst_fdiv_d :: inst_type_t where [rv_enum]: "inst_fdiv_d = 110"

definition inst_fsqrt_d :: inst_type_t where [rv_enum]: "inst_fsqrt_d = 111"

definition inst_fsgnj_d :: inst_type_t where [rv_enum]: "inst_fsgnj_d = 112"

definition inst_fsgnjn_d :: inst_type_t where [rv_enum]: "inst_fsgnjn_d = 113"

definition inst_fsgnjx_d :: inst_type_t where [rv_enum]: "inst_fsgnjx_d = 114"

definition inst_fmin_d :: inst_type_t where [rv_enum]: "inst_fmin_d = 115"

definition inst_fmax_d :: inst_type_t where [rv_enum]: "inst_fmax_d = 116"

definition inst_fcvt_s_d :: inst_type_t where [rv_enum]: "inst_fcvt_s_d = 117"

definition inst_fcvt_d_s :: inst_type_t where [rv_enum]: "inst_fcvt_d_s = 118"

definition inst_feq_d :: inst_type_t where [rv_enum]: "inst_feq_d = 119"

definition inst_flt_d :: inst_type_t where [rv_enum]: "inst_flt_d = 120"

definition inst_fle_d :: inst_type_t where [rv_enum]: "inst_fle_d = 121"

definition inst_fclass_d :: inst_type_t where [rv_enum]: "inst_fclass_d = 122"

definition inst_fcvt_w_d :: inst_type_t where [rv_enum]: "inst_fcvt_w_d = 123"

definition inst_fcvt_wu_d :: inst_type_t where [rv_enum]: "inst_fcvt_wu_d = 124"

definition inst_fcvt_d_w :: inst_type_t where [rv_enum]: "inst_fcvt_d_w = 125"

definition inst_fcvt_d_wu :: inst_type_t where [rv_enum]: "inst_fcvt_d_wu = 126"

definition inst_fcvt_l_d :: inst_type_t where [rv_enum]: "inst_fcvt_l_d = 127"

definition inst_fcvt_lu_d :: inst_type_t where [rv_enum]: "inst_fcvt_lu_d = 128"

definition inst_fmv_x_d :: inst_type_t where [rv_enum]: "inst_fmv_x_d = 129"

definition inst_fcvt_d_l :: inst_type_t where [rv_enum]: "inst_fcvt_d_l = 130"

definition inst_fcvt_d_lu :: inst_type_t where [rv_enum]: "inst_fcvt_d_lu = 131"

definition inst_fmv_d_x :: inst_type_t where [rv_enum]: "inst_fmv_d_x = 132"

definition num_insns :: inst_type_t where [rv_enum]: "num_insns = 133"

section \<open>Registers\<close>

text \<open>The two enumerations of \<open>regs.h\<close>.\<close>

definition reg_zero :: nat where [rv_enum]: "reg_zero = 0"

definition reg_ra :: nat where [rv_enum]: "reg_ra = 1"

definition reg_sp :: nat where [rv_enum]: "reg_sp = 2"

definition reg_gp :: nat where [rv_enum]: "reg_gp = 3"

definition reg_tp :: nat where [rv_enum]: "reg_tp = 4"

definition reg_t0 :: nat where [rv_enum]: "reg_t0 = 5"

definition reg_t1 :: nat where [rv_enum]: "reg_t1 = 6"

definition reg_t2 :: nat where [rv_enum]: "reg_t2 = 7"

definition reg_s0 :: nat where [rv_enum]: "reg_s0 = 8"

definition reg_s1 :: nat where [rv_enum]: "reg_s1 = 9"

definition reg_a0 :: nat where [rv_enum]: "reg_a0 = 10"

definition reg_a1 :: nat where [rv_enum]: "reg_a1 = 11"

definition reg_a2 :: nat where [rv_enum]: "reg_a2 = 12"

definition reg_a3 :: nat where [rv_enum]: "reg_a3 = 13"

definition reg_a4 :: nat where [rv_enum]: "reg_a4 = 14"

definition reg_a5 :: nat where [rv_enum]: "reg_a5 = 15"

definition reg_a6 :: nat where [rv_enum]: "reg_a6 = 16"

definition reg_a7 :: nat where [rv_enum]: "reg_a7 = 17"

definition reg_s2 :: nat where [rv_enum]: "reg_s2 = 18"

definition reg_s3 :: nat where [rv_enum]: "reg_s3 = 19"

definition reg_s4 :: nat where [rv_enum]: "reg_s4 = 20"

definition reg_s5 :: nat where [rv_enum]: "reg_s5 = 21"

definition reg_s6 :: nat where [rv_enum]: "reg_s6 = 22"

definition reg_s7 :: nat where [rv_enum]: "reg_s7 = 23"

definition reg_s8 :: nat where [rv_enum]: "reg_s8 = 24"

definition reg_s9 :: nat where [rv_enum]: "reg_s9 = 25"

definition reg_s10 :: nat where [rv_enum]: "reg_s10 = 26"

definition reg_s11 :: nat where [rv_enum]: "reg_s11 = 27"

definition reg_t3 :: nat where [rv_enum]: "reg_t3 = 28"

definition reg_t4 :: nat where [rv_enum]: "reg_t4 = 29"

definition reg_t5 :: nat where [rv_enum]: "reg_t5 = 30"

definition reg_t6 :: nat where [rv_enum]: "reg_t6 = 31"

definition num_gp_regs :: nat where [rv_enum]: "num_gp_regs = 32"

definition ft0 :: nat where [rv_enum]: "ft0 = 0"

definition ft1 :: nat where [rv_enum]: "ft1 = 1"

definition ft2 :: nat where [rv_enum]: "ft2 = 2"

definition ft3 :: nat where [rv_enum]: "ft3 = 3"

definition ft4 :: nat where [rv_enum]: "ft4 = 4"

definition ft5 :: nat where [rv_enum]: "ft5 = 5"

definition ft6 :: nat where [rv_enum]: "ft6 = 6"

definition ft7 :: nat where [rv_enum]: "ft7 = 7"

definition fs0 :: nat where [rv_enum]: "fs0 = 8"

definition fs1 :: nat where [rv_enum]: "fs1 = 9"

definition fa0 :: nat where [rv_enum]: "fa0 = 10"

definition fa1 :: nat where [rv_enum]: "fa1 = 11"

definition fa2 :: nat where [rv_enum]: "fa2 = 12"

definition fa3 :: nat where [rv_enum]: "fa3 = 13"

definition fa4 :: nat where [rv_enum]: "fa4 = 14"

definition fa5 :: nat where [rv_enum]: "fa5 = 15"

definition fa6 :: nat where [rv_enum]: "fa6 = 16"

definition fa7 :: nat where [rv_enum]: "fa7 = 17"

definition fs2 :: nat where [rv_enum]: "fs2 = 18"

definition fs3 :: nat where [rv_enum]: "fs3 = 19"

definition fs4 :: nat where [rv_enum]: "fs4 = 20"

definition fs5 :: nat where [rv_enum]: "fs5 = 21"

definition fs6 :: nat where [rv_enum]: "fs6 = 22"

definition fs7 :: nat where [rv_enum]: "fs7 = 23"

definition fs8 :: nat where [rv_enum]: "fs8 = 24"

definition fs9 :: nat where [rv_enum]: "fs9 = 25"

definition fs10 :: nat where [rv_enum]: "fs10 = 26"

definition fs11 :: nat where [rv_enum]: "fs11 = 27"

definition ft8 :: nat where [rv_enum]: "ft8 = 28"

definition ft9 :: nat where [rv_enum]: "ft9 = 29"

definition ft10 :: nat where [rv_enum]: "ft10 = 30"

definition ft11 :: nat where [rv_enum]: "ft11 = 31"

definition num_fp_regs :: nat where [rv_enum]: "num_fp_regs = 32"

text \<open>
  The union \<open>fp_reg_t\<close> is its 64-bit member \<open>v\<close> (and, bit for bit, the double
  \<open>d\<close>). The 32-bit members \<open>w\<close> and \<open>f\<close> overlay its low half on the
  little-endian host: a read takes the low half, a write leaves the high half as it was.
\<close>

type_synonym fp_reg_t = u64

definition fp_get_w :: "fp_reg_t \<Rightarrow> u32" where
  "fp_get_w v = ucast v"

definition fp_set_w :: "fp_reg_t \<Rightarrow> u32 \<Rightarrow> fp_reg_t" where
  "fp_set_w v w = push_bit 32 (drop_bit 32 v) OR ucast w"

section \<open>Decoded instructions\<close>

record inst_t =
  rd :: i8
  rs1 :: i8
  rs2 :: i8
  rs3 :: i8
  imm :: i32
  csr :: i16
  itype :: inst_type_t
  rvc :: bool
  continue_exec :: bool

text \<open>The initialiser \<open>{ 0 }\<close>, which also gives the fields a reader does not name.\<close>

definition inst_zero :: inst_t where
  "inst_zero = \<lparr>rd = 0, rs1 = 0, rs2 = 0, rs3 = 0, imm = 0, csr = 0, itype = 0,
     rvc = False, continue_exec = False\<rparr>"

section \<open>The hart\<close>

datatype exit_reason_t = none | direct_branch | indirect_branch | ecall

definition fflags :: i16 where [rv_enum]: "fflags = 0x001"

definition frm :: i16 where [rv_enum]: "frm = 0x002"

definition fcsr :: i16 where [rv_enum]: "fcsr = 0x003"

record state_t =
  exit_reason :: exit_reason_t
  reenter_pc :: u64
  gp_regs :: "nat \<Rightarrow> u64"
  fp_regs :: "nat \<Rightarrow> fp_reg_t"
  pc :: u64

text \<open>
  What the handlers print on the standard error stream (the \<open>DEBUG\<close> messages left in the
  interpreter), one event per \<open>fprintf\<close>.
\<close>

datatype debug_msg =
    Dbg_ra_loaded_0 u64 u64
  | Dbg_ra_alu_0 u64
  | Dbg_store u64 u64 u64
  | Dbg_jalr_0 u64 i8 u64 i32 u64
  | Dbg_inst_bytes "u8 list"

text \<open>
  The handlers get \<open>state_t *\<close> and reach the memory of the process and its standard error
  through globals: both are carried along with the state.
\<close>

record cpu_t = state_t +
  mem :: mem_t
  stderr_log :: "debug_msg list"

type_synonym func_t = "cpu_t \<Rightarrow> inst_t \<Rightarrow> (cpu_t \<times> inst_t) res"

section \<open>Register access\<close>

text \<open>
  A register number is an \<open>int8_t\<close> used as an array index. An index outside the array is
  undefined behaviour in C and an error here; a negative one is at least 128 as a word.
\<close>

definition gp_get :: "cpu_t \<Rightarrow> i8 \<Rightarrow> u64 res" where
  "gp_get s r = (if unat r < num_gp_regs then Inr (gp_regs s (unat r))
     else Inl (Index_Out_Of_Range (sint r)))"

definition gp_set :: "cpu_t \<Rightarrow> i8 \<Rightarrow> u64 \<Rightarrow> cpu_t res" where
  "gp_set s r v = (if unat r < num_gp_regs then Inr (s\<lparr>gp_regs := (gp_regs s)(unat r := v)\<rparr>)
     else Inl (Index_Out_Of_Range (sint r)))"

definition fp_get :: "cpu_t \<Rightarrow> i8 \<Rightarrow> fp_reg_t res" where
  "fp_get s r = (if unat r < num_fp_regs then Inr (fp_regs s (unat r))
     else Inl (Index_Out_Of_Range (sint r)))"

definition fp_set :: "cpu_t \<Rightarrow> i8 \<Rightarrow> fp_reg_t \<Rightarrow> cpu_t res" where
  "fp_set s r v = (if unat r < num_fp_regs then Inr (s\<lparr>fp_regs := (fp_regs s)(unat r := v)\<rparr>)
     else Inl (Index_Out_Of_Range (sint r)))"

lemma gp_get_ok [simp]: "unat r < 32 \<Longrightarrow> gp_get s r = Inr (gp_regs s (unat r))"
  by (simp add: gp_get_def num_gp_regs_def)

lemma gp_set_ok [simp]:
  "unat r < 32 \<Longrightarrow> gp_set s r v = Inr (s\<lparr>gp_regs := (gp_regs s)(unat r := v)\<rparr>)"
  by (simp add: gp_set_def num_gp_regs_def)

lemma fp_get_ok [simp]: "unat r < 32 \<Longrightarrow> fp_get s r = Inr (fp_regs s (unat r))"
  by (simp add: fp_get_def num_fp_regs_def)

lemma fp_set_ok [simp]:
  "unat r < 32 \<Longrightarrow> fp_set s r v = Inr (s\<lparr>fp_regs := (fp_regs s)(unat r := v)\<rparr>)"
  by (simp add: fp_set_def num_fp_regs_def)

section \<open>Address translation\<close>

lemma TO_GUEST_TO_HOST [simp]: "TO_GUEST (TO_HOST a) = a"
  by (simp add: TO_GUEST_def TO_HOST_def)

lemma TO_HOST_TO_GUEST [simp]: "TO_HOST (TO_GUEST a) = a"
  by (simp add: TO_GUEST_def TO_HOST_def)

lemma TO_HOST_add: "TO_HOST (a + n) = TO_HOST a + n"
  by (simp add: TO_HOST_def algebra_simps)

lemma TO_HOST_inject [simp]: "TO_HOST a = TO_HOST b \<longleftrightarrow> a = b"
  by (simp add: TO_HOST_def)

section \<open>The overlaid halves of a floating-point register\<close>

lemma fp_get_set_w [simp]: "fp_get_w (fp_set_w v w) = w"
  unfolding fp_get_w_def fp_set_w_def
  by (rule bit_word_eqI) (auto simp: bit_simps)

lemma drop_fp_set_w [simp]: "drop_bit 32 (fp_set_w v w) = drop_bit 32 v"
  unfolding fp_set_w_def
  by (rule bit_word_eqI) (auto simp: bit_simps dest: bit_imp_le_length)

end
