(* ===== verification/Elfdef.thy ===== *)
theory Elfdef
  imports Rvemu
begin

text \<open>
  The ELF constants and structures of \<open>elfdef.h\<close>, how the loader reads the ones it uses from
  the bytes of a file, and how a file stores them.
\<close>

section \<open>Constants\<close>

definition EI_NIDENT :: nat where "EI_NIDENT = 16"

definition ELFMAG :: "u8 list" where "ELFMAG = [0x7f, 0x45, 0x4c, 0x46]"

definition EM_RISCV :: u16 where "EM_RISCV = 243"

definition EI_CLASS :: nat where "EI_CLASS = 4"

definition ELFCLASSNONE :: u8 where "ELFCLASSNONE = 0"

definition ELFCLASS32 :: u8 where "ELFCLASS32 = 1"

definition ELFCLASS64 :: u8 where "ELFCLASS64 = 2"

definition ELFCLASSNUM :: u8 where "ELFCLASSNUM = 3"

definition PT_LOAD :: u32 where "PT_LOAD = 1"

definition PF_X :: u32 where "PF_X = 0x1"

definition PF_W :: u32 where "PF_W = 0x2"

definition PF_R :: u32 where "PF_R = 0x4"

definition R_X86_64_PC32 :: u32 where "R_X86_64_PC32 = 2"

section \<open>Structures\<close>

record elf64_ehdr_t =
  e_ident :: "u8 list"
  e_type :: u16
  e_machine :: u16
  e_version :: u32
  e_entry :: u64
  e_phoff :: u64
  e_shoff :: u64
  e_flags :: u32
  e_ehsize :: u16
  e_phentsize :: u16
  e_phnum :: u16
  e_shentsize :: u16
  e_shnum :: u16
  e_shstrndx :: u16

record elf64_phdr_t =
  p_type :: u32
  p_flags :: u32
  p_offset :: u64
  p_vaddr :: u64
  p_paddr :: u64
  p_filesz :: u64
  p_memsz :: u64
  p_align :: u64

text \<open>
  Section headers, symbols and relocations, which the header declares for later use. The flags of
  a section have 64 bits in the ELF format and 32 here; the padding behind them makes the other
  offsets agree.
\<close>

record elf64_shdr_t =
  sh_name :: u32
  sh_type :: u32
  sh_flags :: u32
  sh_addr :: u64
  sh_offset :: u64
  sh_size :: u64
  sh_link :: u32
  sh_info :: u32
  sh_addralign :: u64
  sh_entsize :: u64

record elf64_sym_t =
  st_name :: u32
  st_info :: u8
  st_other :: u8
  st_shndx :: u16
  st_value :: u64
  st_size :: u64

record elf64_rela_t =
  r_offset :: u64
  r_type :: u32
  r_sym :: u32
  r_addend :: i64

section \<open>Reading a structure from bytes\<close>

text \<open>
  A structure read from a byte buffer, as the cast of the buffer's address to a pointer to it
  does: the fields at the offsets of the C layout, little-endian.
\<close>

definition field :: "u8 list \<Rightarrow> nat \<Rightarrow> nat \<Rightarrow> 'a::len word" where
  "field buf off n = le_word (take n (drop off buf))"

definition sizeof_ehdr :: nat where "sizeof_ehdr = 64"

definition sizeof_phdr :: nat where "sizeof_phdr = 56"

definition ehdr_of_bytes :: "u8 list \<Rightarrow> elf64_ehdr_t" where
  "ehdr_of_bytes b =
     \<lparr>e_ident = take EI_NIDENT b, e_type = field b 16 2, e_machine = field b 18 2,
      e_version = field b 20 4, e_entry = field b 24 8, e_phoff = field b 32 8,
      e_shoff = field b 40 8, e_flags = field b 48 4, e_ehsize = field b 52 2,
      e_phentsize = field b 54 2, e_phnum = field b 56 2, e_shentsize = field b 58 2,
      e_shnum = field b 60 2, e_shstrndx = field b 62 2\<rparr>"

definition phdr_of_bytes :: "u8 list \<Rightarrow> elf64_phdr_t" where
  "phdr_of_bytes b =
     \<lparr>p_type = field b 0 4, p_flags = field b 4 4, p_offset = field b 8 8, p_vaddr = field b 16 8,
      p_paddr = field b 24 8, p_filesz = field b 32 8, p_memsz = field b 40 8, p_align = field b 48 8\<rparr>"

section \<open>Writing the headers\<close>

text \<open>The file header and a program header as the ELF format stores them, and that the casts read them back.\<close>

definition bytes_of_ehdr :: "elf64_ehdr_t \<Rightarrow> u8 list" where
  "bytes_of_ehdr e = e_ident e @ le_bytes 2 (e_type e) @ le_bytes 2 (e_machine e) @ le_bytes 4 (e_version e) @
     le_bytes 8 (e_entry e) @ le_bytes 8 (e_phoff e) @ le_bytes 8 (e_shoff e) @ le_bytes 4 (e_flags e) @
     le_bytes 2 (e_ehsize e) @ le_bytes 2 (e_phentsize e) @ le_bytes 2 (e_phnum e) @ le_bytes 2 (e_shentsize e) @
     le_bytes 2 (e_shnum e) @ le_bytes 2 (e_shstrndx e)"

definition bytes_of_phdr :: "elf64_phdr_t \<Rightarrow> u8 list" where
  "bytes_of_phdr p = le_bytes 4 (p_type p) @ le_bytes 4 (p_flags p) @ le_bytes 8 (p_offset p) @
     le_bytes 8 (p_vaddr p) @ le_bytes 8 (p_paddr p) @ le_bytes 8 (p_filesz p) @ le_bytes 8 (p_memsz p) @
     le_bytes 8 (p_align p)"

lemma field_skip: "length xs \<le> off \<Longrightarrow> field (xs @ ys) off n = field ys (off - length xs) n"
  by (simp add: field_def)

lemma field_here: "field (le_bytes n (w :: 'a::len word) @ ys) 0 n = (le_word (le_bytes n w) :: 'a word)"
  by (simp add: field_def)

lemma ehdr_roundtrip:
  assumes "length (e_ident e) = EI_NIDENT"
  shows "ehdr_of_bytes (bytes_of_ehdr e @ rest) = e"
  using assms
  by (cases e) (simp add: ehdr_of_bytes_def bytes_of_ehdr_def field_skip field_here le_bytes_roundtrip EI_NIDENT_def
      del: le_bytes.simps)

lemma phdr_roundtrip: "phdr_of_bytes (bytes_of_phdr p @ rest) = p"
  by (cases p) (simp add: phdr_of_bytes_def bytes_of_phdr_def field_skip field_here le_bytes_roundtrip
      del: le_bytes.simps)

lemma length_headers:
  "length (e_ident e) = EI_NIDENT \<Longrightarrow> length (bytes_of_ehdr e) = sizeof_ehdr"
  "length (bytes_of_phdr p) = sizeof_phdr"
  by (simp_all add: bytes_of_ehdr_def bytes_of_phdr_def sizeof_ehdr_def sizeof_phdr_def EI_NIDENT_def)

end
