(* ===== verification/Mmu.thy ===== *)
theory Mmu
  imports Elfdef
begin

text \<open>
  The memory management of \<open>mmu.c\<close>: reading the file and program headers, mapping the segments, and the allocator behind the stack, the
  arguments and \<open>brk\<close>.

  The kernel is outside the program. What its answers depend on is the record \<open>host_t\<close>: the
  page size, which fixed mappings it refuses, and where it puts a mapping that is only hinted
  at. What a successful \<open>mmap\<close> or \<open>munmap\<close> does to the address space is defined here.
\<close>

section \<open>The kernel's side\<close>

record host_t =
  page_size :: u64
  mmap_refuses :: "u64 \<Rightarrow> u64 \<Rightarrow> bool"
  mmap_place :: "mem_t \<Rightarrow> u64 \<Rightarrow> u64 \<Rightarrow> u64 option"

definition MAP_FAILED :: u64 where "MAP_FAILED = - 1"

text \<open>
  \<open>len\<close> bytes from \<open>a\<close>, rounded up to whole pages, get the bytes \<open>content\<close> gives by
  offset. A page of a file mapping that lies wholly past the end of the file has no content:
  an access to it is a fault (\<open>SIGBUS\<close>), as to an unmapped page.
\<close>

definition map_pages :: "host_t \<Rightarrow> mem_t \<Rightarrow> u64 \<Rightarrow> u64 \<Rightarrow> u32 \<Rightarrow> (u64 \<Rightarrow> u8 option) \<Rightarrow> mem_t" where
  "map_pages h m a len prot content = (\<lambda>x.
     if in_region a (unat (ROUNDUP len (page_size h))) x
     then map_option (\<lambda>b. (b, prot)) (content (x - a)) else m x)"

definition anon_content :: "u64 \<Rightarrow> u8 option" where
  "anon_content k = Some 0"

definition file_content :: "host_t \<Rightarrow> u8 list \<Rightarrow> u64 \<Rightarrow> u64 \<Rightarrow> u8 option" where
  "file_content h file offset k =
     (let p = offset + k in
      if unat p < length file then Some (file ! unat p)
      else if unat (ROUNDDOWN p (page_size h)) < length file then Some 0
      else None)"

text \<open>\<open>mmap\<close> with \<open>MAP_FIXED\<close>: the address is a multiple of the page size or the call fails.\<close>

definition mmap_fixed ::
  "host_t \<Rightarrow> mem_t \<Rightarrow> u64 \<Rightarrow> u64 \<Rightarrow> u32 \<Rightarrow> (u64 \<Rightarrow> u8 option) \<Rightarrow> mem_t \<times> u64" where
  "mmap_fixed h m a len prot content =
     (if ROUNDUP len (page_size h) = 0 \<or> ROUNDDOWN a (page_size h) \<noteq> a \<or> mmap_refuses h a len
      then (m, MAP_FAILED) else (map_pages h m a len prot content, a))"

text \<open>\<open>mmap\<close> without it: the kernel takes the address as a hint.\<close>

definition mmap_hint ::
  "host_t \<Rightarrow> mem_t \<Rightarrow> u64 \<Rightarrow> u64 \<Rightarrow> u32 \<Rightarrow> mem_t \<times> u64" where
  "mmap_hint h m a len prot =
     (if ROUNDUP len (page_size h) = 0 then (m, MAP_FAILED)
      else case mmap_place h m a len of
        None \<Rightarrow> (m, MAP_FAILED)
      | Some a' \<Rightarrow> (map_pages h m a' len prot anon_content, a'))"

text \<open>\<open>munmap\<close>: \<open>None\<close> is the result -1.\<close>

definition munmap :: "host_t \<Rightarrow> mem_t \<Rightarrow> u64 \<Rightarrow> u64 \<Rightarrow> mem_t option" where
  "munmap h m a len =
     (if ROUNDUP len (page_size h) = 0 \<or> ROUNDDOWN a (page_size h) \<noteq> a then None
      else Some (\<lambda>x. if in_region a (unat (ROUNDUP len (page_size h))) x then None else m x))"

section \<open>Loading\<close>

record mmu_t =
  entry :: u64
  host_alloc :: u64
  guest_alloc :: u64
  base :: u64

definition mmu_zero :: mmu_t where
  "mmu_zero = \<lparr>entry = 0, host_alloc = 0, guest_alloc = 0, base = 0\<rparr>"

text \<open>
  \<open>fread\<close> of \<open>n\<close> bytes at a file position: all of them, or the count is short.
\<close>

definition read_at :: "u8 list \<Rightarrow> u64 \<Rightarrow> nat \<Rightarrow> u8 list option" where
  "read_at file pos n = 
     (if n = 0 \<or> unat pos + n \<le> length file then Some (take n (drop (unat pos) file)) else None)"

text \<open>
  \<open>load_phdr\<close> overwrites the first \<open>e_phentsize\<close> bytes of the caller's structure: a
  smaller entry leaves the rest as it was, a larger one writes past its end. \<open>fseek\<close> takes a
  signed offset and refuses a negative one.
\<close>

definition load_phdr :: "u8 list \<Rightarrow> elf64_ehdr_t \<Rightarrow> u64 \<Rightarrow> u8 list \<Rightarrow> u8 list res" where
  "load_phdr phdr ehdr i file =
     (let pos = e_phoff ehdr + ucast (e_phentsize ehdr) * i; n = unat (e_phentsize ehdr) in
      if sint pos < 0 then Inl (Fatal ''file too small'')
      else case read_at file pos n of
        None \<Rightarrow> Inl (Fatal ''file too small'')
      | Some bs \<Rightarrow>
          if sizeof_phdr < n then Inl (Index_Out_Of_Range (int n)) else Inr (bs @ drop n phdr))"

definition flags_to_mmap_prot :: "u32 \<Rightarrow> u32" where
  "flags_to_mmap_prot flags =
     (if flags AND PF_R \<noteq> 0 then PROT_READ else 0) OR (if flags AND PF_W \<noteq> 0 then PROT_WRITE else 0) OR
     (if flags AND PF_X \<noteq> 0 then PROT_EXEC else 0)"

definition mmu_load_segment ::
  "host_t \<Rightarrow> mmu_t \<Rightarrow> mem_t \<Rightarrow> elf64_phdr_t \<Rightarrow> u8 list \<Rightarrow> (mmu_t \<times> mem_t) res" where
  "mmu_load_segment h mmu m phdr file =
     (let pgsz = page_size h;
          guest_in_host_vaddr = TO_HOST (p_vaddr phdr);
          aligned_vaddr = ROUNDDOWN guest_in_host_vaddr pgsz;
          filesz = p_filesz phdr + (guest_in_host_vaddr - aligned_vaddr);
          memsz = p_memsz phdr + (guest_in_host_vaddr - aligned_vaddr);
          prot = flags_to_mmap_prot (p_flags phdr);
          (m1, addr) = mmap_fixed h m aligned_vaddr filesz prot
            (file_content h file (ROUNDDOWN (p_offset phdr) pgsz))
      in if addr \<noteq> aligned_vaddr then Inl (Assert_Fail ''addr == aligned_vaddr'')
      else
        let remaining_bss_size = ROUNDUP memsz pgsz - ROUNDUP filesz pgsz;
            bss = aligned_vaddr + ROUNDUP filesz pgsz;
            (m2, addr2) = (if remaining_bss_size > 0
              then mmap_fixed h m1 bss remaining_bss_size prot anon_content else (m1, bss))
        in if addr2 \<noteq> bss
           then Inl (Assert_Fail ''addr == aligned_vaddr + ROUNDUP(filesz, page_size)'')
           else
             let ha = MAX_u64 (host_alloc mmu) (aligned_vaddr + ROUNDUP memsz pgsz)
             in Inr (mmu\<lparr>host_alloc := ha, base := TO_GUEST ha, guest_alloc := TO_GUEST ha\<rparr>, m2))"

text \<open>The loop over the program headers, from header \<open>i\<close>, with \<open>n\<close> of them left.\<close>

primrec load_segments ::
  "host_t \<Rightarrow> elf64_ehdr_t \<Rightarrow> u8 list \<Rightarrow> nat \<Rightarrow> u64 \<Rightarrow> u8 list \<Rightarrow> mmu_t \<Rightarrow> mem_t \<Rightarrow> (mmu_t \<times> mem_t) res" where
  "load_segments h ehdr file 0 i phdr mmu m = Inr (mmu, m)"
| "load_segments h ehdr file (Suc n) i phdr mmu m =
     bindE (load_phdr phdr ehdr i file) (\<lambda>phdr'.
     bindE (if p_type (phdr_of_bytes phdr') = PT_LOAD
            then mmu_load_segment h mmu m (phdr_of_bytes phdr') file else Inr (mmu, m)) (\<lambda>(mmu', m').
     load_segments h ehdr file n (i + 1) phdr' mmu' m'))"

text \<open>
  \<open>phdr\<close> is a local variable that is not initialised: its bytes at entry are the argument
  \<open>stack\<close>.
\<close>

definition mmu_load_elf ::
  "host_t \<Rightarrow> u8 list \<Rightarrow> mmu_t \<Rightarrow> mem_t \<Rightarrow> u8 list \<Rightarrow> (mmu_t \<times> mem_t) res" where
  "mmu_load_elf h stack mmu m file =
     (case read_at file 0 sizeof_ehdr of
        None \<Rightarrow> Inl (Fatal ''file too small'')
      | Some buf \<Rightarrow>
          let ehdr = ehdr_of_bytes buf in
          if (field buf 0 4 :: u32) \<noteq> le_word ELFMAG then Inl (Fatal ''bad elfmag'')
          else if e_machine ehdr \<noteq> EM_RISCV \<or> e_ident ehdr ! EI_CLASS \<noteq> ELFCLASS64
          then Inl (Fatal ''only RISCV64 elf support'')
          else load_segments h ehdr file (unat (e_phnum ehdr)) 0 stack (mmu\<lparr>entry := e_entry ehdr\<rparr>) m)"

section \<open>The allocator\<close>

definition mmu_alloc :: "host_t \<Rightarrow> mmu_t \<Rightarrow> mem_t \<Rightarrow> i64 \<Rightarrow> (u64 \<times> mmu_t \<times> mem_t) res" where
  "mmu_alloc h mmu m sz =
     (let pgsz = page_size h; old = guest_alloc mmu in
      if old < base mmu then Inl (Assert_Fail ''base >= mmu->base'')
      else
        let mmu1 = mmu\<lparr>guest_alloc := guest_alloc mmu + sz\<rparr> in
        if guest_alloc mmu1 < base mmu1 then Inl (Assert_Fail ''mmu->guest_alloc >= mmu->base'')
        else if sint sz > 0 \<and> guest_alloc mmu1 > TO_GUEST (host_alloc mmu1) then
          let alloc_size = ROUNDUP sz pgsz;
              (m', r) = mmap_hint h m (host_alloc mmu1) alloc_size (PROT_READ OR PROT_WRITE)
          in if r = MAP_FAILED then Inl (Fatal ''mmap failed in mmu alloc'')
             else Inr (old, mmu1\<lparr>host_alloc := host_alloc mmu1 + alloc_size\<rparr>, m')
        else if sint sz < 0 \<and> ROUNDUP (guest_alloc mmu1) pgsz < TO_GUEST (host_alloc mmu1) then
          let munmap_size = TO_GUEST (host_alloc mmu1) - ROUNDUP (guest_alloc mmu1) pgsz
          in case munmap h m (host_alloc mmu1) munmap_size of
               None \<Rightarrow> Inl (Fatal ''strerror(errno)'')
             | Some m' \<Rightarrow> Inr (old, mmu1\<lparr>host_alloc := host_alloc mmu1 - munmap_size\<rparr>, m')
        else Inr (old, mmu1, m))"

definition mmu_write :: "mem_t \<Rightarrow> u64 \<Rightarrow> u8 list \<Rightarrow> mem_t res" where
  "mmu_write m guest_addr data = store_bytes data m (TO_HOST guest_addr)"

section \<open>Rounding to pages\<close>

definition page_ok :: "host_t \<Rightarrow> bool" where
  "page_ok h \<longleftrightarrow> (\<exists>k. 0 < k \<and> k \<le> 32 \<and> page_size h = 2 ^ k)"

lemma unat_pow2: "k < 64 \<Longrightarrow> unat (2 ^ k :: u64) = 2 ^ k"
proof -
  assume k: "k < 64"
  then have "(2::nat) ^ k < 2 ^ 64" by (intro power_strict_increasing) simp_all
  with k have "unat (word_of_nat (2 ^ k) :: u64) = 2 ^ k" by (simp only: unsigned_of_nat) (simp add: take_bit_nat_eq_self)
  then show ?thesis by simp
qed

lemma unat_and_neg:
  fixes x :: u64
  assumes "k < 64"
  shows "unat (x AND - (2 ^ k)) = unat x div 2 ^ k * 2 ^ k"
proof -
  have less: "unat x < 2 ^ 64" using unsigned_less [of x, where 'a = nat] by simp
  have "x AND - (2 ^ k) = push_bit k (drop_bit k x)"
    by (simp add: minus_exp_eq_not_mask bit_eq_iff bit_simps) auto
  moreover have "unat (drop_bit k x) = drop_bit k (unat x)"
    using less by (simp only: unsigned_drop_bit_eq) (simp add: take_bit_nat_eq_self)
  moreover have "unat x div 2 ^ k * 2 ^ k < 2 ^ 64"
    using less by (rule le_less_trans [rotated]) simp
  ultimately show ?thesis
    by (simp only: unsigned_push_bit_eq)
      (simp add: push_bit_eq_mult take_bit_nat_eq_self flip: drop_bit_eq_div)
qed

lemma page_sizeE:
  assumes "page_ok h"
  obtains k where "k \<le> 32" "page_size h = 2 ^ k" "unat (page_size h) = 2 ^ k" "0 < k"
  using assms unat_pow2 by (auto simp: page_ok_def)

lemma page_size_le: "page_ok h \<Longrightarrow> unat (page_size h) \<le> 2 ^ 32"
  by (erule page_sizeE) (simp only:, rule power_increasing, simp_all)

lemma ROUNDDOWN_unat:
  assumes "page_ok h"
  shows "unat (ROUNDDOWN x (page_size h)) = unat x div unat (page_size h) * unat (page_size h)"
proof -
  obtain k where k: "k \<le> 32" "page_size h = 2 ^ k" "unat (page_size h) = 2 ^ k"
    by (rule page_sizeE [OF assms])
  then show ?thesis by (simp only: ROUNDDOWN_def k(3)) (simp add: unat_and_neg)
qed

lemma ROUNDUP_unat:
  assumes "page_ok h" "unat x + unat (page_size h) \<le> 2 ^ 64"
  shows "unat (ROUNDUP x (page_size h)) =
    (unat x + unat (page_size h) - 1) div unat (page_size h) * unat (page_size h)"
proof -
  obtain k where k: "k \<le> 32" "page_size h = 2 ^ k" "unat (page_size h) = 2 ^ k"
    by (rule page_sizeE [OF assms(1)])
  have "unat (page_size h) \<noteq> 0" by (simp only: k(3)) simp
  then have nz: "page_size h \<noteq> 0" by auto
  from unat_minus_one [OF this] have p: "unat (page_size h - 1) = unat (page_size h) - 1" .
  then have "unat x + unat (page_size h - 1) < 2 ^ 64"
    using assms(2) \<open>unat (page_size h) \<noteq> 0\<close> by linarith
  then have "unat (x + (page_size h - 1)) = unat x + (unat (page_size h) - 1)"
    using unat_add_lem [of x "page_size h - 1"] p by simp
  then have "unat (x + page_size h - 1) = unat x + unat (page_size h) - 1"
    using \<open>unat (page_size h) \<noteq> 0\<close> by (simp add: add_diff_eq)
  with k show ?thesis by (simp only: ROUNDUP_def k(3)) (simp add: unat_and_neg)
qed

text \<open>Rounding up gives the next multiple of the page size.\<close>

lemma ROUNDUP_bounds:
  assumes "page_ok h" "unat x + unat (page_size h) \<le> 2 ^ 64"
  shows "unat x \<le> unat (ROUNDUP x (page_size h))"
    "unat (ROUNDUP x (page_size h)) < unat x + unat (page_size h)"
    "unat (page_size h) dvd unat (ROUNDUP x (page_size h))"
proof -
  let ?p = "unat (page_size h)" and ?y = "unat x + unat (page_size h) - 1"
  obtain k where "?p = 2 ^ k" by (rule page_sizeE [OF assms(1)])
  then have p: "0 < ?p" by simp
  have "?y div ?p * ?p = ?y - ?y mod ?p" by (simp add: minus_mod_eq_div_mult)
  moreover have "?y mod ?p < ?p" using p by simp
  moreover have "?y mod ?p \<le> ?y" by simp
  ultimately show "unat x \<le> unat (ROUNDUP x (page_size h))"
    "unat (ROUNDUP x (page_size h)) < unat x + ?p"
    unfolding ROUNDUP_unat [OF assms] using p by linarith+
  show "?p dvd unat (ROUNDUP x (page_size h))" unfolding ROUNDUP_unat [OF assms] by simp
qed

lemma ROUNDUP_dvd:
  assumes "page_ok h"
  shows "unat (page_size h) dvd unat (ROUNDUP x (page_size h))"
proof -
  obtain k where k: "k \<le> 32" "page_size h = 2 ^ k" "unat (page_size h) = 2 ^ k"
    by (rule page_sizeE [OF assms])
  then show ?thesis by (simp only: ROUNDUP_def k(3)) (simp add: unat_and_neg)
qed

lemma ROUNDDOWN_bounds:
  assumes "page_ok h"
  shows "unat (ROUNDDOWN x (page_size h)) \<le> unat x"
    "unat x < unat (ROUNDDOWN x (page_size h)) + unat (page_size h)"
proof -
  let ?p = "unat (page_size h)"
  obtain k where "?p = 2 ^ k" by (rule page_sizeE [OF assms])
  then have "0 < ?p" by simp
  then have "unat x mod ?p < ?p" by simp
  moreover have "unat x = unat x div ?p * ?p + unat x mod ?p" by simp
  ultimately show "unat (ROUNDDOWN x (page_size h)) \<le> unat x"
    "unat x < unat (ROUNDDOWN x (page_size h)) + ?p"
    unfolding ROUNDDOWN_unat [OF assms] by linarith+
qed

lemma ROUNDUP_multiple:
  assumes "page_ok h" "unat x + unat (page_size h) \<le> 2 ^ 64" "unat (page_size h) dvd unat x"
  shows "ROUNDUP x (page_size h) = x"
proof -
  let ?p = "unat (page_size h)" and ?r = "unat (ROUNDUP x (page_size h))"
  from ROUNDUP_bounds [OF assms(1,2)] assms(3) have "?p dvd ?r - unat x" "?r - unat x < ?p" "unat x \<le> ?r"
    by (simp_all add: dvd_diff_nat)
  then have "?r = unat x" by (metis dvd_imp_le le_antisym le_add_diff_inverse nat_neq_iff not_less zero_less_diff diff_is_0_eq)
  then show ?thesis by (rule word_unat_eq_iff [THEN iffD2])
qed

section \<open>Regions of the heap\<close>

lemma in_region_sub:
  assumes "unat (b - a) + k \<le> n" "in_region b k x"
  shows "in_region a n x"
proof -
  have "x - a = (x - b) + (b - a)" by simp
  then have "unat (x - a) \<le> unat (x - b) + unat (b - a)"
    by (simp only: unat_word_ariths) simp
  with assms show ?thesis by (simp add: in_region_def)
qed

lemma in_region_split:
  "in_region a (n + k) x \<longleftrightarrow> in_region a n x \<or> in_region (a + word_of_nat n) k x"
  if "n < 2 ^ 64"
proof (cases "in_region a n x")
  case False
  then have u: "n \<le> unat (x - a)" by (simp add: in_region_def)
  have n: "unat (word_of_nat n :: u64) = n"
    using that by (simp only: unsigned_of_nat) (simp add: take_bit_nat_eq_self)
  then have "word_of_nat n \<le> x - a" using u by (simp add: word_le_nat_alt)
  then have "unat (x - a - word_of_nat n) = unat (x - a) - n" by (simp add: unat_sub n)
  then have "unat (x - (a + word_of_nat n)) = unat (x - a) - n" by (simp add: diff_diff_eq)
  with False u show ?thesis by (auto simp: in_region_def)
qed (simp add: in_region_def)

definition mapped_rw :: "mem_t \<Rightarrow> u64 \<Rightarrow> nat \<Rightarrow> bool" where
  "mapped_rw m a n \<longleftrightarrow> (\<forall>x. in_region a n x \<longrightarrow> readable m x \<and> writable m x)"

lemma mapped_rw_sub: "mapped_rw m a n \<Longrightarrow> unat (b - a) + k \<le> n \<Longrightarrow> mapped_rw m b k"
  using in_region_sub by (auto simp: mapped_rw_def)

lemma mapped_rw_split:
  "n < 2 ^ 64 \<Longrightarrow> mapped_rw m a (n + k) \<longleftrightarrow> mapped_rw m a n \<and> mapped_rw m (a + word_of_nat n) k"
  using in_region_split by (auto simp: mapped_rw_def)

lemma map_pages_rw:
  "mapped_rw (map_pages h m a len (PROT_READ OR PROT_WRITE) anon_content) a (unat (ROUNDUP len (page_size h)))"
  by (simp add: mapped_rw_def map_pages_def anon_content_def readable_def writable_def PROT_READ_def
      PROT_WRITE_def)

lemma map_pages_rw_other:
  "mapped_rw m b n \<Longrightarrow> mapped_rw (map_pages h m a len (PROT_READ OR PROT_WRITE) anon_content) b n"
  by (simp add: mapped_rw_def map_pages_def anon_content_def readable_def writable_def PROT_READ_def
      PROT_WRITE_def)

section \<open>The allocator's contract\<close>

text \<open>
  The area from \<open>base\<close> to \<open>host_alloc\<close> is mapped for reading and writing, and what has been
  handed out ends inside it.
\<close>

definition user_space :: nat where "user_space = 2 ^ 47"

definition mmu_inv :: "host_t \<Rightarrow> mmu_t \<Rightarrow> mem_t \<Rightarrow> bool" where
  "mmu_inv h mmu m \<longleftrightarrow> base mmu \<le> guest_alloc mmu \<and> guest_alloc mmu \<le> TO_GUEST (host_alloc mmu) \<and>
     GUEST_MEMORY_OFFSET \<le> host_alloc mmu \<and> unat (host_alloc mmu) \<le> user_space \<and>
     ROUNDDOWN (host_alloc mmu) (page_size h) = host_alloc mmu \<and>
     mapped_rw m (TO_HOST (base mmu)) (unat (TO_GUEST (host_alloc mmu) - base mmu))"

text \<open>
  What the kernel documents about \<open>mmap\<close> with a hint: the mapping is made at a page boundary
  inside user space, and at the hint when that is a page boundary with nothing mapped behind it.
\<close>

definition host_ok :: "host_t \<Rightarrow> bool" where
  "host_ok h \<longleftrightarrow> page_ok h \<and> (\<forall>m a len a'. mmap_place h m a len = Some a' \<longrightarrow>
     unat a' + unat (ROUNDUP len (page_size h)) \<le> user_space \<and>
     (ROUNDDOWN a (page_size h) = a \<and> (\<forall>x. in_region a (unat (ROUNDUP len (page_size h))) x \<longrightarrow> m x = None)
       \<longrightarrow> a' = a))"

lemma mmu_invD:
  assumes "mmu_inv h mmu m"
  shows "unat (base mmu) \<le> unat (guest_alloc mmu)"
    "unat (guest_alloc mmu) \<le> unat (TO_GUEST (host_alloc mmu))"
    "unat (TO_GUEST (host_alloc mmu)) = unat (host_alloc mmu) - unat GUEST_MEMORY_OFFSET"
    "unat (host_alloc mmu) \<le> 2 ^ 47"
proof -
  have *: "base mmu \<le> guest_alloc mmu" "guest_alloc mmu \<le> TO_GUEST (host_alloc mmu)"
    "GUEST_MEMORY_OFFSET \<le> host_alloc mmu" "unat (host_alloc mmu) \<le> user_space"
    using assms by (simp_all add: mmu_inv_def)
  from * show "unat (base mmu) \<le> unat (guest_alloc mmu)"
    "unat (guest_alloc mmu) \<le> unat (TO_GUEST (host_alloc mmu))"
    by (simp_all only: word_le_nat_alt)
  from *(3) show "unat (TO_GUEST (host_alloc mmu)) = unat (host_alloc mmu) - unat GUEST_MEMORY_OFFSET"
    by (simp add: TO_GUEST_def unat_sub)
  from *(4) show "unat (host_alloc mmu) \<le> 2 ^ 47" by (simp add: user_space_def)
qed

lemma unat_pos_size:
  assumes "0 < sint (sz :: i64)"
  shows "unat sz < 2 ^ 63" "0 < unat sz"
proof -
  have "uint sz = sint sz mod 2 ^ 64" using uint_sint [of sz] by (simp add: take_bit_eq_mod)
  moreover have "sint sz < 2 ^ 63" using sint_lt [of sz] by simp
  ultimately have "uint sz = sint sz" using assms by simp
  with assms \<open>sint sz < 2 ^ 63\<close> have "uint sz < 2 ^ 63" "0 < uint sz" by simp_all
  then have "int (unat sz) < int (2 ^ 63)" "int 0 < int (unat sz)" by (simp_all add: of_nat_unat)
  then show "unat sz < 2 ^ 63" "0 < unat sz" by (simp_all only: of_nat_less_iff)
qed

lemma handed_out:
  assumes "b \<le> ga" "unat ga + n \<le> unat hi" "mapped_rw m (TO_HOST b) (unat (hi - b))"
  shows "mapped_rw m (TO_HOST ga) n"
proof (rule mapped_rw_sub [OF assms(3)])
  have "unat b \<le> unat ga" "b \<le> hi" using assms(1,2) by (simp_all add: word_le_nat_alt)
  moreover have "TO_HOST ga - TO_HOST b = ga - b" by (simp add: TO_HOST_def)
  ultimately show "unat (TO_HOST ga - TO_HOST b) + n \<le> unat (hi - b)"
    using assms(1,2) by (simp add: unat_sub)
qed

lemma ROUNDDOWN_multiple:
  assumes "page_ok h"
  shows "ROUNDDOWN x (page_size h) = x \<longleftrightarrow> unat (page_size h) dvd unat x"
  unfolding word_unat_eq_iff ROUNDDOWN_unat [OF assms] by (metis dvd_div_mult_self dvd_triv_right)

text \<open>The mapping the growing branch makes, when nothing is mapped above \<open>host_alloc\<close>.\<close>

lemma mmap_hint_free:
  assumes "host_ok h" "ROUNDDOWN a (page_size h) = a" "mmap_hint h m a len prot = (m', r)" "r \<noteq> MAP_FAILED"
    and "\<forall>x. in_region a (unat (ROUNDUP len (page_size h))) x \<longrightarrow> m x = None"
  shows "m' = map_pages h m a len prot anon_content \<and>
    unat a + unat (ROUNDUP len (page_size h)) \<le> user_space"
proof -
  from assms(3,4) have r: "mmap_place h m a len = Some r" "m' = map_pages h m r len prot anon_content"
    by (auto simp: mmap_hint_def split: if_splits option.splits)
  from assms(1) r(1) have "unat r + unat (ROUNDUP len (page_size h)) \<le> user_space"
    "ROUNDDOWN a (page_size h) = a \<and>
     (\<forall>x. in_region a (unat (ROUNDUP len (page_size h))) x \<longrightarrow> m x = None) \<longrightarrow> r = a"
    unfolding host_ok_def by blast+
  with assms(2,5) r(2) show ?thesis by blast
qed

lemma mmu_alloc_cases:
  assumes "mmu_inv h mmu m" "0 < sint sz" "mmu_alloc h mmu m sz = Inr (a, mmu', m')"
  shows "a = guest_alloc mmu" "unat (guest_alloc mmu + sz) = unat (guest_alloc mmu) + unat sz"
    "if TO_GUEST (host_alloc mmu) < guest_alloc mmu + sz then
       (\<exists>r. mmap_hint h m (host_alloc mmu) (ROUNDUP sz (page_size h)) (PROT_READ OR PROT_WRITE) = (m', r) \<and>
         r \<noteq> MAP_FAILED) \<and>
       mmu' = mmu\<lparr>guest_alloc := guest_alloc mmu + sz,
         host_alloc := host_alloc mmu + ROUNDUP sz (page_size h)\<rparr>
     else mmu' = mmu\<lparr>guest_alloc := guest_alloc mmu + sz\<rparr> \<and> m' = m"
proof -
  note inv = mmu_invD [OF assms(1)] and sz = unat_pos_size [OF assms(2)]
  show g: "unat (guest_alloc mmu + sz) = unat (guest_alloc mmu) + unat sz"
    using inv sz by (intro unat_add_lem [THEN iffD1]) simp
  then have "\<not> guest_alloc mmu < base mmu" "\<not> guest_alloc mmu + sz < base mmu"
    using inv by (simp_all add: word_less_nat_alt)
  with assms(2,3) show "a = guest_alloc mmu"
    "if TO_GUEST (host_alloc mmu) < guest_alloc mmu + sz then
       (\<exists>r. mmap_hint h m (host_alloc mmu) (ROUNDUP sz (page_size h)) (PROT_READ OR PROT_WRITE) = (m', r) \<and>
         r \<noteq> MAP_FAILED) \<and>
       mmu' = mmu\<lparr>guest_alloc := guest_alloc mmu + sz,
         host_alloc := host_alloc mmu + ROUNDUP sz (page_size h)\<rparr>
     else mmu' = mmu\<lparr>guest_alloc := guest_alloc mmu + sz\<rparr> \<and> m' = m"
    by (auto simp: mmu_alloc_def Let_def split: if_splits prod.splits)
qed

text \<open>Mapping \<open>n\<close> more bytes at \<open>host_alloc\<close> keeps the invariant.\<close>

lemma area_extends:
  assumes inv: "mmu_inv h mmu m" and page: "page_ok h" and nn: "ROUNDUP n (page_size h) = n"
    and top: "unat (host_alloc mmu) + unat n \<le> user_space" and dvd: "unat (page_size h) dvd unat n"
    and g: "base mmu \<le> g" "unat g \<le> unat (TO_GUEST (host_alloc mmu)) + unat n"
  shows "mmu_inv h (mmu\<lparr>guest_alloc := g, host_alloc := host_alloc mmu + n\<rparr>)
    (map_pages h m (host_alloc mmu) n (PROT_READ OR PROT_WRITE) anon_content)" (is "mmu_inv h _ ?m")
    "unat (TO_GUEST (host_alloc mmu + n)) = unat (TO_GUEST (host_alloc mmu)) + unat n"
proof -
  let ?H = "TO_GUEST (host_alloc mmu)"
  note D = mmu_invD [OF inv]
  have H': "TO_GUEST (host_alloc mmu + n) = ?H + n" by (simp add: TO_GUEST_def)
  have ha: "unat (host_alloc mmu + n) = unat (host_alloc mmu) + unat n"
    using top by (intro unat_add_lem [THEN iffD1]) (simp add: user_space_def)
  have uH': "unat (?H + n) = unat ?H + unat n"
    using top D(3) by (intro unat_add_lem [THEN iffD1]) (simp add: user_space_def)
  then show "unat (TO_GUEST (host_alloc mmu + n)) = unat ?H + unat n" by (simp only: H')
  have "base mmu \<le> ?H" "base mmu \<le> ?H + n" using D uH' by (simp_all add: word_le_nat_alt)
  then have len: "unat (?H + n - base mmu) = unat (?H - base mmu) + unat n"
    using D uH' by (simp add: unat_sub)
  have "TO_HOST (base mmu) + word_of_nat (unat (?H - base mmu)) = host_alloc mmu"
    by (simp add: TO_HOST_def TO_GUEST_def)
  moreover have "unat (?H - base mmu) < 2 ^ 64"
    using unsigned_less [of "?H - base mmu", where 'a = nat] by simp
  moreover have "mapped_rw ?m (TO_HOST (base mmu)) (unat (?H - base mmu))"
    using inv by (simp add: mmu_inv_def map_pages_rw_other)
  moreover have "mapped_rw ?m (host_alloc mmu) (unat n)"
    using map_pages_rw [of h m "host_alloc mmu" n] nn by simp
  ultimately have "mapped_rw ?m (TO_HOST (base mmu)) (unat (?H + n - base mmu))"
    by (simp only: len mapped_rw_split)
  moreover have "g \<le> ?H + n" using g uH' by (simp add: word_le_nat_alt)
  moreover have "GUEST_MEMORY_OFFSET \<le> host_alloc mmu + n"
    using inv ha by (simp add: mmu_inv_def word_le_nat_alt)
  moreover have "ROUNDDOWN (host_alloc mmu + n) (page_size h) = host_alloc mmu + n"
    using inv dvd by (simp add: mmu_inv_def ROUNDDOWN_multiple [OF page] ha)
  ultimately show "mmu_inv h (mmu\<lparr>guest_alloc := g, host_alloc := host_alloc mmu + n\<rparr>) ?m"
    using g(1) top ha by (simp add: mmu_inv_def H')
qed

text \<open>A request either fits into the area or extends it by whole pages at its end.\<close>

lemma mmu_alloc_extends:
  assumes "host_ok h" "mmu_inv h mmu m" "0 < sint sz"
    and free: "TO_GUEST (host_alloc mmu) < guest_alloc mmu + sz \<longrightarrow>
      (\<forall>x. in_region (host_alloc mmu) (unat (ROUNDUP sz (page_size h))) x \<longrightarrow> m x = None)"
    and res: "mmu_alloc h mmu m sz = Inr (a, mmu', m')"
  obtains (fits) "guest_alloc mmu + sz \<le> TO_GUEST (host_alloc mmu)"
      "mmu' = mmu\<lparr>guest_alloc := guest_alloc mmu + sz\<rparr>" "m' = m"
    | (extends) n where "n = ROUNDUP sz (page_size h)" "ROUNDUP n (page_size h) = n"
      "unat (page_size h) dvd unat n" "unat sz \<le> unat n" "unat (host_alloc mmu) + unat n \<le> user_space"
      "mmu' = mmu\<lparr>guest_alloc := guest_alloc mmu + sz, host_alloc := host_alloc mmu + n\<rparr>"
      "m' = map_pages h m (host_alloc mmu) n (PROT_READ OR PROT_WRITE) anon_content"
      "TO_GUEST (host_alloc mmu) < guest_alloc mmu + sz"
proof -
  note inv = mmu_invD [OF assms(2)] and sz = unat_pos_size [OF assms(3)]
    and c = mmu_alloc_cases [OF assms(2,3) res]
  have page: "page_ok h" using assms(1) by (simp add: host_ok_def)
  let ?n = "ROUNDUP sz (page_size h)"
  show thesis
  proof (cases "TO_GUEST (host_alloc mmu) < guest_alloc mmu + sz")
    case False
    with c(3) fits show ?thesis by simp
  next
    case True
    with c(3) obtain r where
      r: "mmap_hint h m (host_alloc mmu) ?n (PROT_READ OR PROT_WRITE) = (m', r)" "r \<noteq> MAP_FAILED"
      and mmu': "mmu' = mmu\<lparr>guest_alloc := guest_alloc mmu + sz, host_alloc := host_alloc mmu + ?n\<rparr>"
      by auto
    have "unat sz + unat (page_size h) \<le> 2 ^ 64"
      using sz(1) page_size_le [OF page] by simp
    note n = ROUNDUP_bounds [OF page this]
    have nn: "ROUNDUP ?n (page_size h) = ?n"
      using n sz(1) page_size_le [OF page] by (intro ROUNDUP_multiple [OF page]) simp_all
    have al: "ROUNDDOWN (host_alloc mmu) (page_size h) = host_alloc mmu"
      using assms(2) by (simp add: mmu_inv_def)
    from mmap_hint_free [OF assms(1) al r] free [THEN mp, OF True] have
      "m' = map_pages h m (host_alloc mmu) ?n (PROT_READ OR PROT_WRITE) anon_content"
      "unat (host_alloc mmu) + unat ?n \<le> user_space"
      by (simp_all only: nn)
    with extends [OF refl nn n(3,1) _ mmu' _ True] show ?thesis by blast
  qed
qed

lemma mmu_alloc_refused:
  assumes "mmu_inv h mmu m" "0 < sint sz" "mmu_alloc h mmu m sz = Inl e"
  shows "e = Fatal ''mmap failed in mmu alloc''"
proof -
  note inv = mmu_invD [OF assms(1)] and sz = unat_pos_size [OF assms(2)]
  have "unat (guest_alloc mmu + sz) = unat (guest_alloc mmu) + unat sz"
    using inv sz by (intro unat_add_lem [THEN iffD1]) simp
  then have "\<not> guest_alloc mmu < base mmu" "\<not> guest_alloc mmu + sz < base mmu"
    using inv by (simp_all add: word_less_nat_alt)
  with assms(2,3) show ?thesis by (auto simp: mmu_alloc_def Let_def split: if_splits prod.splits)
qed

lemma mmu_alloc_grow:
  assumes "host_ok h" "mmu_inv h mmu m" "0 < sint sz"
    and free: "TO_GUEST (host_alloc mmu) < guest_alloc mmu + sz \<longrightarrow>
      (\<forall>x. in_region (host_alloc mmu) (unat (ROUNDUP sz (page_size h))) x \<longrightarrow> m x = None)"
    and res: "mmu_alloc h mmu m sz = Inr (a, mmu', m')"
  shows "a = guest_alloc mmu \<and> guest_alloc mmu' = guest_alloc mmu + sz \<and>
    mmu_inv h mmu' m' \<and> mapped_rw m' (TO_HOST a) (unat sz) \<and> (\<forall>x. m x \<noteq> None \<longrightarrow> m' x = m x)"
proof -
  note inv = mmu_invD [OF assms(2)] and sz = unat_pos_size [OF assms(3)]
    and c = mmu_alloc_cases [OF assms(2,3) res]
  have page: "page_ok h" using assms(1) by (simp add: host_ok_def)
  have bg: "base mmu \<le> guest_alloc mmu" "base mmu \<le> guest_alloc mmu + sz"
    using inv c(2) by (simp_all add: word_le_nat_alt)
  from assms have inv': "mmu_inv h mmu' m' \<and> base mmu' = base mmu \<and> guest_alloc mmu' = guest_alloc mmu + sz \<and>
      unat (guest_alloc mmu) + unat sz \<le> unat (TO_GUEST (host_alloc mmu')) \<and> (\<forall>x. m x \<noteq> None \<longrightarrow> m' x = m x)"
  proof (cases rule: mmu_alloc_extends)
    case fits
    with c(2) assms(2) bg show ?thesis by (simp add: mmu_inv_def) (simp only: word_le_nat_alt)
  next
    case (extends n)
    have "unat (guest_alloc mmu + sz) \<le> unat (TO_GUEST (host_alloc mmu)) + unat n"
      using c(2) inv(2) extends(4) by simp
    note ext = area_extends [OF assms(2) page extends(2,5,3) bg(2) this]
    have "m' x = m x" if "m x \<noteq> None" for x
      using that free [rule_format, OF extends(8)] by (simp only: extends(7) map_pages_def extends(2)) (auto simp: extends(1) split: if_splits)
    with ext extends inv(2) show ?thesis by simp
  qed
  then have "mapped_rw m' (TO_HOST (base mmu)) (unat (TO_GUEST (host_alloc mmu') - base mmu))"
    "unat (guest_alloc mmu) + unat sz \<le> unat (TO_GUEST (host_alloc mmu'))"
    by (metis mmu_inv_def)+
  from handed_out [OF bg(1) this(2,1)] inv' c(1) show ?thesis by blast
qed

section \<open>Shrinking\<close>

lemma page_dvd_exp:
  assumes "page_ok h"
  shows "unat (page_size h) dvd 2 ^ 64" "unat (page_size h) dvd unat GUEST_MEMORY_OFFSET"
proof -
  obtain k where k: "k \<le> 32" "unat (page_size h) = 2 ^ k" by (rule page_sizeE [OF assms])
  show "unat (page_size h) dvd 2 ^ 64" unfolding k(2) by (rule le_imp_power_dvd) (use k in simp)
  have "(2::nat) ^ k dvd 2 ^ 32" by (rule le_imp_power_dvd) (use k in simp)
  moreover have "unat GUEST_MEMORY_OFFSET = 2 ^ 32 * 0x888" by (simp add: GUEST_MEMORY_OFFSET_def)
  ultimately show "unat (page_size h) dvd unat GUEST_MEMORY_OFFSET" unfolding k(2) by (metis dvd_mult2)
qed

lemma below_region:
  assumes "unat u < unat f" "unat f < 2 ^ 62" "n \<le> 2 ^ 63" "x - a = (u :: u64)"
  shows "\<not> in_region (a + f) n x"
proof -
  have "x - (a + f) = u - f" using assms(4) by (simp add: diff_diff_eq [symmetric])
  moreover have "unat (u - f) = unat u + 2 ^ 64 - unat f"
    using assms(1) by (simp add: unat_sub_if')
  ultimately have "unat (x - (a + f)) = unat u + 2 ^ 64 - unat f" by (simp only:)
  with assms(2,3) have "n \<le> unat (x - (a + f))" by simp
  then show ?thesis by (simp only: in_region_def not_less)
qed

lemma mmu_alloc_shrink:
  assumes page: "page_ok h" and inv: "mmu_inv h u m" and "sint sz < 0"
    and "base u \<le> guest_alloc u + sz"
    and lt: "ROUNDUP (guest_alloc u + sz) (page_size h) < TO_GUEST (host_alloc u)"
    and res: "mmu_alloc h u m sz = Inr (a, u', m')"
  shows "host_alloc u' = TO_HOST (ROUNDUP (guest_alloc u + sz) (page_size h)) \<and>
    (\<forall>x. in_region (host_alloc u') (unat (host_alloc u - host_alloc u')) x \<longrightarrow> m' x = m x) \<and>
    (\<forall>x. m' x = (if in_region (host_alloc u) (unat (host_alloc u - host_alloc u')) x then None else m x))"
proof -
  let ?g = "ROUNDUP (guest_alloc u + sz) (page_size h)"
  let ?n = "TO_GUEST (host_alloc u) - ?g"
  note D = mmu_invD [OF inv]
  from res assms(3,4) lt mmu_invD(1) [OF inv] have m: "munmap h m (host_alloc u) ?n = Some m'" and u': "host_alloc u' = host_alloc u - ?n"
    by (auto simp: mmu_alloc_def Let_def word_less_nat_alt split: if_splits option.splits)
  have ha: "host_alloc u' = TO_HOST ?g" by (simp add: u' TO_HOST_def TO_GUEST_def)
  have n: "unat ?n < 2 ^ 48" "0 < unat ?n"
    using D(3,4) lt by (simp_all add: unat_sub word_le_nat_alt word_less_nat_alt)
  have up: "unat ?n \<le> unat (ROUNDUP ?n (page_size h))" "unat (ROUNDUP ?n (page_size h)) < 2 ^ 62"
    using ROUNDUP_bounds(1,2) [OF page, of ?n] n page_size_le [OF page] by simp_all
  have "unat (page_size h) dvd unat (TO_GUEST (host_alloc u))"
  proof -
    have "unat (page_size h) dvd unat (host_alloc u)"
      using inv by (simp add: mmu_inv_def flip: ROUNDDOWN_multiple [OF page])
    then show ?thesis using page_dvd_exp(2) [OF page] by (simp add: D(3) dvd_diff_nat)
  qed
  then have "unat (page_size h) dvd unat ?n"
    using ROUNDUP_dvd [OF page] lt by (simp add: unat_sub less_imp_le dvd_diff_nat)
  then have nn: "ROUNDUP ?n (page_size h) = ?n"
    using n page_size_le [OF page] by (intro ROUNDUP_multiple [OF page]) simp_all
  have m': "m' = (\<lambda>x. if in_region (host_alloc u) (unat (ROUNDUP ?n (page_size h))) x then None else m x)"
    using m by (auto simp: munmap_def split: if_splits)
  have "m' x = m x" if x: "in_region (host_alloc u') (unat (host_alloc u - host_alloc u')) x" for x
  proof -
    have hu: "host_alloc u = host_alloc u' + ?n" by (simp add: u')
    have "unat (x - host_alloc u') < unat ?n" using x by (simp add: in_region_def u')
    then have "\<not> in_region (host_alloc u' + ?n) (unat (ROUNDUP ?n (page_size h))) x"
      using n up by (intro below_region [where u = "x - host_alloc u'"]) simp_all
    then show ?thesis unfolding m' hu [symmetric] by simp
  qed
  moreover have "m' x = (if in_region (host_alloc u) (unat (host_alloc u - host_alloc u')) x then None else m x)" for x
    unfolding m' nn by (simp add: u')
  ultimately show ?thesis using ha by blast
qed

section \<open>Growing again\<close>

text \<open>
  The other promise of \<open>mmap\<close> without \<open>MAP_FIXED\<close>: the kernel never puts the mapping over another one.
\<close>

definition host_keeps :: "host_t \<Rightarrow> bool" where
  "host_keeps h \<longleftrightarrow> (\<forall>m a len a' x. mmap_place h m a len = Some a' \<longrightarrow>
     in_region a' (unat (ROUNDUP len (page_size h))) x \<longrightarrow> m x = None)"

lemma host_keepsD:
  "host_keeps h \<Longrightarrow> mmap_place h m a len = Some a' \<Longrightarrow>
     in_region a' (unat (ROUNDUP len (page_size h))) x \<Longrightarrow> m x = None"
  unfolding host_keeps_def by iprover

lemma mmap_hint_keeps:
  assumes "host_keeps h" "ROUNDUP len (page_size h) = len" "mmap_hint h m a len prot = (m', r)" "m x \<noteq> None"
  shows "m' x = m x"
proof (cases "mmap_place h m a len")
  case (Some r')
  have "\<not> in_region r' (unat (ROUNDUP len (page_size h))) x"
    using host_keepsD [OF assms(1) Some, of x] assms(4) by auto
  with Some assms(3) show ?thesis by (auto simp: mmap_hint_def map_pages_def split: if_splits)
qed (use assms(3) in \<open>auto simp: mmap_hint_def split: if_splits\<close>)

lemma mmu_alloc_grow_keeps:
  assumes "host_keeps h" "page_ok h" "0 < sint sz" "mmu_alloc h u m sz = Inr (a, u', m')" "m x \<noteq> None"
  shows "m' x = m x" "a = guest_alloc u" "guest_alloc u' = guest_alloc u + sz"
proof -
  note sz = unat_pos_size [OF assms(3)]
  have up: "unat sz + unat (page_size h) \<le> 2 ^ 64" using sz page_size_le [OF assms(2)] by simp
  note n = ROUNDUP_bounds [OF assms(2) up]
  have "ROUNDUP (ROUNDUP sz (page_size h)) (page_size h) = ROUNDUP sz (page_size h)"
    using n sz page_size_le [OF assms(2)] by (intro ROUNDUP_multiple [OF assms(2)]) simp_all
  from mmap_hint_keeps [where m = m and x = x, OF assms(1) this _ assms(5)] show "m' x = m x"
    using assms(3,4) by (auto simp: mmu_alloc_def Let_def split: if_splits prod.splits)
  show "a = guest_alloc u" "guest_alloc u' = guest_alloc u + sz"
    using assms(3,4) by (auto simp: mmu_alloc_def Let_def split: if_splits prod.splits)
qed

lemma mmu_alloc_shrink_keeps:
  assumes page: "page_ok h" and inv: "mmu_inv h u m" and neg: "sint sz < 0"
    and res: "mmu_alloc h u m sz = Inr (a, u', m')"
    and x: "in_region (TO_HOST (base u)) (unat (TO_GUEST (host_alloc u) - base u)) x"
  shows "m' x = m x" "m x \<noteq> None" "guest_alloc u' = guest_alloc u + sz"
proof -
  have "readable m x" using inv x by (simp add: mmu_inv_def mapped_rw_def)
  then show "m x \<noteq> None" by (cases "m x") (simp_all add: readable_def)
  show "guest_alloc u' = guest_alloc u + sz"
    using neg res by (auto simp: mmu_alloc_def Let_def split: if_splits option.splits)
  note D = mmu_invD [OF inv]
  let ?g = "ROUNDUP (guest_alloc u + sz) (page_size h)" and ?f = "TO_GUEST (host_alloc u) - base u"
  let ?n = "TO_GUEST (host_alloc u) - ?g"
  have "TO_HOST (base u) + ?f = host_alloc u" by (simp add: TO_HOST_def TO_GUEST_def)
  moreover have "unat ?f < 2 ^ 62" using D by (simp add: unat_sub word_le_nat_alt)
  ultimately have out: "\<not> in_region (host_alloc u) k x" if "k \<le> 2 ^ 63" for k
    using below_region [where u = "x - TO_HOST (base u)" and f = ?f and a = "TO_HOST (base u)" and x = x,
        OF _ _ that refl] x by (simp add: in_region_def)
  consider "m' = m" | "?g < TO_GUEST (host_alloc u)" "munmap h m (host_alloc u) ?n = Some m'"
    using neg res by (auto simp: mmu_alloc_def Let_def split: if_splits option.splits)
  then show "m' x = m x"
  proof cases
    case 2
    have n: "unat ?n < 2 ^ 48" using D(3,4) 2(1) by (simp add: unat_sub word_le_nat_alt word_less_nat_alt)
    then have "unat (ROUNDUP ?n (page_size h)) \<le> 2 ^ 63"
      using ROUNDUP_bounds(2) [OF page, of ?n] page_size_le [OF page] by simp
    from out [OF this] 2(2) show ?thesis by (auto simp: munmap_def split: if_splits)
  qed simp
qed

end
