(* ===== verification/Arena.thy ===== *)
theory Arena
  imports Mmu
begin

text \<open>
  An area of memory that is handed out from the bottom, as its clients see it: the operations
  and laws are the locale \<open>arena\<close>; the break allocator of \<open>mmu.c\<close> provides them.
\<close>

section \<open>Intervals of addresses\<close>

lemma in_region_nat:
  assumes "unat a + n \<le> 2 ^ 64"
  shows "in_region a n x \<longleftrightarrow> unat a \<le> unat x \<and> unat x < unat a + n"
proof (cases "a \<le> x")
  case True
  then show ?thesis by (auto simp: in_region_def unat_sub word_le_nat_alt)
next
  case False
  then have "unat x < unat a" by (simp add: word_le_nat_alt)
  then have "unat (x - a) = unat x + 2 ^ 64 - unat a" by (simp add: unat_sub_if')
  with assms \<open>unat x < unat a\<close> show ?thesis by (simp add: in_region_def)
qed

lemma unat_nat: "k < 2 ^ 64 \<Longrightarrow> unat (word_of_nat k :: u64) = k"
  by (simp only: unsigned_of_nat) (simp add: take_bit_nat_eq_self)

lemma unat_add_nat: "unat a + k < 2 ^ 64 \<Longrightarrow> unat (a + word_of_nat k :: u64) = unat a + k"
  using unat_add_lem [of a "word_of_nat k"] by (simp add: unat_nat)

lemma sint_size:
  assumes "0 < k" "k < 2 ^ 63"
  shows "0 < sint (word_of_nat k :: i64)"
proof -
  have "sint (word_of_nat k :: i64) = signed_take_bit 63 (int k)" by (simp add: signed_of_nat)
  also have "\<dots> = int k" using assms(2) by (intro signed_take_bit_int_eq_self) simp_all
  finally show ?thesis using assms(1) by simp
qed

definition zero_between :: "nat \<Rightarrow> nat \<Rightarrow> mem_t \<Rightarrow> bool" where
  "zero_between lo hi m \<longleftrightarrow> (\<forall>x. lo \<le> unat x \<and> unat x < hi \<longrightarrow> map_option fst (m x) = Some 0)"

definition rw_between :: "nat \<Rightarrow> nat \<Rightarrow> mem_t \<Rightarrow> bool" where
  "rw_between lo hi m \<longleftrightarrow> (\<forall>x. lo \<le> unat x \<and> unat x < hi \<longrightarrow> readable m x \<and> writable m x)"

lemma zero_between_join: "zero_between a b m \<Longrightarrow> zero_between b c m \<Longrightarrow> zero_between a c m"
  by (auto simp: zero_between_def) (meson not_less)

lemma between_sub:
  "zero_between a b m \<Longrightarrow> a \<le> a' \<Longrightarrow> b' \<le> b \<Longrightarrow> zero_between a' b' m"
  "rw_between a b m \<Longrightarrow> a \<le> a' \<Longrightarrow> b' \<le> b \<Longrightarrow> rw_between a' b' m"
  by (auto simp: zero_between_def rw_between_def)

definition keeps_rights :: "mem_t \<Rightarrow> mem_t \<Rightarrow> bool" where
  "keeps_rights m m' \<longleftrightarrow> (\<forall>x. m x \<noteq> None \<longrightarrow> map_option snd (m' x) = map_option snd (m x))"

lemma keeps_rights_trans: "keeps_rights m m' \<Longrightarrow> keeps_rights m' m'' \<Longrightarrow> keeps_rights m m''"
  unfolding keeps_rights_def by (metis map_option_is_None)

lemma same_prot_keeps: "same_prot m m' \<Longrightarrow> keeps_rights m m'"
  by (simp add: same_prot_def keeps_rights_def)

lemma rw_between_kept: "rw_between lo hi m \<Longrightarrow> keeps_rights m m' \<Longrightarrow> rw_between lo hi m'"
  by (fastforce simp: rw_between_def keeps_rights_def readable_def writable_def split: option.splits)

section \<open>The interface\<close>

text \<open>
  \<open>room k u m\<close>: the area described by \<open>u\<close> can grow by \<open>k\<close> bytes; \<open>used\<close> is the first address that is
  not handed out, \<open>limit\<close> the first that is not part of the area. A request may be refused.
\<close>

locale arena =
  fixes alloc :: "'u \<Rightarrow> mem_t \<Rightarrow> i64 \<Rightarrow> (u64 \<times> 'u \<times> mem_t) res"
    and room :: "nat \<Rightarrow> 'u \<Rightarrow> mem_t \<Rightarrow> bool"
    and cost :: "i64 \<Rightarrow> nat"
    and used limit :: "'u \<Rightarrow> nat"
    and refused :: "error \<Rightarrow> bool"
  assumes alloc_refused: "room (cost n + k) u m \<Longrightarrow> 0 < sint n \<Longrightarrow> alloc u m n = Inl e \<Longrightarrow> refused e"
    and alloc_area: "room (cost n + k) u m \<Longrightarrow> 0 < sint n \<Longrightarrow> alloc u m n = Inr (a, u', m') \<Longrightarrow>
      unat (TO_HOST a) = used u \<and> used u' = used u + unat n \<and> limit u \<le> limit u' \<and> room k u' m'"
    and alloc_kept: "room (cost n + k) u m \<Longrightarrow> 0 < sint n \<Longrightarrow> alloc u m n = Inr (a, u', m') \<Longrightarrow>
      m x \<noteq> None \<Longrightarrow> m' x = m x"
    and alloc_fresh: "room (cost n + k) u m \<Longrightarrow> 0 < sint n \<Longrightarrow> alloc u m n = Inr (a, u', m') \<Longrightarrow>
      zero_between (limit u) (limit u') m' \<and> rw_between (used u) (used u') m'"
    and room_bounds: "room k u m \<Longrightarrow> used u \<le> limit u \<and> limit u \<le> user_space"
    and room_writes: "room k u m \<Longrightarrow> same_prot m m' \<Longrightarrow> room k u m'"
begin

lemma alloc_zeros:
  assumes "room (cost n + k) u m" "0 < sint n" "alloc u m n = Inr (a, u', m')"
    and "zero_between (used u) (limit u) m"
  shows "zero_between (used u) (limit u') m'"
proof -
  have "zero_between (used u) (limit u) m'"
    using assms(4) alloc_kept [OF assms(1-3)] by (fastforce simp: zero_between_def)
  with alloc_fresh [OF assms(1-3)] show ?thesis using zero_between_join by blast
qed

text \<open>
  A string without its terminator is copied into one byte more: it is terminated, because the
  area is zero above what is handed out.
\<close>

lemma place_string:
  assumes "room (cost (word_of_nat (length bs + 1)) + k) u m" "length bs + 1 < 2 ^ 63"
    and "zero_between (used u) (limit u) m"
  shows "outcome refused (\<lambda>(a, u', m'). unat (TO_HOST a) = used u \<and> used u' = used u + length bs + 1 \<and>
      limit u \<le> limit u' \<and> room k u' m' \<and> zero_between (used u') (limit u') m' \<and>
      load_bytes (length bs + 1) m' (TO_HOST a) = Inr (bs @ [0]) \<and>
      keeps_rights m m' \<and>
      (\<forall>x. m x \<noteq> None \<longrightarrow> unat x < used u \<longrightarrow> m' x = m x))
    (bindE (alloc u m (word_of_nat (length bs + 1))) (\<lambda>(a, u', m1).
     bindE (mmu_write m1 a bs) (\<lambda>m'. Inr (a, u', m'))))"
proof (cases "alloc u m (word_of_nat (length bs + 1))")
  case (Inl e)
  let ?n = "word_of_nat (length bs + 1) :: i64"
  have "0 < sint ?n" using assms(2) by (intro sint_size) simp_all
  with alloc_refused [OF assms(1) _ Inl] Inl show ?thesis by simp
next
  case (Inr r)
  let ?n = "word_of_nat (length bs + 1) :: i64"
  have n: "0 < sint ?n" "unat ?n = length bs + 1"
    using assms(2) sint_size [of "length bs + 1"] unat_nat [of "length bs + 1"] by simp_all
  obtain a u' m1 where r: "r = (a, u', m1)" by (cases r)
  note al = Inr [unfolded r]
  note A = alloc_area [OF assms(1) n(1) al, unfolded n(2)] and K = alloc_kept [OF assms(1) n(1) al]
    and F = alloc_fresh [OF assms(1) n(1) al] and Z = alloc_zeros [OF assms(1) n(1) al assms(3)]
  have B: "used u' \<le> limit u'" "limit u' \<le> user_space" using A room_bounds by blast+
  let ?a = "TO_HOST a"
  have reg: "in_region ?a j x \<longleftrightarrow> used u \<le> unat x \<and> unat x < used u + j" if "j \<le> length bs + 1" for j x
    using that A B in_region_nat [of ?a j x] by (simp add: user_space_def)
  have rw: "readable m1 x \<and> writable m1 x" if "in_region ?a (length bs + 1) x" for x
    using that F A by (auto simp: reg rw_between_def)
  then obtain m' where m': "mmu_write m1 a bs = Inr m'"
    using store_bytes_ok_iff [of bs m1 ?a] A by (fastforce simp: mmu_write_def reg)
  then have st: "store_bytes bs m1 ?a = Inr m'" by (simp add: mmu_write_def)
  note prot = store_bytes_same_prot [OF st] and out = store_bytes_outside [OF st]
  have keep: "m' x = m1 x" if "unat x < used u \<or> used u + length bs \<le> unat x" for x
    using that out by (auto simp: reg)
  have "load_bytes (length bs) m' ?a = Inr bs"
    using load_after_store [OF st] rw A B assms(2) by (simp add: reg user_space_def)
  moreover have "load_bytes 1 m' (?a + word_of_nat (length bs)) = Inr [0]"
  proof -
    let ?x = "?a + word_of_nat (length bs)"
    have x: "unat ?x = used u + length bs"
      using A B assms(2) unat_add_nat [of ?a "length bs"] by (simp add: user_space_def)
    then have "readable m' ?x" using rw same_prot_rights(1) [OF prot] by (simp add: reg)
    moreover have "map_option fst (m' ?x) = Some 0"
      using Z x A B keep [of ?x] by (simp add: zero_between_def)
    ultimately show ?thesis by (auto simp: load_byte_cases)
  qed
  ultimately have "load_bytes (length bs + 1) m' ?a = Inr (bs @ [0])" by (simp only: load_bytes_append) simp
  moreover have "zero_between (used u') (limit u') m'"
    using Z A keep by (auto simp: zero_between_def)
  moreover have "keeps_rights m m'" using K prot by (auto simp: same_prot_def keeps_rights_def)
  ultimately show ?thesis using al m' A K keep room_writes [OF _ prot] by simp
qed

end

section \<open>The break allocator\<close>

definition mmu_room :: "host_t \<Rightarrow> nat \<Rightarrow> mmu_t \<Rightarrow> mem_t \<Rightarrow> bool" where
  "mmu_room h k u m \<longleftrightarrow> mmu_inv h u m \<and> unat (host_alloc u) + k \<le> user_space \<and>
     (\<forall>x. in_region (host_alloc u) k x \<longrightarrow> m x = None)"

definition page_cost :: "host_t \<Rightarrow> i64 \<Rightarrow> nat" where
  "page_cost h n = unat (ROUNDUP n (page_size h))"

definition heap_used :: "mmu_t \<Rightarrow> nat" where
  "heap_used u = unat (TO_HOST (guest_alloc u))"

definition heap_limit :: "mmu_t \<Rightarrow> nat" where
  "heap_limit u = unat (host_alloc u)"

definition mmap_failed :: "error \<Rightarrow> bool" where
  "mmap_failed e \<longleftrightarrow> e = Fatal ''mmap failed in mmu alloc''"

lemma mmu_room_region:
  "mmu_room h k u m \<Longrightarrow> j \<le> k \<Longrightarrow> in_region (host_alloc u) j x \<longleftrightarrow>
     heap_limit u \<le> unat x \<and> unat x < heap_limit u + j"
  by (subst in_region_nat) (simp_all add: mmu_room_def heap_limit_def user_space_def)

lemma mmu_room_free:
  "mmu_room h k u m \<Longrightarrow> heap_limit u \<le> unat x \<Longrightarrow> unat x < heap_limit u + k \<Longrightarrow> m x = None"
  using mmu_room_region [of h k u m k x] by (simp add: mmu_room_def)

lemma heap_used_eq:
  assumes "mmu_inv h u m"
  shows "heap_used u = unat (guest_alloc u) + unat GUEST_MEMORY_OFFSET" "heap_used u \<le> heap_limit u"
proof -
  note D = mmu_invD [OF assms]
  have o: "unat GUEST_MEMORY_OFFSET \<le> unat (host_alloc u)"
    using assms by (simp add: mmu_inv_def word_le_nat_alt)
  with D have le: "unat (guest_alloc u) + unat GUEST_MEMORY_OFFSET \<le> unat (host_alloc u)" by simp
  with D(4) have "unat (guest_alloc u + GUEST_MEMORY_OFFSET) = unat (guest_alloc u) + unat GUEST_MEMORY_OFFSET"
    by (intro unat_add_lem [THEN iffD1]) simp
  then show u: "heap_used u = unat (guest_alloc u) + unat GUEST_MEMORY_OFFSET"
    by (simp add: heap_used_def TO_HOST_def)
  show "heap_used u \<le> heap_limit u" by (simp only: u heap_limit_def le)
qed

lemma mmu_inv_same_prot:
  assumes "mmu_inv h u m" "same_prot m m'"
  shows "mmu_inv h u m'"
  using assms(1) by (simp add: mmu_inv_def mapped_rw_def same_prot_rights [OF assms(2)])

lemma mmu_room_alloc:
  assumes "host_ok h" "mmu_room h (page_cost h n + k) u m" "0 < sint n" "mmu_alloc h u m n = Inr (a, u', m')"
  shows "unat (TO_HOST a) = heap_used u \<and> heap_used u' = heap_used u + unat n \<and>
      heap_limit u \<le> heap_limit u' \<and> mmu_room h k u' m'"
    and "zero_between (heap_limit u) (heap_limit u') m' \<and> rw_between (heap_used u) (heap_used u') m'"
    and "m x \<noteq> None \<Longrightarrow> m' x = m x"
proof -
  have inv: "mmu_inv h u m" using assms(2) by (simp add: mmu_room_def)
  have "\<forall>x. in_region (host_alloc u) (unat (ROUNDUP n (page_size h))) x \<longrightarrow> m x = None"
    using mmu_room_region [OF assms(2), of "page_cost h n"] mmu_room_free [OF assms(2)] by (simp add: page_cost_def)
  then have free: "TO_GUEST (host_alloc u) < guest_alloc u + n \<longrightarrow>
      (\<forall>x. in_region (host_alloc u) (unat (ROUNDUP n (page_size h))) x \<longrightarrow> m x = None)" by blast
  note G = mmu_alloc_grow [OF assms(1) inv assms(3) free assms(4)] and c = mmu_alloc_cases [OF inv assms(3,4)]
  then have inv': "mmu_inv h u' m'" by blast
  have used: "unat (TO_HOST a) = heap_used u" "heap_used u' = heap_used u + unat n"
    using G c(2) heap_used_eq(1) [OF inv] heap_used_eq(1) [OF inv'] by (simp_all add: heap_used_def)
  have bound: "heap_used u' \<le> user_space"
    using heap_used_eq(2) [OF inv'] inv' by (simp add: heap_limit_def mmu_inv_def)
  from assms(1) inv assms(3) free assms(4) have
    "heap_limit u \<le> heap_limit u' \<and> mmu_room h k u' m' \<and> zero_between (heap_limit u) (heap_limit u') m'"
  proof (cases rule: mmu_alloc_extends)
    case fits
    with assms(2) inv' show ?thesis
      by (simp add: mmu_room_def heap_limit_def zero_between_def in_region_def)
  next
    case (extends j)
    have j: "unat j = page_cost h n" using extends(1) by (simp add: page_cost_def)
    have lim: "heap_limit u' = heap_limit u + unat j"
      using extends(5) unat_add_lem [of "host_alloc u" j] by (simp add: extends(6) heap_limit_def user_space_def)
    have reg: "in_region (host_alloc u) (unat j) x \<longleftrightarrow> heap_limit u \<le> unat x \<and> unat x < heap_limit u'" for x
      using mmu_room_region [OF assms(2), of "unat j"] j lim by simp
    have m': "m' x = (if heap_limit u \<le> unat x \<and> unat x < heap_limit u'
        then Some (0, PROT_READ OR PROT_WRITE) else m x)" for x
      by (simp add: extends(2,7) map_pages_def anon_content_def reg)
    have top: "unat (host_alloc u') + k \<le> user_space"
      using assms(2) lim j by (simp add: mmu_room_def heap_limit_def)
    then have "in_region (host_alloc u') k x \<longleftrightarrow> heap_limit u' \<le> unat x \<and> unat x < heap_limit u' + k" for x
      by (subst in_region_nat) (simp_all add: heap_limit_def user_space_def)
    moreover have "m' x = None" if "heap_limit u' \<le> unat x" "unat x < heap_limit u' + k" for x
      using that mmu_room_free [OF assms(2), of x] lim j by (simp add: m')
    ultimately show ?thesis using inv' lim top m' by (simp add: mmu_room_def zero_between_def)
  qed
  moreover have "rw_between (heap_used u) (heap_used u') m'"
    using G in_region_nat [of "TO_HOST a" "unat n"] used bound
    by (simp add: rw_between_def mapped_rw_def user_space_def)
  ultimately show "unat (TO_HOST a) = heap_used u \<and> heap_used u' = heap_used u + unat n \<and>
      heap_limit u \<le> heap_limit u' \<and> mmu_room h k u' m'"
    "zero_between (heap_limit u) (heap_limit u') m' \<and> rw_between (heap_used u) (heap_used u') m'"
    using used by simp_all
  show "m x \<noteq> None \<Longrightarrow> m' x = m x" using G by blast
qed

interpretation heap: arena "mmu_alloc h" "\<lambda>k u m. host_ok h \<and> mmu_room h k u m" "page_cost h"
  heap_used heap_limit mmap_failed for h
proof
  fix n k u m e
  assume "host_ok h \<and> mmu_room h (page_cost h n + k) u m" "0 < sint n" "mmu_alloc h u m n = Inl e"
  with mmu_alloc_refused [of h u m n e] show "mmap_failed e" by (simp add: mmap_failed_def mmu_room_def)
next
  fix n k u m a u' m'
  assume *: "host_ok h \<and> mmu_room h (page_cost h n + k) u m" "0 < sint n" "mmu_alloc h u m n = Inr (a, u', m')"
  note A = mmu_room_alloc [OF conjunct1 [OF *(1)] conjunct2 [OF *(1)] *(2,3)]
  show "unat (TO_HOST a) = heap_used u \<and> heap_used u' = heap_used u + unat n \<and>
      heap_limit u \<le> heap_limit u' \<and> host_ok h \<and> mmu_room h k u' m'"
    using A(1) *(1) by blast
  show "zero_between (heap_limit u) (heap_limit u') m' \<and> rw_between (heap_used u) (heap_used u') m'"
    by (rule A(2))
  show "m' x = m x" if "m x \<noteq> None" for x using that by (rule A(3))
next
  fix k u m
  assume "host_ok h \<and> mmu_room h k u m"
  then show "heap_used u \<le> heap_limit u \<and> heap_limit u \<le> user_space"
    using heap_used_eq(2) [of h u m] by (simp add: mmu_room_def heap_limit_def)
next
  fix k u m m'
  assume *: "host_ok h \<and> mmu_room h k u m" "same_prot m m'"
  then have "m x = None \<Longrightarrow> m' x = None" for x
    by (metis same_prot_def map_option_is_None)
  with * mmu_inv_same_prot [of h u m m'] show "host_ok h \<and> mmu_room h k u m'" by (simp add: mmu_room_def)
qed

end
