(* ===== verification/Interp_Util.thy ===== *)
theory Interp_Util
  imports Rvemu
begin

text \<open>
  The helpers of \<open>interp_util.h\<close>: the high halves of 64 by 64 bit products computed from
  32-bit limbs, sign injection, and the classification of floating-point numbers; with their
  specifications over the integers and over the fields of the IEEE formats.
\<close>

section \<open>High halves of products\<close>

definition mulhu :: "u64 \<Rightarrow> u64 \<Rightarrow> u64" where
  "mulhu a b =
    (let a0 = (ucast (ucast a :: u32) :: u64); a1 = drop_bit 32 a;
         b0 = (ucast (ucast b :: u32) :: u64); b1 = drop_bit 32 b;
         t = a1 * b0 + drop_bit 32 (a0 * b0);
         y1 = (ucast t :: u32);
         y2 = (ucast (drop_bit 32 t) :: u32);
         t = a0 * b1 + ucast y1;
         y1 = (ucast t :: u32);
         t = a1 * b1 + ucast y2 + drop_bit 32 t;
         y2 = (ucast t :: u32);
         y3 = (ucast (drop_bit 32 t) :: u32)
     in push_bit 32 (ucast y3) OR ucast y2)"

text \<open>
  The signed variants negate and multiply \<open>int64_t\<close> values; the words wrap around where
  the C expressions overflow.
\<close>

definition mulh :: "i64 \<Rightarrow> i64 \<Rightarrow> i64" where
  "mulh a b =
    (let negate = (sint a < 0) \<noteq> (sint b < 0);
         res = mulhu (if sint a < 0 then - a else a) (if sint b < 0 then - b else b)
     in if negate then NOT res + (if a * b = 0 then 1 else 0) else res)"

definition mulhsu :: "i64 \<Rightarrow> u64 \<Rightarrow> i64" where
  "mulhsu a b =
    (let negate = sint a < 0;
         res = mulhu (if sint a < 0 then - a else a) b
     in if negate then NOT res + (if a * b = 0 then 1 else 0) else res)"

section \<open>Sign injection\<close>

definition F32_SIGN :: u32 where
  "F32_SIGN = push_bit 31 1"

definition F64_SIGN :: u64 where
  "F64_SIGN = push_bit 63 1"

definition fsgnj32 :: "u32 \<Rightarrow> u32 \<Rightarrow> bool \<Rightarrow> bool \<Rightarrow> u32" where
  "fsgnj32 a b n x =
    (let v = if x then a else if n then F32_SIGN else 0
     in (a AND NOT F32_SIGN) OR ((v XOR b) AND F32_SIGN))"

definition fsgnj64 :: "u64 \<Rightarrow> u64 \<Rightarrow> bool \<Rightarrow> bool \<Rightarrow> u64" where
  "fsgnj64 a b n x =
    (let v = if x then a else if n then F64_SIGN else 0
     in (a AND NOT F64_SIGN) OR ((v XOR b) AND F64_SIGN))"

section \<open>Classification\<close>

definition expF32UI :: "u32 \<Rightarrow> u32" where "expF32UI a = drop_bit 23 a AND 0xFF"

definition signF32UI :: "u32 \<Rightarrow> bool" where "signF32UI a = (drop_bit 31 a \<noteq> 0)"

definition fracF32UI :: "u32 \<Rightarrow> u32" where "fracF32UI a = a AND 0x007FFFFF"

definition isNaNF32UI :: "u32 \<Rightarrow> bool" where
  "isNaNF32UI a = (NOT a AND 0x7F800000 = 0 \<and> a AND 0x007FFFFF \<noteq> 0)"

definition isSigNaNF32UI :: "u32 \<Rightarrow> bool" where
  "isSigNaNF32UI a = (a AND 0x7FC00000 = 0x7F800000 \<and> a AND 0x003FFFFF \<noteq> 0)"

text \<open>\<open>cond << k\<close> for a C boolean \<open>cond\<close>.\<close>

definition bool_shl :: "bool \<Rightarrow> nat \<Rightarrow> u16" where
  "bool_shl c k = (if c then push_bit k 1 else 0)"

definition f32_classify :: "u32 \<Rightarrow> u16" where
  "f32_classify uiA =
    (let infOrNaN = expF32UI uiA = 0xFF;
         subnormalOrZero = expF32UI uiA = 0;
         sign = signF32UI uiA;
         fracZero = fracF32UI uiA = 0;
         isNaN = isNaNF32UI uiA;
         isSNaN = isSigNaNF32UI uiA
     in bool_shl (sign \<and> infOrNaN \<and> fracZero) 0 OR
        bool_shl (sign \<and> \<not> infOrNaN \<and> \<not> subnormalOrZero) 1 OR
        bool_shl (sign \<and> subnormalOrZero \<and> \<not> fracZero) 2 OR
        bool_shl (sign \<and> subnormalOrZero \<and> fracZero) 3 OR
        bool_shl (\<not> sign \<and> infOrNaN \<and> fracZero) 7 OR
        bool_shl (\<not> sign \<and> \<not> infOrNaN \<and> \<not> subnormalOrZero) 6 OR
        bool_shl (\<not> sign \<and> subnormalOrZero \<and> \<not> fracZero) 5 OR
        bool_shl (\<not> sign \<and> subnormalOrZero \<and> fracZero) 4 OR
        bool_shl (isNaN \<and> isSNaN) 8 OR bool_shl (isNaN \<and> \<not> isSNaN) 9)"

definition signF64UI :: "u64 \<Rightarrow> bool" where "signF64UI a = (drop_bit 63 a \<noteq> 0)"

definition expF64UI :: "u64 \<Rightarrow> u64" where "expF64UI a = drop_bit 52 a AND 0x7FF"

definition fracF64UI :: "u64 \<Rightarrow> u64" where "fracF64UI a = a AND 0x000FFFFFFFFFFFFF"

definition isNaNF64UI :: "u64 \<Rightarrow> bool" where
  "isNaNF64UI a = (NOT a AND 0x7FF0000000000000 = 0 \<and> a AND 0x000FFFFFFFFFFFFF \<noteq> 0)"

definition isSigNaNF64UI :: "u64 \<Rightarrow> bool" where
  "isSigNaNF64UI a = (a AND 0x7FF8000000000000 = 0x7FF0000000000000 \<and>
     a AND 0x0007FFFFFFFFFFFF \<noteq> 0)"

definition f64_classify :: "u64 \<Rightarrow> u16" where
  "f64_classify uiA =
    (let infOrNaN = expF64UI uiA = 0x7FF;
         subnormalOrZero = expF64UI uiA = 0;
         sign = signF64UI uiA;
         fracZero = fracF64UI uiA = 0;
         isNaN = isNaNF64UI uiA;
         isSNaN = isSigNaNF64UI uiA
     in bool_shl (sign \<and> infOrNaN \<and> fracZero) 0 OR
        bool_shl (sign \<and> \<not> infOrNaN \<and> \<not> subnormalOrZero) 1 OR
        bool_shl (sign \<and> subnormalOrZero \<and> \<not> fracZero) 2 OR
        bool_shl (sign \<and> subnormalOrZero \<and> fracZero) 3 OR
        bool_shl (\<not> sign \<and> infOrNaN \<and> fracZero) 7 OR
        bool_shl (\<not> sign \<and> \<not> infOrNaN \<and> \<not> subnormalOrZero) 6 OR
        bool_shl (\<not> sign \<and> subnormalOrZero \<and> \<not> fracZero) 5 OR
        bool_shl (\<not> sign \<and> subnormalOrZero \<and> fracZero) 4 OR
        bool_shl (isNaN \<and> isSNaN) 8 OR bool_shl (isNaN \<and> \<not> isSNaN) 9)"

section \<open>Products over the integers\<close>

lemma limbs_product:
  fixes a0 a1 b0 b1 M :: nat
  assumes "0 < M"
  defines "t1 \<equiv> a1 * b0 + a0 * b0 div M"
  defines "t2 \<equiv> a0 * b1 + t1 mod M"
  shows "a1 * b1 + t1 div M + t2 div M = ((a1 * M + a0) * (b1 * M + b0)) div (M * M)"
proof -
  have "(a1 * M + a0) * (b1 * M + b0) = a0 * b0 + M * (a1 * b1 * M + a0 * b1 + a1 * b0)"
    by (simp add: algebra_simps)
  then have "((a1 * M + a0) * (b1 * M + b0)) div M = a1 * b1 * M + a0 * b1 + t1"
    using assms(1) by (simp add: t1_def div_mult_self2 add.commute)
  also have "\<dots> = M * (a1 * b1 + t1 div M) + t2"
    by (simp add: t2_def algebra_simps)
  finally have "((a1 * M + a0) * (b1 * M + b0)) div M div M = a1 * b1 + t1 div M + t2 div M"
    using assms(1) by simp
  then show ?thesis by (simp add: div_mult2_eq)
qed

lemma unat_low_half: "unat (ucast (ucast (x :: u64) :: u32) :: u64) = unat x mod 2 ^ 32"
  by (simp add: unsigned_ucast_eq take_bit_eq_mod unat_mod_distrib)

lemma unat_high_half: "unat (drop_bit 32 (x :: u64)) = unat x div 2 ^ 32"
  by (simp add: drop_bit_eq_div unat_div_distrib)

lemma unat_halves_less:
  "unat (drop_bit 32 (x :: u64)) < 2 ^ 32" "unat (ucast (ucast x :: u32) :: u64) < 2 ^ 32"
proof -
  have "unat x < 2 ^ 64" using unsigned_less [of x, where 'a = nat] by simp
  then show "unat (drop_bit 32 x) < 2 ^ 32" "unat (ucast (ucast x :: u32) :: u64) < 2 ^ 32"
    by (simp_all only: unat_low_half unat_high_half) (simp_all add: less_mult_imp_div_less)
qed

lemma limb_mac:
  assumes "x \<le> M - 1" "y \<le> M - 1" "z \<le> M - 1" "w \<le> M - 1" "0 < (M::nat)"
  shows "x * y + z + w < M * M"
proof -
  have "x * y \<le> (M - 1) * (M - 1)" by (rule mult_mono) (use assms in auto)
  moreover have "(M - 1) * (M - 1) + (M - 1) + (M - 1) + 1 = M * M"
    using assms(5) by (cases M) auto
  ultimately show ?thesis using assms by linarith
qed

lemma glue_halves: "push_bit 32 (ucast (ucast (drop_bit 32 t) :: u32)) OR ucast (ucast t :: u32) = (t :: u64)"
  by (rule bit_word_eqI) (auto simp: bit_simps)

lemma unat_mac:
  assumes "unat x < 2 ^ 32" "unat y < 2 ^ 32" "unat z < 2 ^ 32" "unat w < 2 ^ 32"
  shows "unat (x * y + z + w :: u64) = unat x * unat y + unat z + unat w"
proof -
  have "unat x * unat y + unat z + unat w < 2 ^ 32 * 2 ^ 32"
    by (rule limb_mac) (use assms in auto)
  then show ?thesis by (simp add: unat_word_ariths)
qed

lemma unat_mulhu: "unat (mulhu a b) = (unat a * unat b) div 2 ^ 64"
proof -
  let ?M = "2 ^ 32 :: nat"
  define a0 b0 a1 b1 where w: "a0 = (ucast (ucast a :: u32) :: u64)" "b0 = (ucast (ucast b :: u32) :: u64)"
    "a1 = drop_bit 32 a" "b1 = drop_bit 32 b"
  define t1 where "t1 = a1 * b0 + drop_bit 32 (a0 * b0)"
  define t2 where "t2 = a0 * b1 + ucast (ucast t1 :: u32)"
  define t3 where "t3 = a1 * b1 + ucast (ucast (drop_bit 32 t1) :: u32) + drop_bit 32 t2"
  have lim: "unat a0 < ?M" "unat b0 < ?M" "unat a1 < ?M" "unat b1 < ?M"
    unfolding w by (rule unat_halves_less)+
  have res: "mulhu a b = t3"
    unfolding mulhu_def Let_def t3_def t2_def t1_def w by (rule glue_halves)
  have hh: "ucast (ucast (drop_bit 32 x) :: u32) = drop_bit 32 (x :: u64)" for x
    by (rule bit_word_eqI) (auto simp: bit_simps dest: bit_imp_le_length)
  have "unat (a0 * b0) = unat a0 * unat b0" using unat_mac [of a0 b0 0 0] lim by simp
  then have t1: "unat t1 = unat a1 * unat b0 + unat a0 * unat b0 div ?M"
    using unat_mac [of a1 b0 "drop_bit 32 (a0 * b0)" 0] lim unat_halves_less
    using unat_halves_less(1) [of "a0 * b0"] by (simp add: t1_def unat_high_half)
  have t2: "unat t2 = unat a0 * unat b1 + unat t1 mod ?M"
    using unat_mac [of a0 b1 "ucast (ucast t1 :: u32)" 0] lim unat_halves_less
    by (simp add: t2_def unat_low_half)
  have "unat t3 = unat a1 * unat b1 + unat t1 div ?M + unat t2 div ?M"
    using unat_mac [of a1 b1 "drop_bit 32 t1" "drop_bit 32 t2"] lim unat_halves_less
    by (simp add: t3_def hh unat_high_half)
  also have "\<dots> = ((unat a1 * ?M + unat a0) * (unat b1 * ?M + unat b0)) div (?M * ?M)"
    unfolding t1 t2 by (rule limbs_product) simp
  also have "\<dots> = (unat a * unat b) div (?M * ?M)"
    by (simp only: w unat_low_half unat_high_half div_mult_mod_eq)
  finally show ?thesis using res by simp
qed

text \<open>The signed products are the floor of the exact product over \<open>2^64\<close>.\<close>

lemma abs_word: "uint (if sint a < 0 then - a else a) = \<bar>sint (a :: i64)\<bar>"
proof -
  have bounds: "- (2 ^ 63) \<le> sint a" "sint a < 2 ^ 63"
    using sint_ge [of a] sint_lt [of a] by simp_all
  have "uint (word_of_int z :: i64) = z" if "0 \<le> z" "z < 2 ^ 64" for z
    using that by (simp add: uint_word_of_int)
  from this [of "- sint a"] this [of "sint a"] bounds show ?thesis by auto
qed

lemma mulhu_int: "mulhu a b = word_of_int ((uint a * uint b) div 2 ^ 64)"
proof -
  have "int (unat (mulhu a b)) = (int (unat a) * int (unat b)) div 2 ^ 64"
    by (simp only: unat_mulhu zdiv_int of_nat_mult) simp
  then have "uint (mulhu a b) = (uint a * uint b) div 2 ^ 64" by simp
  then show ?thesis by (metis word_of_int_uint)
qed

lemma negated_high_half:
  fixes P :: int
  shows "NOT (word_of_int (P div 2 ^ 64)) + (if word_of_int P = (0 :: u64) then 1 else 0)
    = (word_of_int ((- P) div 2 ^ 64) :: u64)"
proof -
  have "word_of_int P = (0 :: u64) \<longleftrightarrow> P mod 2 ^ 64 = 0"
    by (simp add: word_of_int_eq_0_iff dvd_eq_mod_eq_0)
  then show ?thesis
    by (simp add: zdiv_zminus1_eq_if not_eq_complement)
qed

lemma mulh_int: "mulh a b = word_of_int ((sint a * sint b) div 2 ^ 64)"
proof -
  let ?P = "\<bar>sint a\<bar> * \<bar>sint b\<bar>"
  have res: "mulhu (if sint a < 0 then - a else a) (if sint b < 0 then - b else b)
      = word_of_int (?P div 2 ^ 64)"
    by (simp only: mulhu_int abs_word)
  have ab: "a * b = word_of_int (sint a * sint b)" by simp
  show ?thesis
  proof (cases "(sint a < 0) = (sint b < 0)")
    case True
    then have "sint a * sint b = ?P" by (auto simp: abs_if)
    with True res show ?thesis by (simp add: mulh_def Let_def)
  next
    case False
    then have P: "sint a * sint b = - ?P" by (auto simp: abs_if)
    have "a * b = 0 \<longleftrightarrow> word_of_int ?P = (0 :: u64)"
      unfolding ab P by (simp only: word_of_int_eq_0_iff dvd_minus_iff)
    then show ?thesis
      unfolding mulh_def Let_def res P by (simp only: False if_True negated_high_half not_False_eq_True)
  qed
qed

lemma mulhsu_int: "mulhsu a b = word_of_int ((sint a * uint b) div 2 ^ 64)"
proof -
  let ?P = "\<bar>sint a\<bar> * uint b"
  have res: "mulhu (if sint a < 0 then - a else a) b = word_of_int (?P div 2 ^ 64)"
    by (simp only: mulhu_int abs_word)
  have ab: "a * b = word_of_int (sint a * uint b)" by simp
  show ?thesis
  proof (cases "sint a < 0")
    case True
    then have P: "sint a * uint b = - ?P" by simp
    have "a * b = 0 \<longleftrightarrow> word_of_int ?P = (0 :: u64)"
      unfolding ab P by (simp only: word_of_int_eq_0_iff dvd_minus_iff)
    then show ?thesis
      unfolding mulhsu_def Let_def res P by (simp only: True if_True negated_high_half)
  next
    case False
    then show ?thesis using res by (simp add: mulhsu_def Let_def)
  qed
qed

section \<open>Sign injection, bit by bit\<close>

lemma bit_SIGN: "bit F32_SIGN k \<longleftrightarrow> k = 31" "bit F64_SIGN k \<longleftrightarrow> k = 63"
  unfolding F32_SIGN_def F64_SIGN_def by (auto simp only: bit_push_bit_iff bit_1_iff possible_bit_word) auto

lemma bit_fsgnj32:
  "k < 32 \<Longrightarrow> bit (fsgnj32 a b n x) k =
     (if k = 31 then (if x then bit a 31 \<noteq> bit b 31 else if n then \<not> bit b 31 else bit b 31)
      else bit a k)"
  by (auto simp: fsgnj32_def Let_def bit_simps bit_SIGN)

lemma bit_fsgnj64:
  "k < 64 \<Longrightarrow> bit (fsgnj64 a b n x) k =
     (if k = 63 then (if x then bit a 63 \<noteq> bit b 63 else if n then \<not> bit b 63 else bit b 63)
      else bit a k)"
  by (auto simp: fsgnj64_def Let_def bit_simps bit_SIGN)

section \<open>Classes of numbers\<close>

text \<open>
  The ten classes of the ISA manual, by the fields of the format: the bit of the class a
  number belongs to.
\<close>

definition f32_class_bit :: "u32 \<Rightarrow> nat" where
  "f32_class_bit a =
    (let s = bit a 31; e = drop_bit 23 a AND mask 8; f = a AND mask 23
     in if e = mask 8 then (if f = 0 then (if s then 0 else 7) else if bit a 22 then 9 else 8)
        else if e = 0 then (if f = 0 then (if s then 3 else 4) else (if s then 2 else 5))
        else (if s then 1 else 6))"

definition f64_class_bit :: "u64 \<Rightarrow> nat" where
  "f64_class_bit a =
    (let s = bit a 63; e = drop_bit 52 a AND mask 11; f = a AND mask 52
     in if e = mask 11 then (if f = 0 then (if s then 0 else 7) else if bit a 51 then 9 else 8)
        else if e = 0 then (if f = 0 then (if s then 3 else 4) else (if s then 2 else 5))
        else (if s then 1 else 6))"

text \<open>A field of ones, the test for it with the complement, and the test for a signalling NaN.\<close>

lemma field_ones:
  fixes a :: "'a::len word"
  assumes "fb + eb \<le> LENGTH('a)"
  shows "drop_bit fb a AND mask eb = mask eb \<longleftrightarrow> (\<forall>n<eb. bit a (fb + n))"
proof
  assume *: "drop_bit fb a AND mask eb = mask eb"
  show "\<forall>n<eb. bit a (fb + n)"
  proof (intro allI impI)
    fix n assume n: "n < eb"
    have "bit (drop_bit fb a AND mask eb) n = bit (mask eb :: 'a word) n" using * by simp
    with n assms show "bit a (fb + n)" by (simp add: bit_simps)
  qed
qed (auto intro!: bit_word_eqI simp: bit_simps)

lemma field_ones_not:
  fixes a :: "'a::len word"
  assumes "fb + eb \<le> LENGTH('a)"
  shows "NOT a AND push_bit fb (mask eb) = 0 \<longleftrightarrow> (\<forall>n<eb. bit a (fb + n))"
proof
  assume *: "NOT a AND push_bit fb (mask eb) = 0"
  show "\<forall>n<eb. bit a (fb + n)"
  proof (intro allI impI)
    fix n assume n: "n < eb"
    have "\<not> bit (NOT a AND push_bit fb (mask eb)) (fb + n)" using * by simp
    with n assms show "bit a (fb + n)" by (simp add: bit_simps)
  qed
next
  assume *: "\<forall>n<eb. bit a (fb + n)"
  have "bit a k" if "fb \<le> k" "k - fb < eb" for k
    using * [rule_format, of "k - fb"] that by simp
  then show "NOT a AND push_bit fb (mask eb) = 0"
    by (intro bit_word_eqI) (auto simp: bit_simps)
qed

lemma field_snan:
  fixes a :: "'a::len word"
  assumes "Suc fb + eb \<le> LENGTH('a)"
  shows "a AND push_bit fb (mask (Suc eb)) = push_bit (Suc fb) (mask eb) \<longleftrightarrow>
    \<not> bit a fb \<and> (\<forall>n<eb. bit a (Suc fb + n))"
proof
  assume *: "a AND push_bit fb (mask (Suc eb)) = push_bit (Suc fb) (mask eb)"
  have b: "bit (a AND push_bit fb (mask (Suc eb))) k = bit (push_bit (Suc fb) (mask eb) :: 'a word) k" for k
    by (simp only: *)
  have "\<not> bit a fb" using b [of fb] assms
    by (simp only: bit_and_iff bit_push_bit_iff possible_bit_word bit_mask_iff) simp
  moreover have "bit a (Suc fb + n)" if "n < eb" for n
    using b [of "Suc fb + n"] that assms
    by (simp only: bit_and_iff bit_push_bit_iff possible_bit_word bit_mask_iff) simp
  ultimately show "\<not> bit a fb \<and> (\<forall>n<eb. bit a (Suc fb + n))" by blast
next
  assume *: "\<not> bit a fb \<and> (\<forall>n<eb. bit a (Suc fb + n))"
  have "bit a k \<longleftrightarrow> Suc fb \<le> k" if "fb \<le> k" "k - fb < Suc eb" for k
  proof (cases "k = fb")
    case False
    with * [THEN conjunct2, rule_format, of "k - Suc fb"] that show ?thesis by simp
  qed (use * in simp)
  then have "(bit a k \<and> fb \<le> k \<and> k - fb < Suc eb) \<longleftrightarrow> (Suc fb \<le> k \<and> k - Suc fb < eb)" for k
    by (cases "fb \<le> k") (auto simp: less_diff_conv2)
  then show "a AND push_bit fb (mask (Suc eb)) = push_bit (Suc fb) (mask eb)"
    by (intro bit_word_eqI)
      (simp only: bit_and_iff bit_push_bit_iff possible_bit_word bit_mask_iff, auto)
qed

lemma frac_low: "\<not> bit a k \<Longrightarrow> (a :: 'a::len word) AND mask (Suc k) = a AND mask k"
  by (intro bit_word_eqI) (auto simp: bit_simps less_Suc_eq)

lemma drop_to_top_bit:
  fixes a :: "'a::len word"
  assumes "Suc k = LENGTH('a)"
  shows "drop_bit k a \<noteq> 0 \<longleftrightarrow> bit a k"
proof -
  have "bit (drop_bit k a) n \<longleftrightarrow> n = 0 \<and> bit a k" for n
    using assms bit_imp_le_length [of a "k + n"] by (cases n) (auto simp: bit_simps)
  then have "drop_bit k a = of_bool (bit a k)" by (intro bit_word_eqI) (auto simp: bit_simps)
  then show ?thesis by simp
qed

lemma sign_bit: "signF32UI a = bit a 31" "signF64UI b = bit b 63"
  using drop_to_top_bit [of 31 a] drop_to_top_bit [of 63 b]
  by (simp_all add: signF32UI_def signF64UI_def)

lemma f32_fields:
  "expF32UI a = 0xFF \<longleftrightarrow> drop_bit 23 a AND mask 8 = mask 8"
  "expF32UI a = 0 \<longleftrightarrow> drop_bit 23 a AND mask 8 = 0"
  "fracF32UI a = a AND mask 23"
  "isNaNF32UI a \<longleftrightarrow> drop_bit 23 a AND mask 8 = mask 8 \<and> a AND mask 23 \<noteq> 0"
  "isSigNaNF32UI a \<longleftrightarrow> drop_bit 23 a AND mask 8 = mask 8 \<and> \<not> bit a 22 \<and> a AND mask 23 \<noteq> 0"
  using field_ones [of 23 8 a] field_ones_not [of 23 8 a] field_snan [of 22 8 a] frac_low [of a 22]
  by (auto simp: expF32UI_def fracF32UI_def isNaNF32UI_def isSigNaNF32UI_def mask_eq_exp_minus_1)

lemma f64_fields:
  "expF64UI a = 0x7FF \<longleftrightarrow> drop_bit 52 a AND mask 11 = mask 11"
  "expF64UI a = 0 \<longleftrightarrow> drop_bit 52 a AND mask 11 = 0"
  "fracF64UI a = a AND mask 52"
  "isNaNF64UI a \<longleftrightarrow> drop_bit 52 a AND mask 11 = mask 11 \<and> a AND mask 52 \<noteq> 0"
  "isSigNaNF64UI a \<longleftrightarrow> drop_bit 52 a AND mask 11 = mask 11 \<and> \<not> bit a 51 \<and> a AND mask 52 \<noteq> 0"
  using field_ones [of 52 11 a] field_ones_not [of 52 11 a] field_snan [of 51 11 a] frac_low [of a 51]
  by (auto simp: expF64UI_def fracF64UI_def isNaNF64UI_def isSigNaNF64UI_def mask_eq_exp_minus_1)

lemma f32_classify_bit: "f32_classify a = push_bit (f32_class_bit a) 1"
  unfolding f32_classify_def f32_class_bit_def Let_def f32_fields sign_bit bool_shl_def
  by (cases "drop_bit 23 a AND mask 8 = mask 8"; cases "drop_bit 23 a AND mask 8 = 0") auto

lemma f64_classify_bit: "f64_classify a = push_bit (f64_class_bit a) 1"
  unfolding f64_classify_def f64_class_bit_def Let_def f64_fields sign_bit bool_shl_def
  by (cases "drop_bit 52 a AND mask 11 = mask 11"; cases "drop_bit 52 a AND mask 11 = 0") auto

end
