(* ===== verification/Host_Float.thy ===== *)
theory Host_Float
  imports Interp_Util
begin

text \<open>
  C's \<open>float\<close> and \<open>double\<close> arithmetic as the interpreter uses it, on bit patterns: the
  IEEE binary formats with rounding to nearest, ties to even (the rounding mode of a process
  that never changes it), on the x86-64 host the sources name. Both formats are instances of
  one description by the number \<open>eb\<close> of exponent bits and \<open>fb\<close> of fraction bits.

  A finite number is an integer multiple of the smallest subnormal: \<open>f_units\<close> is that
  integer. In this unit addition is exact integer addition, and products, quotients, roots and
  converted integers are fractions of integers, which \<open>f_round\<close> rounds once.
\<close>

section \<open>Formats\<close>

definition f_sign :: "nat \<Rightarrow> nat \<Rightarrow> nat \<Rightarrow> bool" where
  "f_sign eb fb x = odd (x div 2 ^ (eb + fb))"

definition f_mag :: "nat \<Rightarrow> nat \<Rightarrow> nat \<Rightarrow> nat" where
  "f_mag eb fb x = x mod 2 ^ (eb + fb)"

definition f_exp :: "nat \<Rightarrow> nat \<Rightarrow> nat \<Rightarrow> nat" where
  "f_exp eb fb x = f_mag eb fb x div 2 ^ fb"

definition f_frac :: "nat \<Rightarrow> nat \<Rightarrow> nat" where
  "f_frac fb x = x mod 2 ^ fb"

definition f_inf :: "nat \<Rightarrow> nat \<Rightarrow> nat" where
  "f_inf eb fb = (2 ^ eb - 1) * 2 ^ fb"

definition f_is_nan :: "nat \<Rightarrow> nat \<Rightarrow> nat \<Rightarrow> bool" where
  "f_is_nan eb fb x \<longleftrightarrow> f_inf eb fb < f_mag eb fb x"

definition f_is_inf :: "nat \<Rightarrow> nat \<Rightarrow> nat \<Rightarrow> bool" where
  "f_is_inf eb fb x \<longleftrightarrow> f_mag eb fb x = f_inf eb fb"

definition f_signed :: "nat \<Rightarrow> nat \<Rightarrow> bool \<Rightarrow> nat \<Rightarrow> nat" where
  "f_signed eb fb s m = (if s then 2 ^ (eb + fb) + m else m)"

text \<open>
  The NaN an invalid operation gives on x86 (quiet, sign set), and the quiet version of a NaN
  operand: an operation with a NaN operand returns its first NaN operand made quiet.
\<close>

definition f_default_nan :: "nat \<Rightarrow> nat \<Rightarrow> nat" where
  "f_default_nan eb fb = f_signed eb fb True (f_inf eb fb + 2 ^ (fb - 1))"

definition f_quiet :: "nat \<Rightarrow> nat \<Rightarrow> nat" where
  "f_quiet fb x = (if odd (x div 2 ^ (fb - 1)) then x else x + 2 ^ (fb - 1))"

text \<open>Multiples of the smallest subnormal; \<open>f_one\<close> is the number of them in 1.0.\<close>

definition f_units :: "nat \<Rightarrow> nat \<Rightarrow> nat \<Rightarrow> nat" where
  "f_units eb fb x =
     (if f_exp eb fb x = 0 then f_frac fb x
      else (2 ^ fb + f_frac fb x) * 2 ^ (f_exp eb fb x - 1))"

definition f_one :: "nat \<Rightarrow> nat \<Rightarrow> nat" where
  "f_one eb fb = 2 ^ (2 ^ (eb - 1) - 2 + fb)"

definition f_int :: "nat \<Rightarrow> nat \<Rightarrow> nat \<Rightarrow> int" where
  "f_int eb fb x = (if f_sign eb fb x then - int (f_units eb fb x) else int (f_units eb fb x))"

section \<open>Rounding\<close>

fun floor_log2 :: "nat \<Rightarrow> nat" where
  "floor_log2 n = (if n < 2 then 0 else Suc (floor_log2 (n div 2)))"

fun floor_sqrt :: "nat \<Rightarrow> nat" where
  "floor_sqrt n = (if n = 0 then 0 else
     (let r = 2 * floor_sqrt (n div 4) in if (r + 1) * (r + 1) \<le> n then r + 1 else r))"

declare floor_log2.simps [simp del] floor_sqrt.simps [simp del]

text \<open>\<open>num / den\<close> to the nearest integer, ties to even.\<close>

definition round_div :: "nat \<Rightarrow> nat \<Rightarrow> nat" where
  "round_div num den =
     (let t = num div den; r = num mod den
      in if den < 2 * r \<or> (2 * r = den \<and> odd t) then t + 1 else t)"

text \<open>
  The magnitude bits of \<open>num / den\<close> units rounded to the format: with \<open>k\<close> the number of
  low-order units below the last significand bit, the exponent and significand are the two
  digits of \<open>k * 2 ^ fb + t\<close>, which also carries a significand that rounds up to the next
  power of two into the exponent.
\<close>

definition f_round :: "nat \<Rightarrow> nat \<Rightarrow> nat \<Rightarrow> nat \<Rightarrow> nat" where
  "f_round eb fb num den =
     (let q = num div den;
          k = floor_log2 q - fb;
          m = k * 2 ^ fb + round_div num (den * 2 ^ k)
      in min m (f_inf eb fb))"

definition f_of_int :: "nat \<Rightarrow> nat \<Rightarrow> int \<Rightarrow> nat" where
  "f_of_int eb fb z = f_signed eb fb (z < 0) (f_round eb fb (nat \<bar>z\<bar>) 1)"

section \<open>Arithmetic\<close>

text \<open>
  The rule for NaN operands, shared by the binary operations; \<open>r\<close> is the result when there
  is none.
\<close>

definition f_nan2 :: "nat \<Rightarrow> nat \<Rightarrow> nat \<Rightarrow> nat \<Rightarrow> nat \<Rightarrow> nat" where
  "f_nan2 eb fb a b r =
     (if f_is_nan eb fb a then f_quiet fb a
      else if f_is_nan eb fb b then f_quiet fb b else r)"

definition f_neg :: "nat \<Rightarrow> nat \<Rightarrow> nat \<Rightarrow> nat" where
  "f_neg eb fb x = f_signed eb fb (\<not> f_sign eb fb x) (f_mag eb fb x)"

text \<open>An exact zero sum is negative only when both operands are negative zeros.\<close>

definition f_add :: "nat \<Rightarrow> nat \<Rightarrow> nat \<Rightarrow> nat \<Rightarrow> nat" where
  "f_add eb fb a b = f_nan2 eb fb a b
     (if f_is_inf eb fb a then
        (if f_is_inf eb fb b \<and> f_sign eb fb a \<noteq> f_sign eb fb b then f_default_nan eb fb else a)
      else if f_is_inf eb fb b then b
      else let z = f_int eb fb a + f_int eb fb b
           in if z = 0 then f_signed eb fb (f_sign eb fb a \<and> f_sign eb fb b) 0
              else f_of_int eb fb z)"

definition f_sub :: "nat \<Rightarrow> nat \<Rightarrow> nat \<Rightarrow> nat \<Rightarrow> nat" where
  "f_sub eb fb a b = f_nan2 eb fb a b (f_add eb fb a (f_neg eb fb b))"

definition f_mul :: "nat \<Rightarrow> nat \<Rightarrow> nat \<Rightarrow> nat \<Rightarrow> nat" where
  "f_mul eb fb a b = f_nan2 eb fb a b
     (let s = (f_sign eb fb a \<noteq> f_sign eb fb b)
      in if f_is_inf eb fb a \<or> f_is_inf eb fb b then
           (if f_units eb fb a = 0 \<or> f_units eb fb b = 0 then f_default_nan eb fb
            else f_signed eb fb s (f_inf eb fb))
         else f_signed eb fb s
           (f_round eb fb (f_units eb fb a * f_units eb fb b) (f_one eb fb)))"

definition f_div :: "nat \<Rightarrow> nat \<Rightarrow> nat \<Rightarrow> nat \<Rightarrow> nat" where
  "f_div eb fb a b = f_nan2 eb fb a b
     (let s = (f_sign eb fb a \<noteq> f_sign eb fb b)
      in if f_is_inf eb fb a then
           (if f_is_inf eb fb b then f_default_nan eb fb else f_signed eb fb s (f_inf eb fb))
         else if f_is_inf eb fb b then f_signed eb fb s 0
         else if f_units eb fb b = 0 then
           (if f_units eb fb a = 0 then f_default_nan eb fb else f_signed eb fb s (f_inf eb fb))
         else f_signed eb fb s
           (f_round eb fb (f_units eb fb a * f_one eb fb) (f_units eb fb b)))"

text \<open>
  The root is taken of an integer scaled so that its integer part has more bits than a
  significand; the last bit of the rounded numerator records whether it was exact.
\<close>

definition f_sqrt :: "nat \<Rightarrow> nat \<Rightarrow> nat \<Rightarrow> nat" where
  "f_sqrt eb fb a =
     (if f_is_nan eb fb a then f_quiet fb a
      else if f_mag eb fb a = 0 then a
      else if f_sign eb fb a then f_default_nan eb fb
      else if f_is_inf eb fb a then a
      else let n = f_units eb fb a * f_one eb fb; r = floor_sqrt n
           in f_round eb fb (2 * r + (if r * r = n then 0 else 1)) 2)"

section \<open>Comparison and conversion\<close>

text \<open>\<open>a < b\<close> and \<open>a == b\<close>: false when an operand is a NaN; the zeros are equal.\<close>

definition f_key :: "nat \<Rightarrow> nat \<Rightarrow> nat \<Rightarrow> int" where
  "f_key eb fb x = (if f_sign eb fb x then - int (f_mag eb fb x) else int (f_mag eb fb x))"

definition f_lt :: "nat \<Rightarrow> nat \<Rightarrow> nat \<Rightarrow> nat \<Rightarrow> bool" where
  "f_lt eb fb a b \<longleftrightarrow> \<not> f_is_nan eb fb a \<and> \<not> f_is_nan eb fb b \<and> f_key eb fb a < f_key eb fb b"

definition f_eq :: "nat \<Rightarrow> nat \<Rightarrow> nat \<Rightarrow> nat \<Rightarrow> bool" where
  "f_eq eb fb a b \<longleftrightarrow> \<not> f_is_nan eb fb a \<and> \<not> f_is_nan eb fb b \<and> f_key eb fb a = f_key eb fb b"

text \<open>A conversion from an integer type, zero included (which is positive).\<close>

definition int_to_f :: "nat \<Rightarrow> nat \<Rightarrow> int \<Rightarrow> nat" where
  "int_to_f eb fb z = f_of_int eb fb (z * int (f_one eb fb))"

text \<open>
  \<open>llrint\<close> rounds to the nearest integer, ties to even; a NaN, an infinity and a value that
  does not fit give the x86 indefinite integer \<open>INT64_MIN\<close>.
\<close>

definition f_llrint :: "nat \<Rightarrow> nat \<Rightarrow> nat \<Rightarrow> i64" where
  "f_llrint eb fb x =
     (let n = round_div (f_units eb fb x) (f_one eb fb);
          z = (if f_sign eb fb x then - int n else int n)
      in if f_inf eb fb \<le> f_mag eb fb x \<or> z < - (2 ^ 63) \<or> 2 ^ 63 \<le> z then 0x8000000000000000
         else word_of_int z)"

text \<open>
  Conversion between the formats: a NaN keeps the leading bits of its payload and is made
  quiet, everything else is rescaled and rounded (exactly when widening).
\<close>

definition f_convert :: "nat \<Rightarrow> nat \<Rightarrow> nat \<Rightarrow> nat \<Rightarrow> nat \<Rightarrow> nat" where
  "f_convert eb fb eb' fb' x =
     f_signed eb' fb' (f_sign eb fb x)
      (if f_is_nan eb fb x then
         f_inf eb' fb' + (f_frac fb (f_quiet fb x)) * 2 ^ fb' div 2 ^ fb
       else if f_is_inf eb fb x then f_inf eb' fb'
       else f_round eb' fb' (f_units eb fb x * f_one eb' fb') (f_one eb fb))"

section \<open>The types f32 and f64\<close>

definition f32_op2 :: "(nat \<Rightarrow> nat \<Rightarrow> nat \<Rightarrow> nat \<Rightarrow> nat) \<Rightarrow> u32 \<Rightarrow> u32 \<Rightarrow> u32" where
  "f32_op2 f a b = word_of_nat (f 8 23 (unat a) (unat b))"

definition f64_op2 :: "(nat \<Rightarrow> nat \<Rightarrow> nat \<Rightarrow> nat \<Rightarrow> nat) \<Rightarrow> u64 \<Rightarrow> u64 \<Rightarrow> u64" where
  "f64_op2 f a b = word_of_nat (f 11 52 (unat a) (unat b))"

definition f32_neg :: "u32 \<Rightarrow> u32" where
  "f32_neg a = word_of_nat (f_neg 8 23 (unat a))"

definition f64_neg :: "u64 \<Rightarrow> u64" where
  "f64_neg a = word_of_nat (f_neg 11 52 (unat a))"

definition sqrtf :: "u32 \<Rightarrow> u32" where
  "sqrtf a = word_of_nat (f_sqrt 8 23 (unat a))"

definition sqrt_d :: "u64 \<Rightarrow> u64" where
  "sqrt_d a = word_of_nat (f_sqrt 11 52 (unat a))"

definition f32_lt :: "u32 \<Rightarrow> u32 \<Rightarrow> bool" where
  "f32_lt a b = f_lt 8 23 (unat a) (unat b)"

definition f64_lt :: "u64 \<Rightarrow> u64 \<Rightarrow> bool" where
  "f64_lt a b = f_lt 11 52 (unat a) (unat b)"

definition f32_eq :: "u32 \<Rightarrow> u32 \<Rightarrow> bool" where
  "f32_eq a b = f_eq 8 23 (unat a) (unat b)"

definition f64_eq :: "u64 \<Rightarrow> u64 \<Rightarrow> bool" where
  "f64_eq a b = f_eq 11 52 (unat a) (unat b)"

definition int_to_f32 :: "int \<Rightarrow> u32" where
  "int_to_f32 z = word_of_nat (int_to_f 8 23 z)"

definition int_to_f64 :: "int \<Rightarrow> u64" where
  "int_to_f64 z = word_of_nat (int_to_f 11 52 z)"

definition llrintf :: "u32 \<Rightarrow> i64" where
  "llrintf a = f_llrint 8 23 (unat a)"

definition llrint :: "u64 \<Rightarrow> i64" where
  "llrint a = f_llrint 11 52 (unat a)"

definition f64_to_f32 :: "u64 \<Rightarrow> u32" where
  "f64_to_f32 a = word_of_nat (f_convert 11 52 8 23 (unat a))"

definition f32_to_f64 :: "u32 \<Rightarrow> u64" where
  "f32_to_f64 a = word_of_nat (f_convert 8 23 11 52 (unat a))"

end
