(* ===== verification/Decode.thy ===== *)
theory Decode
  imports Rvemu
begin

text \<open>
  The instruction decoder \<open>decode.c\<close>: the field macros, one reader per instruction format
  (which builds an \<open>inst_t\<close> from an encoding) and \<open>decode_inst\<close>, whose nested
  \<open>switch\<close> is split into one definition per quadrant or major opcode.
\<close>

section \<open>Field macros\<close>

definition QUADRANT :: "u32 \<Rightarrow> u32" where [field_defs]: "QUADRANT data = drop_bit 0 data AND 0x3"

definition OPCODE :: "u32 \<Rightarrow> u32" where [field_defs]: "OPCODE data = drop_bit 2 data AND 0x1f"

definition RD :: "u32 \<Rightarrow> u32" where [field_defs]: "RD data = drop_bit 7 data AND 0x1f"

definition RS1 :: "u32 \<Rightarrow> u32" where [field_defs]: "RS1 data = drop_bit 15 data AND 0x1f"

definition RS2 :: "u32 \<Rightarrow> u32" where [field_defs]: "RS2 data = drop_bit 20 data AND 0x1f"

definition RS3 :: "u32 \<Rightarrow> u32" where [field_defs]: "RS3 data = drop_bit 27 data AND 0x1f"

definition FUNCT2 :: "u32 \<Rightarrow> u32" where [field_defs]: "FUNCT2 data = drop_bit 25 data AND 0x3"

definition FUNCT3 :: "u32 \<Rightarrow> u32" where [field_defs]: "FUNCT3 data = drop_bit 12 data AND 0x7"

definition FUNCT7 :: "u32 \<Rightarrow> u32" where [field_defs]: "FUNCT7 data = drop_bit 25 data AND 0x7f"

definition IMM116 :: "u32 \<Rightarrow> u32" where [field_defs]: "IMM116 data = drop_bit 26 data AND 0x3f"

definition COPCODE :: "u32 \<Rightarrow> u32" where [field_defs]: "COPCODE data = drop_bit 13 data AND 0x7"

definition CFUNCT1 :: "u32 \<Rightarrow> u32" where [field_defs]: "CFUNCT1 data = drop_bit 12 data AND 0x1"

definition CFUNCT2LOW :: "u32 \<Rightarrow> u32" where [field_defs]: "CFUNCT2LOW data = drop_bit 5 data AND 0x3"

definition CFUNCT2HIGH :: "u32 \<Rightarrow> u32" where
  [field_defs]: "CFUNCT2HIGH data = drop_bit 10 data AND 0x3"

definition RP1 :: "u32 \<Rightarrow> u32" where [field_defs]: "RP1 data = drop_bit 7 data AND 0x7"

definition RP2 :: "u32 \<Rightarrow> u32" where [field_defs]: "RP2 data = drop_bit 2 data AND 0x7"

definition RC1 :: "u32 \<Rightarrow> u32" where [field_defs]: "RC1 data = drop_bit 7 data AND 0x1f"

definition RC2 :: "u32 \<Rightarrow> u32" where [field_defs]: "RC2 data = drop_bit 2 data AND 0x1f"

text \<open>
  The idiom \<open>imm = (imm << k) >> k\<close> on an \<open>int32_t\<close>: a left shift that drops the bits
  above, then an arithmetic right shift.
\<close>

definition sext_imm :: "nat \<Rightarrow> u32 \<Rightarrow> i32" where
  "sext_imm k v = signed_drop_bit k (push_bit k v)"

section \<open>Readers of 32-bit formats\<close>

definition inst_utype_read :: "u32 \<Rightarrow> inst_t" where
  [reader_defs]: "inst_utype_read data = inst_zero
     \<lparr>imm := data AND 0xfffff000, rd := ucast (RD data)\<rparr>"

definition inst_itype_read :: "u32 \<Rightarrow> inst_t" where
  [reader_defs]: "inst_itype_read data = inst_zero
     \<lparr>imm := signed_drop_bit 20 data, rs1 := ucast (RS1 data), rd := ucast (RD data)\<rparr>"

definition inst_jtype_read :: "u32 \<Rightarrow> inst_t" where
  [reader_defs]: "inst_jtype_read data =
    (let imm20 = drop_bit 31 data AND 0x1;
         imm101 = drop_bit 21 data AND 0x3ff;
         imm11 = drop_bit 20 data AND 0x1;
         imm1912 = drop_bit 12 data AND 0xff;
         i = push_bit 20 imm20 OR push_bit 12 imm1912 OR push_bit 11 imm11 OR push_bit 1 imm101
     in inst_zero\<lparr>imm := sext_imm 11 i, rd := ucast (RD data)\<rparr>)"

definition inst_btype_read :: "u32 \<Rightarrow> inst_t" where
  [reader_defs]: "inst_btype_read data =
    (let imm12 = drop_bit 31 data AND 0x1;
         imm105 = drop_bit 25 data AND 0x3f;
         imm41 = drop_bit 8 data AND 0xf;
         imm11 = drop_bit 7 data AND 0x1;
         i = push_bit 12 imm12 OR push_bit 11 imm11 OR push_bit 5 imm105 OR push_bit 1 imm41
     in inst_zero\<lparr>imm := sext_imm 19 i, rs1 := ucast (RS1 data), rs2 := ucast (RS2 data)\<rparr>)"

definition inst_rtype_read :: "u32 \<Rightarrow> inst_t" where
  [reader_defs]: "inst_rtype_read data = inst_zero
     \<lparr>rs1 := ucast (RS1 data), rs2 := ucast (RS2 data), rd := ucast (RD data)\<rparr>"

definition inst_stype_read :: "u32 \<Rightarrow> inst_t" where
  [reader_defs]: "inst_stype_read data =
    (let imm115 = drop_bit 25 data AND 0x7f;
         imm40 = drop_bit 7 data AND 0x1f;
         i = push_bit 5 imm115 OR imm40
     in inst_zero\<lparr>imm := sext_imm 20 i, rs1 := ucast (RS1 data), rs2 := ucast (RS2 data)\<rparr>)"

definition inst_csrtype_read :: "u32 \<Rightarrow> inst_t" where
  [reader_defs]: "inst_csrtype_read data = inst_zero
     \<lparr>csr := ucast (drop_bit 20 data), rs1 := ucast (RS1 data), rd := ucast (RD data)\<rparr>"

definition inst_fprtype_read :: "u32 \<Rightarrow> inst_t" where
  [reader_defs]: "inst_fprtype_read data = inst_zero
     \<lparr>rs1 := ucast (RS1 data), rs2 := ucast (RS2 data), rs3 := ucast (RS3 data),
      rd := ucast (RD data)\<rparr>"

section \<open>Readers of compressed formats\<close>

text \<open>
  Their argument is a \<open>uint16_t\<close>, which the shifts promote to a non-negative
  \<open>int\<close>: the readers work on its zero extension \<open>d\<close>.
\<close>

definition inst_catype_read :: "u16 \<Rightarrow> inst_t" where
  [reader_defs]: "inst_catype_read data = (let d = (ucast data :: u32) in
     inst_zero\<lparr>rd := ucast (RP1 d + 8), rs2 := ucast (RP2 d + 8), rvc := True\<rparr>)"

definition inst_crtype_read :: "u16 \<Rightarrow> inst_t" where
  [reader_defs]: "inst_crtype_read data = (let d = (ucast data :: u32) in
     inst_zero\<lparr>rs1 := ucast (RC1 d), rs2 := ucast (RC2 d), rvc := True\<rparr>)"

definition inst_citype_read :: "u16 \<Rightarrow> inst_t" where
  [reader_defs]: "inst_citype_read data =
    (let d = (ucast data :: u32);
         imm40 = drop_bit 2 d AND 0x1f;
         imm5 = drop_bit 12 d AND 0x1;
         i = push_bit 5 imm5 OR imm40
     in inst_zero\<lparr>imm := sext_imm 26 i, rd := ucast (RC1 d), rvc := True\<rparr>)"

definition inst_citype_read2 :: "u16 \<Rightarrow> inst_t" where
  [reader_defs]: "inst_citype_read2 data =
    (let d = (ucast data :: u32);
         imm86 = drop_bit 2 d AND 0x7;
         imm43 = drop_bit 5 d AND 0x3;
         imm5 = drop_bit 12 d AND 0x1;
         i = push_bit 6 imm86 OR push_bit 3 imm43 OR push_bit 5 imm5
     in inst_zero\<lparr>imm := i, rd := ucast (RC1 d), rvc := True\<rparr>)"

definition inst_citype_read3 :: "u16 \<Rightarrow> inst_t" where
  [reader_defs]: "inst_citype_read3 data =
    (let d = (ucast data :: u32);
         imm5 = drop_bit 2 d AND 0x1;
         imm87 = drop_bit 3 d AND 0x3;
         imm6 = drop_bit 5 d AND 0x1;
         imm4 = drop_bit 6 d AND 0x1;
         imm9 = drop_bit 12 d AND 0x1;
         i = push_bit 5 imm5 OR push_bit 7 imm87 OR push_bit 6 imm6 OR push_bit 4 imm4
             OR push_bit 9 imm9
     in inst_zero\<lparr>imm := sext_imm 22 i, rd := ucast (RC1 d), rvc := True\<rparr>)"

definition inst_citype_read4 :: "u16 \<Rightarrow> inst_t" where
  [reader_defs]: "inst_citype_read4 data =
    (let d = (ucast data :: u32);
         imm5 = drop_bit 12 d AND 0x1;
         imm42 = drop_bit 4 d AND 0x7;
         imm76 = drop_bit 2 d AND 0x3;
         i = push_bit 5 imm5 OR push_bit 2 imm42 OR push_bit 6 imm76
     in inst_zero\<lparr>imm := i, rd := ucast (RC1 d), rvc := True\<rparr>)"

definition inst_citype_read5 :: "u16 \<Rightarrow> inst_t" where
  [reader_defs]: "inst_citype_read5 data =
    (let d = (ucast data :: u32);
         imm1612 = drop_bit 2 d AND 0x1f;
         imm17 = drop_bit 12 d AND 0x1;
         i = push_bit 12 imm1612 OR push_bit 17 imm17
     in inst_zero\<lparr>imm := sext_imm 14 i, rd := ucast (RC1 d), rvc := True\<rparr>)"

definition inst_cbtype_read :: "u16 \<Rightarrow> inst_t" where
  [reader_defs]: "inst_cbtype_read data =
    (let d = (ucast data :: u32);
         imm5 = drop_bit 2 d AND 0x1;
         imm21 = drop_bit 3 d AND 0x3;
         imm76 = drop_bit 5 d AND 0x3;
         imm43 = drop_bit 10 d AND 0x3;
         imm8 = drop_bit 12 d AND 0x1;
         i = push_bit 8 imm8 OR push_bit 6 imm76 OR push_bit 5 imm5 OR push_bit 3 imm43
             OR push_bit 1 imm21
     in inst_zero\<lparr>imm := sext_imm 23 i, rs1 := ucast (RP1 d + 8), rvc := True\<rparr>)"

definition inst_cbtype_read2 :: "u16 \<Rightarrow> inst_t" where
  [reader_defs]: "inst_cbtype_read2 data =
    (let d = (ucast data :: u32);
         imm40 = drop_bit 2 d AND 0x1f;
         imm5 = drop_bit 12 d AND 0x1;
         i = push_bit 5 imm5 OR imm40
     in inst_zero\<lparr>imm := sext_imm 26 i, rd := ucast (RP1 d + 8), rvc := True\<rparr>)"

definition inst_cstype_read :: "u16 \<Rightarrow> inst_t" where
  [reader_defs]: "inst_cstype_read data =
    (let d = (ucast data :: u32);
         imm76 = drop_bit 5 d AND 0x3;
         imm53 = drop_bit 10 d AND 0x7;
         i = push_bit 6 imm76 OR push_bit 3 imm53
     in inst_zero\<lparr>imm := i, rs1 := ucast (RP1 d + 8), rs2 := ucast (RP2 d + 8), rvc := True\<rparr>)"

definition inst_cstype_read2 :: "u16 \<Rightarrow> inst_t" where
  [reader_defs]: "inst_cstype_read2 data =
    (let d = (ucast data :: u32);
         imm6 = drop_bit 5 d AND 0x1;
         imm2 = drop_bit 6 d AND 0x1;
         imm53 = drop_bit 10 d AND 0x7;
         i = push_bit 6 imm6 OR push_bit 2 imm2 OR push_bit 3 imm53
     in inst_zero\<lparr>imm := i, rs1 := ucast (RP1 d + 8), rs2 := ucast (RP2 d + 8), rvc := True\<rparr>)"

definition inst_cjtype_read :: "u16 \<Rightarrow> inst_t" where
  [reader_defs]: "inst_cjtype_read data =
    (let d = (ucast data :: u32);
         imm5 = drop_bit 2 d AND 0x1;
         imm31 = drop_bit 3 d AND 0x7;
         imm7 = drop_bit 6 d AND 0x1;
         imm6 = drop_bit 7 d AND 0x1;
         imm10 = drop_bit 8 d AND 0x1;
         imm98 = drop_bit 9 d AND 0x3;
         imm4 = drop_bit 11 d AND 0x1;
         imm11 = drop_bit 12 d AND 0x1;
         i = push_bit 5 imm5 OR push_bit 1 imm31 OR push_bit 7 imm7 OR push_bit 6 imm6
             OR push_bit 10 imm10 OR push_bit 8 imm98 OR push_bit 4 imm4 OR push_bit 11 imm11
     in inst_zero\<lparr>imm := sext_imm 20 i, rvc := True\<rparr>)"

definition inst_cltype_read :: "u16 \<Rightarrow> inst_t" where
  [reader_defs]: "inst_cltype_read data =
    (let d = (ucast data :: u32);
         imm6 = drop_bit 5 d AND 0x1;
         imm2 = drop_bit 6 d AND 0x1;
         imm53 = drop_bit 10 d AND 0x7;
         i = push_bit 6 imm6 OR push_bit 2 imm2 OR push_bit 3 imm53
     in inst_zero\<lparr>imm := i, rs1 := ucast (RP1 d + 8), rd := ucast (RP2 d + 8), rvc := True\<rparr>)"

definition inst_cltype_read2 :: "u16 \<Rightarrow> inst_t" where
  [reader_defs]: "inst_cltype_read2 data =
    (let d = (ucast data :: u32);
         imm76 = drop_bit 5 d AND 0x3;
         imm53 = drop_bit 10 d AND 0x7;
         i = push_bit 6 imm76 OR push_bit 3 imm53
     in inst_zero\<lparr>imm := i, rs1 := ucast (RP1 d + 8), rd := ucast (RP2 d + 8), rvc := True\<rparr>)"

definition inst_csstype_read :: "u16 \<Rightarrow> inst_t" where
  [reader_defs]: "inst_csstype_read data =
    (let d = (ucast data :: u32);
         imm86 = drop_bit 7 d AND 0x7;
         imm53 = drop_bit 10 d AND 0x7;
         i = push_bit 6 imm86 OR push_bit 3 imm53
     in inst_zero\<lparr>imm := i, rs2 := ucast (RC2 d), rvc := True\<rparr>)"

definition inst_csstype_read2 :: "u16 \<Rightarrow> inst_t" where
  [reader_defs]: "inst_csstype_read2 data =
    (let d = (ucast data :: u32);
         imm76 = drop_bit 7 d AND 0x3;
         imm52 = drop_bit 9 d AND 0xf;
         i = push_bit 6 imm76 OR push_bit 2 imm52
     in inst_zero\<lparr>imm := i, rs2 := ucast (RC2 d), rvc := True\<rparr>)"

definition inst_ciwtype_read :: "u16 \<Rightarrow> inst_t" where
  [reader_defs]: "inst_ciwtype_read data =
    (let d = (ucast data :: u32);
         imm3 = drop_bit 5 d AND 0x1;
         imm2 = drop_bit 6 d AND 0x1;
         imm96 = drop_bit 7 d AND 0xf;
         imm54 = drop_bit 11 d AND 0x3;
         i = push_bit 3 imm3 OR push_bit 2 imm2 OR push_bit 6 imm96 OR push_bit 4 imm54
     in inst_zero\<lparr>imm := i, rd := ucast (RP2 d + 8), rvc := True\<rparr>)"

section \<open>decode_inst\<close>

abbreviation (input) unreachable :: "'a res" where
  "unreachable \<equiv> Inl (Fatal ''unreachable'')"

text \<open>\<open>assert(c)\<close> followed by the rest of the branch.\<close>

definition assert_then :: "bool \<Rightarrow> string \<Rightarrow> 'a res \<Rightarrow> 'a res" where
  "assert_then c msg k = (if c then k else Inl (Assert_Fail msg))"

text \<open>\<open>inst->type = t; return;\<close>\<close>

definition ret_type :: "inst_t \<Rightarrow> inst_type_t \<Rightarrow> inst_t res" where
  "ret_type i t = Inr (i\<lparr>itype := t\<rparr>)"

text \<open>\<open>inst->type = t; inst->continue_exec = true; return;\<close>\<close>

definition ret_jump :: "inst_t \<Rightarrow> inst_type_t \<Rightarrow> inst_t res" where
  "ret_jump i t = Inr (i\<lparr>itype := t, continue_exec := True\<rparr>)"

definition decode_q0 :: "u32 \<Rightarrow> inst_t res" where
  [decode_defs]: "decode_q0 data =
    (let c = (ucast data :: u16) in
     switch (COPCODE data)
       [(0x0, let i = (inst_ciwtype_read c)\<lparr>rs1 := of_nat reg_sp, itype := inst_addi\<rparr> in
              assert_then (imm i \<noteq> 0) ''inst->imm != 0'' (Inr i)),
        (0x1, ret_type (inst_cltype_read2 c) inst_fld),
        (0x2, ret_type (inst_cltype_read c) inst_lw),
        (0x3, ret_type (inst_cltype_read2 c) inst_ld),
        (0x5, ret_type (inst_cstype_read c) inst_fsd),
        (0x6, ret_type (inst_cstype_read2 c) inst_sw),
        (0x7, ret_type (inst_cstype_read c) inst_sd)]
       (Inl (Fatal ''unimplemented'')))"

definition decode_q1_alu :: "u32 \<Rightarrow> inst_t res" where
  [decode_defs]: "decode_q1_alu data =
    (let c = (ucast data :: u16); cfunct2high = CFUNCT2HIGH data in
     if cfunct2high = 0x0 \<or> cfunct2high = 0x1 \<or> cfunct2high = 0x2 then
       (let i = inst_cbtype_read2 c; i = i\<lparr>rs1 := rd i\<rparr> in
        if cfunct2high = 0x0 then ret_type i inst_srli
        else if cfunct2high = 0x1 then ret_type i inst_srai
        else ret_type i inst_andi)
     else if cfunct2high = 0x3 then
       (let i = inst_catype_read c; i = i\<lparr>rs1 := rd i\<rparr> in
        switch (CFUNCT1 data)
          [(0x0, switch (CFUNCT2LOW data)
                   [(0x0, ret_type i inst_sub),
                    (0x1, ret_type i inst_xor),
                    (0x2, ret_type i inst_or),
                    (0x3, ret_type i inst_and)]
                   unreachable),
           (0x1, switch (CFUNCT2LOW data)
                   [(0x0, ret_type i inst_subw),
                    (0x1, ret_type i inst_addw)]
                   unreachable)]
          unreachable)
     else unreachable)"

definition decode_q1 :: "u32 \<Rightarrow> inst_t res" where
  [decode_defs]: "decode_q1 data =
    (let c = (ucast data :: u16); copcode = COPCODE data in
     switch copcode
       [(0x0, let i = inst_citype_read c in ret_type (i\<lparr>rs1 := rd i\<rparr>) inst_addi),
        (0x1, let i = inst_citype_read c in
              assert_then (rd i \<noteq> 0) ''inst->rd != 0'' (ret_type (i\<lparr>rs1 := rd i\<rparr>) inst_addiw)),
        (0x2, ret_type ((inst_citype_read c)\<lparr>rs1 := of_nat reg_zero\<rparr>) inst_addi),
        (0x3, if RC1 data = 2 then
                (let i = inst_citype_read3 c in
                 assert_then (imm i \<noteq> 0) ''inst->imm != 0'' (ret_type (i\<lparr>rs1 := rd i\<rparr>) inst_addi))
              else
                (let i = inst_citype_read5 c in
                 assert_then (imm i \<noteq> 0) ''inst->imm != 0'' (ret_type i inst_lui))),
        (0x4, decode_q1_alu data),
        (0x5, ret_jump ((inst_cjtype_read c)\<lparr>rd := of_nat reg_zero\<rparr>) inst_jal),
        (0x6, ret_type ((inst_cbtype_read c)\<lparr>rs2 := of_nat reg_zero\<rparr>)
                (if copcode = 0x6 then inst_beq else inst_bne)),
        (0x7, ret_type ((inst_cbtype_read c)\<lparr>rs2 := of_nat reg_zero\<rparr>)
                (if copcode = 0x6 then inst_beq else inst_bne))]
       (Inl (Fatal ''unrecognized copcode'')))"

definition decode_q2_cr :: "u32 \<Rightarrow> inst_t res" where
  [decode_defs]: "decode_q2_cr data =
    (let i = inst_crtype_read (ucast data) in
     switch (CFUNCT1 data)
       [(0x0, if rs2 i = 0 then
                assert_then (rs1 i \<noteq> 0) ''inst->rs1 != 0''
                  (ret_jump (i\<lparr>rd := of_nat reg_zero\<rparr>) inst_jalr)
              else ret_type (i\<lparr>rd := rs1 i, rs1 := of_nat reg_zero\<rparr>) inst_add),
        (0x1, if rs1 i = 0 \<and> rs2 i = 0 then Inl (Fatal ''unimplmented'')
              else if rs2 i = 0 then ret_jump (i\<lparr>rd := of_nat reg_ra\<rparr>) inst_jalr
              else ret_type (i\<lparr>rd := rs1 i\<rparr>) inst_add)]
       unreachable)"

definition decode_q2 :: "u32 \<Rightarrow> inst_t res" where
  [decode_defs]: "decode_q2 data =
    (let c = (ucast data :: u16) in
     switch (COPCODE data)
       [(0x0, let i = inst_citype_read c in ret_type (i\<lparr>rs1 := rd i\<rparr>) inst_slli),
        (0x1, ret_type ((inst_citype_read2 c)\<lparr>rs1 := of_nat reg_sp\<rparr>) inst_fld),
        (0x2, let i = inst_citype_read4 c in
              assert_then (rd i \<noteq> 0) ''inst->rd != 0''
                (ret_type (i\<lparr>rs1 := of_nat reg_sp\<rparr>) inst_lw)),
        (0x3, let i = inst_citype_read2 c in
              assert_then (rd i \<noteq> 0) ''inst->rd != 0''
                (ret_type (i\<lparr>rs1 := of_nat reg_sp\<rparr>) inst_ld)),
        (0x4, decode_q2_cr data),
        (0x5, ret_type ((inst_csstype_read c)\<lparr>rs1 := of_nat reg_sp\<rparr>) inst_fsd),
        (0x6, ret_type ((inst_csstype_read2 c)\<lparr>rs1 := of_nat reg_sp\<rparr>) inst_sw),
        (0x7, ret_type ((inst_csstype_read c)\<lparr>rs1 := of_nat reg_sp\<rparr>) inst_sd)]
       (Inl (Fatal ''unrecognized copcode'')))"

definition decode_load :: "u32 \<Rightarrow> inst_t res" where
  [decode_defs]: "decode_load data =
    (let i = inst_itype_read data in
     switch (FUNCT3 data)
       [(0x0, ret_type i inst_lb), (0x1, ret_type i inst_lh), (0x2, ret_type i inst_lw),
        (0x3, ret_type i inst_ld), (0x4, ret_type i inst_lbu), (0x5, ret_type i inst_lhu),
        (0x6, ret_type i inst_lwu)]
       unreachable)"

definition decode_load_fp :: "u32 \<Rightarrow> inst_t res" where
  [decode_defs]: "decode_load_fp data =
    (let i = inst_itype_read data in
     switch (FUNCT3 data) [(0x2, ret_type i inst_flw), (0x3, ret_type i inst_fld)] unreachable)"

definition decode_misc_mem :: "u32 \<Rightarrow> inst_t res" where
  [decode_defs]: "decode_misc_mem data =
    switch (FUNCT3 data)
      [(0x0, ret_type inst_zero inst_fence), (0x1, ret_type inst_zero inst_fence_i)]
      unreachable"

definition decode_op_imm :: "u32 \<Rightarrow> inst_t res" where
  [decode_defs]: "decode_op_imm data =
    (let i = inst_itype_read data in
     switch (FUNCT3 data)
       [(0x0, ret_type i inst_addi),
        (0x1, if IMM116 data = 0 then ret_type i inst_slli else unreachable),
        (0x2, ret_type i inst_slti),
        (0x3, ret_type i inst_sltiu),
        (0x4, ret_type i inst_xori),
        (0x5, if IMM116 data = 0x0 then ret_type i inst_srli
              else if IMM116 data = 0x10 then ret_type i inst_srai
              else unreachable),
        (0x6, ret_type i inst_ori),
        (0x7, ret_type i inst_andi)]
       (Inl (Fatal ''unrecognized funct3'')))"

definition decode_op_imm_32 :: "u32 \<Rightarrow> inst_t res" where
  [decode_defs]: "decode_op_imm_32 data =
    (let funct7 = FUNCT7 data; i = inst_itype_read data in
     switch (FUNCT3 data)
       [(0x0, ret_type i inst_addiw),
        (0x1, assert_then (funct7 = 0) ''funct7 == 0'' (ret_type i inst_slliw)),
        (0x5, switch funct7 [(0x0, ret_type i inst_srliw), (0x20, ret_type i inst_sraiw)]
                unreachable)]
       (Inl (Fatal ''unimplemented'')))"

definition decode_store :: "u32 \<Rightarrow> inst_t res" where
  [decode_defs]: "decode_store data =
    (let i = inst_stype_read data in
     switch (FUNCT3 data)
       [(0x0, ret_type i inst_sb), (0x1, ret_type i inst_sh), (0x2, ret_type i inst_sw),
        (0x3, ret_type i inst_sd)]
       unreachable)"

definition decode_store_fp :: "u32 \<Rightarrow> inst_t res" where
  [decode_defs]: "decode_store_fp data =
    (let i = inst_stype_read data in
     switch (FUNCT3 data) [(0x2, ret_type i inst_fsw), (0x3, ret_type i inst_fsd)] unreachable)"

definition decode_op :: "u32 \<Rightarrow> inst_t res" where
  [decode_defs]: "decode_op data =
    (let i = inst_rtype_read data; funct3 = FUNCT3 data in
     switch (FUNCT7 data)
       [(0x0, switch funct3
               [(0x0, ret_type i inst_add), (0x1, ret_type i inst_sll), (0x2, ret_type i inst_slt),
                (0x3, ret_type i inst_sltu), (0x4, ret_type i inst_xor), (0x5, ret_type i inst_srl),
                (0x6, ret_type i inst_or), (0x7, ret_type i inst_and)]
               unreachable),
        (0x1, switch funct3
               [(0x0, ret_type i inst_mul), (0x1, ret_type i inst_mulh),
                (0x2, ret_type i inst_mulhsu), (0x3, ret_type i inst_mulhu),
                (0x4, ret_type i inst_div), (0x5, ret_type i inst_divu),
                (0x6, ret_type i inst_rem), (0x7, ret_type i inst_remu)]
               unreachable),
        (0x20, switch funct3 [(0x0, ret_type i inst_sub), (0x5, ret_type i inst_sra)]
               unreachable)]
       unreachable)"

definition decode_op_32 :: "u32 \<Rightarrow> inst_t res" where
  [decode_defs]: "decode_op_32 data =
    (let i = inst_rtype_read data; funct3 = FUNCT3 data in
     switch (FUNCT7 data)
       [(0x0, switch funct3
               [(0x0, ret_type i inst_addw), (0x1, ret_type i inst_sllw),
                (0x5, ret_type i inst_srlw)]
               unreachable),
        (0x1, switch funct3
               [(0x0, ret_type i inst_mulw), (0x4, ret_type i inst_divw),
                (0x5, ret_type i inst_divuw), (0x6, ret_type i inst_remw),
                (0x7, ret_type i inst_remuw)]
               unreachable),
        (0x20, switch funct3 [(0x0, ret_type i inst_subw), (0x5, ret_type i inst_sraw)]
               unreachable)]
       unreachable)"

text \<open>
  The four fused opcodes \<open>0x10\<close> to \<open>0x13\<close>, which differ in the two types they give.
\<close>

definition decode_fma :: "inst_type_t \<Rightarrow> inst_type_t \<Rightarrow> u32 \<Rightarrow> inst_t res" where
  [decode_defs]: "decode_fma ts td data =
    (let i = inst_fprtype_read data in
     switch (FUNCT2 data) [(0x0, ret_type i ts), (0x1, ret_type i td)] unreachable)"

text \<open>The cases of opcode \<open>0x14\<close>: arithmetic and comparisons, then conversions and moves.\<close>

definition op_fp_arith :: "inst_t \<Rightarrow> u32 \<Rightarrow> u32 \<Rightarrow> (u32 \<times> inst_t res) list" where
  [decode_defs]: "op_fp_arith i funct3 r2 =
       [(0x0, ret_type i inst_fadd_s), (0x1, ret_type i inst_fadd_d),
        (0x4, ret_type i inst_fsub_s), (0x5, ret_type i inst_fsub_d),
        (0x8, ret_type i inst_fmul_s), (0x9, ret_type i inst_fmul_d),
        (0xc, ret_type i inst_fdiv_s), (0xd, ret_type i inst_fdiv_d),
        (0x10, switch funct3 [(0x0, ret_type i inst_fsgnj_s), (0x1, ret_type i inst_fsgnjn_s),
                 (0x2, ret_type i inst_fsgnjx_s)] unreachable),
        (0x11, switch funct3 [(0x0, ret_type i inst_fsgnj_d), (0x1, ret_type i inst_fsgnjn_d),
                 (0x2, ret_type i inst_fsgnjx_d)] unreachable),
        (0x14, switch funct3 [(0x0, ret_type i inst_fmin_s), (0x1, ret_type i inst_fmax_s)]
                 unreachable),
        (0x15, switch funct3 [(0x0, ret_type i inst_fmin_d), (0x1, ret_type i inst_fmax_d)]
                 unreachable),
        (0x20, assert_then (r2 = 1) ''RS2(data) == 1'' (ret_type i inst_fcvt_s_d)),
        (0x21, assert_then (r2 = 0) ''RS2(data) == 0'' (ret_type i inst_fcvt_d_s)),
        (0x2c, assert_then (rs2 i = 0) ''inst->rs2 == 0'' (ret_type i inst_fsqrt_s)),
        (0x2d, assert_then (rs2 i = 0) ''inst->rs2 == 0'' (ret_type i inst_fsqrt_d)),
        (0x50, switch funct3 [(0x0, ret_type i inst_fle_s), (0x1, ret_type i inst_flt_s),
                 (0x2, ret_type i inst_feq_s)] unreachable),
        (0x51, switch funct3 [(0x0, ret_type i inst_fle_d), (0x1, ret_type i inst_flt_d),
                 (0x2, ret_type i inst_feq_d)] unreachable)]"

definition op_fp_convert :: "inst_t \<Rightarrow> u32 \<Rightarrow> u32 \<Rightarrow> (u32 \<times> inst_t res) list" where
  [decode_defs]: "op_fp_convert i funct3 r2 =
       [(0x60, switch r2 [(0x0, ret_type i inst_fcvt_w_s), (0x1, ret_type i inst_fcvt_wu_s),
                 (0x2, ret_type i inst_fcvt_l_s), (0x3, ret_type i inst_fcvt_lu_s)] unreachable),
        (0x61, switch r2 [(0x0, ret_type i inst_fcvt_w_d), (0x1, ret_type i inst_fcvt_wu_d),
                 (0x2, ret_type i inst_fcvt_l_d), (0x3, ret_type i inst_fcvt_lu_d)] unreachable),
        (0x68, switch r2 [(0x0, ret_type i inst_fcvt_s_w), (0x1, ret_type i inst_fcvt_s_wu),
                 (0x2, ret_type i inst_fcvt_s_l), (0x3, ret_type i inst_fcvt_s_lu)] unreachable),
        (0x69, switch r2 [(0x0, ret_type i inst_fcvt_d_w), (0x1, ret_type i inst_fcvt_d_wu),
                 (0x2, ret_type i inst_fcvt_d_l), (0x3, ret_type i inst_fcvt_d_lu)] unreachable),
        (0x70, assert_then (r2 = 0) ''RS2(data) == 0''
                 (switch funct3 [(0x0, ret_type i inst_fmv_x_w), (0x1, ret_type i inst_fclass_s)]
                    unreachable)),
        (0x71, assert_then (r2 = 0) ''RS2(data) == 0''
                 (switch funct3 [(0x0, ret_type i inst_fmv_x_d), (0x1, ret_type i inst_fclass_d)]
                    unreachable)),
        (0x78, assert_then (r2 = 0 \<and> funct3 = 0) ''RS2(data) == 0 && FUNCT3(data) == 0''
                 (ret_type i inst_fmv_w_x)),
        (0x79, assert_then (r2 = 0 \<and> funct3 = 0) ''RS2(data) == 0 && FUNCT3(data) == 0''
                 (ret_type i inst_fmv_d_x))]"

definition decode_op_fp :: "u32 \<Rightarrow> inst_t res" where
  [decode_defs]: "decode_op_fp data =
    (let i = inst_rtype_read data; funct3 = FUNCT3 data; r2 = RS2 data in
     switch (FUNCT7 data) (op_fp_arith i funct3 r2 @ op_fp_convert i funct3 r2) unreachable)"

definition decode_branch :: "u32 \<Rightarrow> inst_t res" where
  [decode_defs]: "decode_branch data =
    (let i = inst_btype_read data in
     switch (FUNCT3 data)
       [(0x0, ret_type i inst_beq), (0x1, ret_type i inst_bne), (0x4, ret_type i inst_blt),
        (0x5, ret_type i inst_bge), (0x6, ret_type i inst_bltu), (0x7, ret_type i inst_bgeu)]
       unreachable)"

text \<open>
  \<open>ECALL\<close> changes two fields and keeps the rest of what the previous instruction left in
  \<open>*inst\<close>; every other case overwrites the whole structure.
\<close>

definition decode_system :: "inst_t \<Rightarrow> u32 \<Rightarrow> inst_t res" where
  [decode_defs]: "decode_system inst data =
    (if data = 0x73 then ret_jump inst inst_ecall
     else
       (let i = inst_csrtype_read data in
        switch (FUNCT3 data)
          [(0x1, ret_type i inst_csrrw), (0x2, ret_type i inst_csrrs), (0x3, ret_type i inst_csrrc),
           (0x5, ret_type i inst_csrrwi), (0x6, ret_type i inst_csrrsi),
           (0x7, ret_type i inst_csrrci)]
          unreachable))"

definition decode_q3 :: "inst_t \<Rightarrow> u32 \<Rightarrow> inst_t res" where
  [decode_defs]: "decode_q3 inst data =
    switch (OPCODE data)
      [(0x0, decode_load data), (0x1, decode_load_fp data), (0x3, decode_misc_mem data),
       (0x4, decode_op_imm data), (0x5, ret_type (inst_utype_read data) inst_auipc),
       (0x6, decode_op_imm_32 data), (0x8, decode_store data), (0x9, decode_store_fp data),
       (0xc, decode_op data), (0xd, ret_type (inst_utype_read data) inst_lui),
       (0xe, decode_op_32 data),
       (0x10, decode_fma inst_fmadd_s inst_fmadd_d data),
       (0x11, decode_fma inst_fmsub_s inst_fmsub_d data),
       (0x12, decode_fma inst_fnmsub_s inst_fnmsub_d data),
       (0x13, decode_fma inst_fnmadd_s inst_fnmadd_d data),
       (0x14, decode_op_fp data), (0x18, decode_branch data),
       (0x19, ret_jump (inst_itype_read data) inst_jalr),
       (0x1b, ret_jump (inst_jtype_read data) inst_jal),
       (0x1c, decode_system inst data)]
      unreachable"

definition decode_inst :: "inst_t \<Rightarrow> u32 \<Rightarrow> inst_t res" where
  "decode_inst inst data =
    switch (QUADRANT data)
      [(0x0, decode_q0 data), (0x1, decode_q1 data), (0x2, decode_q2 data),
       (0x3, decode_q3 inst data)]
      unreachable"

end
