(* ===== verification/Loops.thy ===== *)
theory Loops
  imports Prelude
begin

text \<open>
  The emulator is three nested \<open>while (true)\<close> loops: \<open>main\<close> over system calls,
  \<open>machine_step\<close> over blocks and \<open>exec_block_interp\<close> over instructions. \<open>c_loop\<close> is
  that loop; \<open>None\<close> is a loop that never ends. The locale \<open>loop_contract\<close> is the
  interface between a loop and its body: what the body promises about one iteration, and what
  follows about the loop.
\<close>

section \<open>The loop\<close>

text \<open>One iteration leaves the loop with a result or goes on from a new state.\<close>

datatype ('s, 'r) ctl = Next 's | Break 'r

partial_function (option) c_loop ::
  "('s \<Rightarrow> ('s, 'r) ctl res option) \<Rightarrow> 's \<Rightarrow> 'r res option" where
  "c_loop body s =
     (case body s of
        None \<Rightarrow> None
      | Some r \<Rightarrow> (case r of
          Inl e \<Rightarrow> Some (Inl e)
        | Inr c \<Rightarrow> (case c of
            Break x \<Rightarrow> Some (Inr x)
          | Next s' \<Rightarrow> c_loop body s')))"

text \<open>The same loop for at most \<open>n\<close> iterations; it computes.\<close>

primrec c_loop_n :: "nat \<Rightarrow> ('s \<Rightarrow> ('s, 'r) ctl res option) \<Rightarrow> 's \<Rightarrow> 'r res option" where
  "c_loop_n 0 body s = None"
| "c_loop_n (Suc n) body s =
     (case body s of
        None \<Rightarrow> None
      | Some r \<Rightarrow> (case r of
          Inl e \<Rightarrow> Some (Inl e)
        | Inr c \<Rightarrow> (case c of
            Break x \<Rightarrow> Some (Inr x)
          | Next s' \<Rightarrow> c_loop_n n body s')))"

section \<open>Iterations\<close>

text \<open>\<open>iterates body s s'\<close>: the loop gets from \<open>s\<close> to \<open>s'\<close> without leaving.\<close>

inductive iterates :: "('s \<Rightarrow> ('s, 'r) ctl res option) \<Rightarrow> 's \<Rightarrow> 's \<Rightarrow> bool" for body where
  iterates_refl: "iterates body s s"
| iterates_step: "body s = Some (Inr (Next s')) \<Longrightarrow> iterates body s' s'' \<Longrightarrow> iterates body s s''"

inductive_cases iteratesE: "iterates body s s'"

lemma iterates_trans: "iterates body a b \<Longrightarrow> iterates body b c \<Longrightarrow> iterates body a c"
  by (induction rule: iterates.induct) (auto intro: iterates.intros)

lemma c_loop_iterates: "iterates body s s' \<Longrightarrow> c_loop body s = c_loop body s'"
  by (induction rule: iterates.induct) (simp_all add: c_loop.simps)

text \<open>What the loop returns comes from the last state it iterates to.\<close>

lemma c_loop_n_final:
  "c_loop_n n body s = Some r \<Longrightarrow>
     \<exists>s'. iterates body s s' \<and>
       (case r of Inl e \<Rightarrow> body s' = Some (Inl e) | Inr x \<Rightarrow> body s' = Some (Inr (Break x)))"
proof (induction n arbitrary: s)
  case (Suc n)
  show ?case
  proof (cases "\<exists>s'. body s = Some (Inr (Next s'))")
    case True
    then obtain s' where s': "body s = Some (Inr (Next s'))" by blast
    with Suc.prems have "c_loop_n n body s' = Some r" by simp
    from Suc.IH [OF this] iterates_step [of body, OF s'] show ?thesis by blast
  next
    case False
    with Suc.prems show ?thesis
      by (intro exI [of _ s]) (auto simp: iterates_refl split: option.splits sum.splits ctl.splits)
  qed
qed simp

lemma c_loop_n_sound: "c_loop_n n body s = Some r \<Longrightarrow> c_loop body s = Some r"
proof -
  assume "c_loop_n n body s = Some r"
  from c_loop_n_final [OF this] obtain s' where s': "iterates body s s'"
    "case r of Inl e \<Rightarrow> body s' = Some (Inl e) | Inr x \<Rightarrow> body s' = Some (Inr (Break x))" by blast
  from s'(2) have "c_loop body s' = Some r"
    by (cases r) (simp_all add: c_loop.simps [of body s'])
  with c_loop_iterates [OF s'(1)] show ?thesis by simp
qed

lemma c_loop_n_complete: "c_loop body s = Some r \<Longrightarrow> \<exists>n. c_loop_n n body s = Some r"
proof (rule c_loop.raw_induct [where P = "\<lambda>body s r. \<exists>n. c_loop_n n body s = Some r"])
  fix loop body s r
  assume 1: "\<And>body s y. loop body s = Some y \<Longrightarrow> \<exists>n. c_loop_n n body s = Some y"
    "(case body s of None \<Rightarrow> None | Some r \<Rightarrow> (case r of Inl e \<Rightarrow> Some (Inl e)
      | Inr c \<Rightarrow> (case c of Break x \<Rightarrow> Some (Inr x) | Next s' \<Rightarrow> loop body s'))) = Some r"
  show "\<exists>n. c_loop_n n body s = Some r"
  proof (cases "\<exists>s'. body s = Some (Inr (Next s'))")
    case True
    then obtain s' where s': "body s = Some (Inr (Next s'))" by blast
    with 1(2) have "loop body s' = Some r" by simp
    from 1(1) [OF this] obtain n where "c_loop_n n body s' = Some r" ..
    with s' have "c_loop_n (Suc n) body s = Some r" by simp
    then show ?thesis by blast
  next
    case False
    with 1 have "c_loop_n (Suc 0) body s = Some r"
      by (auto split: option.splits sum.splits ctl.splits)
    then show ?thesis by blast
  qed
qed

lemma c_loop_final:
  assumes "c_loop body s = Some r"
  shows "\<exists>s'. iterates body s s' \<and>
    (case r of Inl e \<Rightarrow> body s' = Some (Inl e) | Inr x \<Rightarrow> body s' = Some (Inr (Break x)))"
proof -
  from c_loop_n_complete [OF assms] obtain n where "c_loop_n n body s = Some r" ..
  then show ?thesis by (rule c_loop_n_final)
qed

section \<open>The contract of a loop body\<close>

locale loop_contract =
  fixes body :: "'s \<Rightarrow> ('s, 'r) ctl res option"
    and inv :: "'s \<Rightarrow> bool"
    and post :: "'r \<Rightarrow> bool"
    and fault :: "error \<Rightarrow> bool"
  assumes body_next: "inv s \<Longrightarrow> body s = Some (Inr (Next s')) \<Longrightarrow> inv s'"
    and body_break: "inv s \<Longrightarrow> body s = Some (Inr (Break r)) \<Longrightarrow> post r"
    and body_fault: "inv s \<Longrightarrow> body s = Some (Inl e) \<Longrightarrow> fault e"
begin

lemma iterates_inv: "iterates body s s' \<Longrightarrow> inv s \<Longrightarrow> inv s'"
  by (induction rule: iterates.induct) (auto intro: body_next)

lemma loop_post: "inv s \<Longrightarrow> c_loop body s = Some (Inr r) \<Longrightarrow> post r"
  using c_loop_final [of body s "Inr r"] iterates_inv body_break by fastforce

lemma loop_fault: "inv s \<Longrightarrow> c_loop body s = Some (Inl e) \<Longrightarrow> fault e"
  using c_loop_final [of body s "Inl e"] iterates_inv body_fault by fastforce

end

section \<open>A loop that follows a step relation\<close>

text \<open>
  The interface between a loop and the machine it implements: a step is matched by an iteration
  or by a part of one, \<open>stays s s'\<close>, from which the iteration goes on as before. No iteration has
  infinitely many parts.
\<close>

locale loop_simulation =
  fixes body :: "'s \<Rightarrow> ('s, 'r) ctl res option"
    and match :: "'s \<Rightarrow> 'c \<Rightarrow> bool"
    and step :: "'c \<Rightarrow> 'c \<Rightarrow> bool"
    and stays :: "'s \<Rightarrow> 's \<Rightarrow> bool"
  assumes stays_body: "stays s s' \<Longrightarrow> body s = body s'"
    and stays_forever: "\<forall>k. stays (\<mu> k) (\<mu> (Suc k)) \<Longrightarrow> body (\<mu> 0) = None"
    and step_match: "match s c \<Longrightarrow> step c c' \<Longrightarrow>
      \<exists>s'. match s' c' \<and> (stays s s' \<or> body s = Some (Inr (Next s')))"
begin

text \<open>The loop has the result it has from any state the machine gets to.\<close>

lemma loop_run: "step\<^sup>*\<^sup>* c c' \<Longrightarrow> match s c \<Longrightarrow> \<exists>s'. match s' c' \<and> c_loop body s = c_loop body s'"
proof (induction rule: rtranclp_induct)
  case (step c' c'')
  then obtain s' where s': "match s' c'" "c_loop body s = c_loop body s'" by blast
  from step_match [OF s'(1) step.hyps(2)] obtain s'' where
    s'': "match s'' c''" "stays s' s'' \<or> body s' = Some (Inr (Next s''))" by blast
  then have "c_loop body s' = c_loop body s''"
    by (auto simp: c_loop.simps [of body s'] c_loop.simps [of body s''] dest!: stays_body)
  with s' s'' show ?case by auto
qed blast

lemma stays_chain: "(\<And>i. i < k \<Longrightarrow> stays (\<mu> (j + i)) (\<mu> (Suc (j + i)))) \<Longrightarrow> body (\<mu> j) = body (\<mu> (j + k))"
  by (induction k) (use stays_body in auto)

lemma no_fuel:
  assumes "\<forall>k. stays (\<mu> k) (\<mu> (Suc k)) \<or> body (\<mu> k) = Some (Inr (Next (\<mu> (Suc k))))"
  shows "c_loop_n n body (\<mu> j) = None"
proof (induction n arbitrary: j)
  case (Suc n)
  show ?case
  proof (cases "\<forall>k. stays (\<mu> (j + k)) (\<mu> (Suc (j + k)))")
    case True
    then show ?thesis using stays_forever [of "\<lambda>k. \<mu> (j + k)"] by simp
  next
    case False
    then have ex: "\<exists>k. \<not> stays (\<mu> (j + k)) (\<mu> (Suc (j + k)))" by blast
    define k where "k = (LEAST k. \<not> stays (\<mu> (j + k)) (\<mu> (Suc (j + k))))"
    have "\<not> stays (\<mu> (j + k)) (\<mu> (Suc (j + k)))" unfolding k_def using ex by (rule LeastI_ex)
    with assms have "body (\<mu> (j + k)) = Some (Inr (Next (\<mu> (Suc (j + k)))))" by blast
    moreover have "body (\<mu> j) = body (\<mu> (j + k))"
      by (rule stays_chain) (use not_less_Least in \<open>force simp: k_def\<close>)
    ultimately show ?thesis using Suc.IH by simp
  qed
qed simp

lemma loop_endless:
  assumes "\<forall>k. step (\<sigma> k) (\<sigma> (Suc k))" "match s (\<sigma> 0)"
  shows "c_loop body s = None"
proof -
  let ?Q = "\<lambda>s s'. stays s s' \<or> body s = Some (Inr (Next s'))"
  have "\<exists>\<mu>. (\<forall>k. (match (\<mu> k) (\<sigma> k) \<and> (k = 0 \<longrightarrow> \<mu> k = s)) \<and> ?Q (\<mu> k) (\<mu> (Suc k)))"
  proof (rule dependent_nat_choice)
    show "\<exists>x. match x (\<sigma> 0) \<and> ((0 :: nat) = 0 \<longrightarrow> x = s)" using assms(2) by blast
    show "\<exists>y. (match y (\<sigma> (Suc k)) \<and> (Suc k = 0 \<longrightarrow> y = s)) \<and> ?Q x y"
      if "match x (\<sigma> k) \<and> (k = 0 \<longrightarrow> x = s)" for x k
      using step_match [of x "\<sigma> k" "\<sigma> (Suc k)"] that assms(1) by blast
  qed
  then obtain \<mu> where \<mu>: "\<mu> 0 = s" "\<forall>k. ?Q (\<mu> k) (\<mu> (Suc k))" by blast
  show ?thesis
  proof (rule ccontr)
    assume "c_loop body s \<noteq> None"
    then obtain r where "c_loop body s = Some r" by blast
    from c_loop_n_complete [OF this] obtain n where "c_loop_n n body s = Some r" ..
    with no_fuel [OF \<mu>(2), of n 0] \<mu>(1) show False by simp
  qed
qed

end

text \<open>A relation that can always go on has an infinite run.\<close>

lemma endless_run:
  assumes "\<And>x. r\<^sup>*\<^sup>* a x \<Longrightarrow> \<exists>y. r x y"
  shows "\<exists>\<sigma>. \<sigma> 0 = a \<and> (\<forall>k. r (\<sigma> k) (\<sigma> (Suc k)))"
proof -
  have "\<exists>\<sigma>. (\<forall>k. (r\<^sup>*\<^sup>* a (\<sigma> k) \<and> (k = 0 \<longrightarrow> \<sigma> k = a)) \<and> r (\<sigma> k) (\<sigma> (Suc k)))"
  proof (rule dependent_nat_choice)
    show "\<exists>y. (r\<^sup>*\<^sup>* a y \<and> (Suc k = 0 \<longrightarrow> y = a)) \<and> r x y" if "r\<^sup>*\<^sup>* a x \<and> (k = 0 \<longrightarrow> x = a)" for x k
      using that assms rtranclp.rtrancl_into_rtrancl by fastforce
  qed blast
  then show ?thesis by blast
qed

text \<open>A loop whose body always goes on.\<close>

lemma c_loop_forever:
  assumes "\<forall>k. body (\<mu> k) = Some (Inr (Next (\<mu> (Suc k))))"
  shows "c_loop body (\<mu> 0) = None"
proof -
  have "c_loop_n n body (\<mu> j) = None" for n j using assms by (induction n arbitrary: j) simp_all
  then show ?thesis using c_loop_n_complete [of body "\<mu> 0"] by (metis not_None_eq option.distinct(1))
qed

end
