(* ===== verification/Interp.thy ===== *)
theory Interp
  imports Host_Float Decode Loops "HOL-Library.Signed_Division"
begin

text \<open>
  The interpreter of \<open>interp.c\<close>. A \<open>FUNC\<close> macro of the source is a combinator here, with
  the macro's expression as its argument; every handler \<open>func_x\<close> has the name it has in C.
  The source redefines \<open>FUNC\<close> for each group of handlers, so the combinators carry the name
  of their group. \<open>funcs\<close> is the table of handlers in the order of the C initialiser.
\<close>

section \<open>Shared fragments\<close>

definition eprint :: "cpu_t \<Rightarrow> debug_msg \<Rightarrow> cpu_t" where
  "eprint s e = s\<lparr>stderr_log := stderr_log s @ [e]\<rparr>"

text \<open>The members \<open>f\<close> and \<open>w\<close> of a floating-point register.\<close>

definition fp_get32 :: "cpu_t \<Rightarrow> i8 \<Rightarrow> u32 res" where
  "fp_get32 s r = bindE (fp_get s r) (\<lambda>v. Inr (fp_get_w v))"

definition fp_set32 :: "cpu_t \<Rightarrow> i8 \<Rightarrow> u32 \<Rightarrow> cpu_t res" where
  "fp_set32 s r w = bindE (fp_get s r) (\<lambda>v. fp_set s r (fp_set_w v w))"

text \<open>Assignments to a destination register that end a handler.\<close>

definition put_gp :: "cpu_t \<Rightarrow> inst_t \<Rightarrow> u64 \<Rightarrow> (cpu_t \<times> inst_t) res" where
  "put_gp s inst v = bindE (gp_set s (rd inst) v) (\<lambda>s'. Inr (s', inst))"

definition put_fp32 :: "cpu_t \<Rightarrow> inst_t \<Rightarrow> u32 \<Rightarrow> (cpu_t \<times> inst_t) res" where
  "put_fp32 s inst v = bindE (fp_set32 s (rd inst) v) (\<lambda>s'. Inr (s', inst))"

definition put_fp64 :: "cpu_t \<Rightarrow> inst_t \<Rightarrow> u64 \<Rightarrow> (cpu_t \<times> inst_t) res" where
  "put_fp64 s inst v = bindE (fp_set s (rd inst) v) (\<lambda>s'. Inr (s', inst))"

text \<open>\<open>(int64_t)(int32_t)x\<close>, and a C comparison used as an integer.\<close>

definition sext32 :: "u64 \<Rightarrow> u64" where
  "sext32 x = scast (ucast x :: i32)"

definition c_bool :: "bool \<Rightarrow> u64" where
  "c_bool b = (if b then 1 else 0)"

definition func_empty :: func_t where
  "func_empty s inst = Inr (s, inst)"

section \<open>Loads\<close>

definition FUNC_load :: "nat \<Rightarrow> (u8 list \<Rightarrow> u64) \<Rightarrow> func_t" where
  "FUNC_load n ty s inst =
     bindE (gp_get s (rs1 inst)) (\<lambda>base.
     let addr = base + scast (imm inst) in
     bindE (load_bytes n (mem s) (TO_HOST addr)) (\<lambda>bs.
     let val = ty bs in
     bindE (gp_set s (rd inst) val) (\<lambda>s'.
     Inr (if rd inst = 1 \<and> val = 0 then eprint s' (Dbg_ra_loaded_0 addr (pc s')) else s', inst))))"

definition func_lb :: func_t where
  [func_defs]: "func_lb = FUNC_load 1 (\<lambda>bs. scast (le_word bs :: i8))"

definition func_lh :: func_t where
  [func_defs]: "func_lh = FUNC_load 2 (\<lambda>bs. scast (le_word bs :: i16))"

definition func_lw :: func_t where
  [func_defs]: "func_lw = FUNC_load 4 (\<lambda>bs. scast (le_word bs :: i32))"

definition func_ld :: func_t where [func_defs]: "func_ld = FUNC_load 8 le_word"

definition func_lbu :: func_t where
  [func_defs]: "func_lbu = FUNC_load 1 (\<lambda>bs. ucast (le_word bs :: u8))"

definition func_lhu :: func_t where
  [func_defs]: "func_lhu = FUNC_load 2 (\<lambda>bs. ucast (le_word bs :: u16))"

definition func_lwu :: func_t where
  [func_defs]: "func_lwu = FUNC_load 4 (\<lambda>bs. ucast (le_word bs :: u32))"

section \<open>Register-immediate arithmetic\<close>

definition FUNC_imm :: "(u64 \<Rightarrow> i64 \<Rightarrow> u64) \<Rightarrow> func_t" where
  "FUNC_imm expr s inst =
     bindE (gp_get s (rs1 inst)) (\<lambda>rs1.
     let res = expr rs1 (scast (imm inst)) in
     bindE (gp_set s (rd inst) res) (\<lambda>s'.
     Inr (if rd inst = 1 \<and> res = 0 then eprint s' (Dbg_ra_alu_0 (pc s')) else s', inst)))"

definition func_addi :: func_t where
  [func_defs]: "func_addi = FUNC_imm (\<lambda>rs1 imm. rs1 + imm)"

definition func_slli :: func_t where
  [func_defs]: "func_slli = FUNC_imm (\<lambda>rs1 imm. push_bit (unat (imm AND 0x3f)) rs1)"

definition func_slti :: func_t where
  [func_defs]: "func_slti = FUNC_imm (\<lambda>rs1 imm. c_bool (sint rs1 < sint imm))"

definition func_sltiu :: func_t where
  [func_defs]: "func_sltiu = FUNC_imm (\<lambda>rs1 imm. c_bool (rs1 < imm))"

definition func_xori :: func_t where
  [func_defs]: "func_xori = FUNC_imm (\<lambda>rs1 imm. rs1 XOR imm)"

definition func_srli :: func_t where
  [func_defs]: "func_srli = FUNC_imm (\<lambda>rs1 imm. drop_bit (unat (imm AND 0x3f)) rs1)"

definition func_srai :: func_t where
  [func_defs]: "func_srai = FUNC_imm (\<lambda>rs1 imm. signed_drop_bit (unat (imm AND 0x3f)) rs1)"

definition func_ori :: func_t where
  [func_defs]: "func_ori = FUNC_imm (\<lambda>rs1 imm. rs1 OR imm)"

definition func_andi :: func_t where
  [func_defs]: "func_andi = FUNC_imm (\<lambda>rs1 imm. rs1 AND imm)"

definition func_addiw :: func_t where
  [func_defs]: "func_addiw = FUNC_imm (\<lambda>rs1 imm. sext32 (rs1 + imm))"

definition func_slliw :: func_t where
  [func_defs]: "func_slliw = FUNC_imm (\<lambda>rs1 imm. sext32 (push_bit (unat (imm AND 0x1f)) rs1))"

definition func_srliw :: func_t where
  [func_defs]: "func_srliw = FUNC_imm (\<lambda>rs1 imm. scast (drop_bit (unat (imm AND 0x1f)) (ucast rs1 :: u32)))"

definition func_sraiw :: func_t where
  [func_defs]: "func_sraiw = FUNC_imm (\<lambda>rs1 imm.
     scast (signed_drop_bit (unat (imm AND 0x1f)) (ucast rs1 :: i32)))"

definition func_auipc :: func_t where
  "func_auipc s inst = put_gp s inst (pc s + scast (imm inst))"

section \<open>Stores\<close>

definition FUNC_store :: "nat \<Rightarrow> func_t" where
  "FUNC_store n s inst =
     bindE (gp_get s (rs1 inst)) (\<lambda>rs1.
     bindE (gp_get s (rs2 inst)) (\<lambda>rs2.
     let addr = rs1 + scast (imm inst) in
     bindE (store_bytes (le_bytes n rs2) (mem s) (TO_HOST addr)) (\<lambda>m.
     let s' = s\<lparr>mem := m\<rparr> in
     Inr (if addr = 0x201bc30 then eprint s' (Dbg_store addr rs2 (pc s')) else s', inst))))"

definition func_sb :: func_t where [func_defs]: "func_sb = FUNC_store 1"

definition func_sh :: func_t where [func_defs]: "func_sh = FUNC_store 2"

definition func_sw :: func_t where [func_defs]: "func_sw = FUNC_store 4"

definition func_sd :: func_t where [func_defs]: "func_sd = FUNC_store 8"

section \<open>Register-register arithmetic\<close>

definition FUNC_reg :: "(u64 \<Rightarrow> u64 \<Rightarrow> u64 res) \<Rightarrow> func_t" where
  "FUNC_reg expr s inst =
     bindE (gp_get s (rs1 inst)) (\<lambda>rs1.
     bindE (gp_get s (rs2 inst)) (\<lambda>rs2.
     bindE (expr rs1 rs2) (\<lambda>res. put_gp s inst res)))"

definition func_add :: func_t where
  [func_defs]: "func_add = FUNC_reg (\<lambda>rs1 rs2. Inr (rs1 + rs2))"

definition func_sll :: func_t where
  [func_defs]: "func_sll = FUNC_reg (\<lambda>rs1 rs2. Inr (push_bit (unat (rs2 AND 0x3f)) rs1))"

definition func_slt :: func_t where
  [func_defs]: "func_slt = FUNC_reg (\<lambda>rs1 rs2. Inr (c_bool (sint rs1 < sint rs2)))"

definition func_sltu :: func_t where
  [func_defs]: "func_sltu = FUNC_reg (\<lambda>rs1 rs2. Inr (c_bool (rs1 < rs2)))"

definition func_xor :: func_t where
  [func_defs]: "func_xor = FUNC_reg (\<lambda>rs1 rs2. Inr (rs1 XOR rs2))"

definition func_srl :: func_t where
  [func_defs]: "func_srl = FUNC_reg (\<lambda>rs1 rs2. Inr (drop_bit (unat (rs2 AND 0x3f)) rs1))"

definition func_or :: func_t where
  [func_defs]: "func_or = FUNC_reg (\<lambda>rs1 rs2. Inr (rs1 OR rs2))"

definition func_and :: func_t where
  [func_defs]: "func_and = FUNC_reg (\<lambda>rs1 rs2. Inr (rs1 AND rs2))"

definition func_mul :: func_t where
  [func_defs]: "func_mul = FUNC_reg (\<lambda>rs1 rs2. Inr (rs1 * rs2))"

definition func_mulh :: func_t where
  [func_defs]: "func_mulh = FUNC_reg (\<lambda>rs1 rs2. Inr (mulh rs1 rs2))"

definition func_mulhsu :: func_t where
  [func_defs]: "func_mulhsu = FUNC_reg (\<lambda>rs1 rs2. Inr (mulhsu rs1 rs2))"

definition func_mulhu :: func_t where
  [func_defs]: "func_mulhu = FUNC_reg (\<lambda>rs1 rs2. Inr (mulhu rs1 rs2))"

definition func_sub :: func_t where
  [func_defs]: "func_sub = FUNC_reg (\<lambda>rs1 rs2. Inr (rs1 - rs2))"

definition func_sra :: func_t where
  [func_defs]: "func_sra = FUNC_reg (\<lambda>rs1 rs2. Inr (signed_drop_bit (unat (rs2 AND 0x3f)) rs1))"

definition func_remu :: func_t where
  [func_defs]: "func_remu = FUNC_reg (\<lambda>rs1 rs2. Inr (if rs2 = 0 then rs1 else rs1 mod rs2))"

definition func_addw :: func_t where
  [func_defs]: "func_addw = FUNC_reg (\<lambda>rs1 rs2. Inr (sext32 (rs1 + rs2)))"

definition func_sllw :: func_t where
  [func_defs]: "func_sllw = FUNC_reg (\<lambda>rs1 rs2. Inr (sext32 (push_bit (unat (rs2 AND 0x1f)) rs1)))"

definition func_srlw :: func_t where
  [func_defs]: "func_srlw = FUNC_reg (\<lambda>rs1 rs2.
     Inr (scast (drop_bit (unat (rs2 AND 0x1f)) (ucast rs1 :: u32))))"

definition func_mulw :: func_t where
  [func_defs]: "func_mulw = FUNC_reg (\<lambda>rs1 rs2. Inr (sext32 (rs1 * rs2)))"

text \<open>
  C's signed \<open>/\<close> and \<open>%\<close> on \<open>int64_t\<close> operands, and the unsigned ones on
  \<open>uint32_t\<close>: a zero divisor traps on the host.
\<close>

definition c_sdiv :: "i64 \<Rightarrow> i64 \<Rightarrow> i64 res" where
  "c_sdiv a b = (if b = 0 then Inl Div_By_Zero else Inr (word_of_int (sint a sdiv sint b)))"

definition c_smod :: "i64 \<Rightarrow> i64 \<Rightarrow> i64 res" where
  "c_smod a b = (if b = 0 then Inl Div_By_Zero else Inr (word_of_int (sint a smod sint b)))"

definition c_udiv32 :: "u32 \<Rightarrow> u32 \<Rightarrow> u32 res" where
  "c_udiv32 a b = (if b = 0 then Inl Div_By_Zero else Inr (a div b))"

definition c_umod32 :: "u32 \<Rightarrow> u32 \<Rightarrow> u32 res" where
  "c_umod32 a b = (if b = 0 then Inl Div_By_Zero else Inr (a mod b))"

definition func_divw :: func_t where
  [func_defs]: "func_divw = FUNC_reg (\<lambda>rs1 rs2.
     if rs2 = 0 then Inr (- 1)
     else bindE (c_sdiv (sext32 rs1) (sext32 rs2)) (\<lambda>q. Inr (sext32 q)))"

definition func_divuw :: func_t where
  [func_defs]: "func_divuw = FUNC_reg (\<lambda>rs1 rs2.
     if rs2 = 0 then Inr (- 1)
     else bindE (c_udiv32 (ucast rs1) (ucast rs2)) (\<lambda>q. Inr (scast q)))"

definition func_remw :: func_t where
  [func_defs]: "func_remw = FUNC_reg (\<lambda>rs1 rs2.
     if rs2 = 0 then Inr (sext32 rs1)
     else bindE (c_smod (sext32 rs1) (sext32 rs2)) (\<lambda>r. Inr (sext32 r)))"

definition func_remuw :: func_t where
  [func_defs]: "func_remuw = FUNC_reg (\<lambda>rs1 rs2.
     if rs2 = 0 then Inr (sext32 rs1)
     else bindE (c_umod32 (ucast rs1) (ucast rs2)) (\<lambda>r. Inr (scast r)))"

definition func_subw :: func_t where
  [func_defs]: "func_subw = FUNC_reg (\<lambda>rs1 rs2. Inr (sext32 (rs1 - rs2)))"

definition func_sraw :: func_t where
  [func_defs]: "func_sraw = FUNC_reg (\<lambda>rs1 rs2.
     Inr (scast (signed_drop_bit (unat (rs2 AND 0x1f)) (ucast rs1 :: i32))))"

definition INT64_MIN :: i64 where "INT64_MIN = 0x8000000000000000"

definition func_div :: func_t where
  [func_defs]: "func_div = FUNC_reg (\<lambda>rs1 rs2.
     if rs2 = 0 then Inr (- 1)
     else if rs1 = INT64_MIN \<and> rs2 = - 1 then Inr INT64_MIN
     else c_sdiv rs1 rs2)"

definition func_divu :: func_t where
  [func_defs]: "func_divu = FUNC_reg (\<lambda>rs1 rs2. if rs2 = 0 then Inr (- 1) else Inr (rs1 div rs2))"

definition func_rem :: func_t where
  [func_defs]: "func_rem = FUNC_reg (\<lambda>rs1 rs2.
     if rs2 = 0 then Inr rs1
     else if rs1 = INT64_MIN \<and> rs2 = - 1 then Inr 0
     else c_smod rs1 rs2)"

definition func_lui :: func_t where
  "func_lui s inst = put_gp s inst (scast (imm inst))"

section \<open>Control transfer\<close>

definition FUNC_branch :: "(u64 \<Rightarrow> u64 \<Rightarrow> bool) \<Rightarrow> func_t" where
  "FUNC_branch expr s inst =
     bindE (gp_get s (rs1 inst)) (\<lambda>rs1.
     bindE (gp_get s (rs2 inst)) (\<lambda>rs2.
     let target_addr = pc s + scast (imm inst) in
     Inr (if expr rs1 rs2
       then (s\<lparr>pc := target_addr, reenter_pc := target_addr, exit_reason := direct_branch\<rparr>,
             inst\<lparr>continue_exec := True\<rparr>)
       else (s, inst))))"

definition func_beq :: func_t where
  [func_defs]: "func_beq = FUNC_branch (\<lambda>rs1 rs2. rs1 = rs2)"

definition func_bne :: func_t where
  [func_defs]: "func_bne = FUNC_branch (\<lambda>rs1 rs2. rs1 \<noteq> rs2)"

definition func_blt :: func_t where
  [func_defs]: "func_blt = FUNC_branch (\<lambda>rs1 rs2. sint rs1 < sint rs2)"

definition func_bge :: func_t where
  [func_defs]: "func_bge = FUNC_branch (\<lambda>rs1 rs2. sint rs1 \<ge> sint rs2)"

definition func_bltu :: func_t where
  [func_defs]: "func_bltu = FUNC_branch (\<lambda>rs1 rs2. rs1 < rs2)"

definition func_bgeu :: func_t where
  [func_defs]: "func_bgeu = FUNC_branch (\<lambda>rs1 rs2. rs1 \<ge> rs2)"

definition inst_len :: "inst_t \<Rightarrow> u64" where
  "inst_len inst = (if rvc inst then 2 else 4)"

definition func_jalr :: func_t where
  "func_jalr s inst =
     bindE (gp_get s (rs1 inst)) (\<lambda>rs1v.
     bindE (gp_set s (rd inst) (pc s + inst_len inst)) (\<lambda>s1.
     let s2 = s1\<lparr>exit_reason := indirect_branch,
                 reenter_pc := (rs1v + scast (imm inst)) AND NOT 1\<rparr> in
     if reenter_pc s2 = 0 then
       bindE (gp_get s2 2) (\<lambda>spv.
       let s3 = eprint s2 (Dbg_jalr_0 (pc s2) (rs1 inst) rs1v (imm inst) spv) in
       bindE (load_bytes 4 (mem s3) (TO_HOST (pc s3))) (\<lambda>p.
       Inr (eprint s3 (Dbg_inst_bytes p), inst)))
     else Inr (s2, inst)))"

definition func_jal :: func_t where
  "func_jal s inst =
     bindE (gp_set s (rd inst) (pc s + inst_len inst)) (\<lambda>s1.
     let target = pc s1 + scast (imm inst) in
     Inr (s1\<lparr>pc := target, reenter_pc := target, exit_reason := direct_branch\<rparr>, inst))"

definition func_ecall :: func_t where
  "func_ecall s inst = Inr (s\<lparr>exit_reason := ecall, reenter_pc := pc s + 4\<rparr>, inst)"

section \<open>Control and status registers\<close>

definition FUNC_csr :: func_t where
  "FUNC_csr s inst =
     bindE (switch (csr inst) [(fflags, Inr ()), (frm, Inr ()), (fcsr, Inr ())]
       (Inl (Fatal ''unsupported csr''))) (\<lambda>_. put_gp s inst 0)"

definition func_csrrw :: func_t where [func_defs]: "func_csrrw = FUNC_csr"

definition func_csrrs :: func_t where [func_defs]: "func_csrrs = FUNC_csr"

definition func_csrrc :: func_t where [func_defs]: "func_csrrc = FUNC_csr"

definition func_csrrwi :: func_t where [func_defs]: "func_csrrwi = FUNC_csr"

definition func_csrrsi :: func_t where [func_defs]: "func_csrrsi = FUNC_csr"

definition func_csrrci :: func_t where [func_defs]: "func_csrrci = FUNC_csr"

section \<open>Floating-point loads and stores\<close>

text \<open>\<open>x | ((uint64_t)-1 << 32)\<close>\<close>

definition nan_box :: "u32 \<Rightarrow> u64" where
  "nan_box w = ucast w OR push_bit 32 (- 1)"

definition func_flw :: func_t where
  "func_flw s inst =
     bindE (gp_get s (rs1 inst)) (\<lambda>base.
     let addr = base + scast (imm inst) in
     bindE (load_bytes 4 (mem s) (TO_HOST addr)) (\<lambda>bs.
     put_fp64 s inst (nan_box (le_word bs))))"

definition func_fld :: func_t where
  "func_fld s inst =
     bindE (gp_get s (rs1 inst)) (\<lambda>base.
     let addr = base + scast (imm inst) in
     bindE (load_bytes 8 (mem s) (TO_HOST addr)) (\<lambda>bs.
     put_fp64 s inst (le_word bs)))"

definition FUNC_fstore :: "nat \<Rightarrow> func_t" where
  "FUNC_fstore n s inst =
     bindE (gp_get s (rs1 inst)) (\<lambda>rs1.
     bindE (fp_get s (rs2 inst)) (\<lambda>rs2.
     bindE (store_bytes (le_bytes n rs2) (mem s) (TO_HOST (rs1 + scast (imm inst)))) (\<lambda>m.
     Inr (s\<lparr>mem := m\<rparr>, inst))))"

definition func_fsw :: func_t where [func_defs]: "func_fsw = FUNC_fstore 4"

definition func_fsd :: func_t where [func_defs]: "func_fsd = FUNC_fstore 8"

section \<open>Floating-point arithmetic\<close>

definition FUNC_fma_s :: "(u32 \<Rightarrow> u32 \<Rightarrow> u32 \<Rightarrow> u32) \<Rightarrow> func_t" where
  "FUNC_fma_s expr s inst =
     bindE (fp_get32 s (rs1 inst)) (\<lambda>rs1.
     bindE (fp_get32 s (rs2 inst)) (\<lambda>rs2.
     bindE (fp_get32 s (rs3 inst)) (\<lambda>rs3.
     put_fp32 s inst (expr rs1 rs2 rs3))))"

definition FUNC_fma_d :: "(u64 \<Rightarrow> u64 \<Rightarrow> u64 \<Rightarrow> u64) \<Rightarrow> func_t" where
  "FUNC_fma_d expr s inst =
     bindE (fp_get s (rs1 inst)) (\<lambda>rs1.
     bindE (fp_get s (rs2 inst)) (\<lambda>rs2.
     bindE (fp_get s (rs3 inst)) (\<lambda>rs3.
     put_fp64 s inst (expr rs1 rs2 rs3))))"

definition FUNC_fp_s :: "(u32 \<Rightarrow> u32 \<Rightarrow> u32) \<Rightarrow> func_t" where
  "FUNC_fp_s expr s inst =
     bindE (fp_get32 s (rs1 inst)) (\<lambda>rs1.
     bindE (fp_get32 s (rs2 inst)) (\<lambda>rs2.
     put_fp32 s inst (expr rs1 rs2)))"

definition FUNC_fp_d :: "(u64 \<Rightarrow> u64 \<Rightarrow> u64) \<Rightarrow> func_t" where
  "FUNC_fp_d expr s inst =
     bindE (fp_get s (rs1 inst)) (\<lambda>rs1.
     bindE (fp_get s (rs2 inst)) (\<lambda>rs2.
     put_fp64 s inst (expr rs1 rs2)))"

definition FUNC_fsgnj_s :: "bool \<Rightarrow> bool \<Rightarrow> func_t" where
  "FUNC_fsgnj_s n x s inst =
     bindE (fp_get32 s (rs1 inst)) (\<lambda>rs1.
     bindE (fp_get32 s (rs2 inst)) (\<lambda>rs2.
     put_fp64 s inst (nan_box (fsgnj32 rs1 rs2 n x))))"

definition FUNC_fsgnj_d :: "bool \<Rightarrow> bool \<Rightarrow> func_t" where
  "FUNC_fsgnj_d n x s inst =
     bindE (fp_get s (rs1 inst)) (\<lambda>rs1.
     bindE (fp_get s (rs2 inst)) (\<lambda>rs2.
     put_fp64 s inst (fsgnj64 rs1 rs2 n x)))"

definition FUNC_fcmp_s :: "(u32 \<Rightarrow> u32 \<Rightarrow> bool) \<Rightarrow> func_t" where
  "FUNC_fcmp_s expr s inst =
     bindE (fp_get32 s (rs1 inst)) (\<lambda>rs1.
     bindE (fp_get32 s (rs2 inst)) (\<lambda>rs2.
     put_gp s inst (c_bool (expr rs1 rs2))))"

definition FUNC_fcmp_d :: "(u64 \<Rightarrow> u64 \<Rightarrow> bool) \<Rightarrow> func_t" where
  "FUNC_fcmp_d expr s inst =
     bindE (fp_get s (rs1 inst)) (\<lambda>rs1.
     bindE (fp_get s (rs2 inst)) (\<lambda>rs2.
     put_gp s inst (c_bool (expr rs1 rs2))))"

text \<open>The one-operand conversions, moves and classifications, by the files they connect.\<close>

definition s_to_x :: "(u32 \<Rightarrow> u64) \<Rightarrow> func_t" where
  "s_to_x f s inst = bindE (fp_get32 s (rs1 inst)) (\<lambda>v. put_gp s inst (f v))"

definition d_to_x :: "(u64 \<Rightarrow> u64) \<Rightarrow> func_t" where
  "d_to_x f s inst = bindE (fp_get s (rs1 inst)) (\<lambda>v. put_gp s inst (f v))"

definition x_to_s :: "(u64 \<Rightarrow> u32) \<Rightarrow> func_t" where
  "x_to_s f s inst = bindE (gp_get s (rs1 inst)) (\<lambda>v. put_fp32 s inst (f v))"

definition x_to_d :: "(u64 \<Rightarrow> u64) \<Rightarrow> func_t" where
  "x_to_d f s inst = bindE (gp_get s (rs1 inst)) (\<lambda>v. put_fp64 s inst (f v))"

definition func_fmadd_s :: func_t where
  [func_defs]: "func_fmadd_s = FUNC_fma_s (\<lambda>rs1 rs2 rs3. f32_op2 f_add (f32_op2 f_mul rs1 rs2) rs3)"

definition func_fmsub_s :: func_t where
  [func_defs]: "func_fmsub_s = FUNC_fma_s (\<lambda>rs1 rs2 rs3. f32_op2 f_sub (f32_op2 f_mul rs1 rs2) rs3)"

definition func_fnmsub_s :: func_t where
  [func_defs]: "func_fnmsub_s = FUNC_fma_s (\<lambda>rs1 rs2 rs3. f32_op2 f_add (f32_neg (f32_op2 f_mul rs1 rs2)) rs3)"

definition func_fnmadd_s :: func_t where
  [func_defs]: "func_fnmadd_s = FUNC_fma_s (\<lambda>rs1 rs2 rs3. f32_op2 f_sub (f32_neg (f32_op2 f_mul rs1 rs2)) rs3)"

definition func_fmadd_d :: func_t where
  [func_defs]: "func_fmadd_d = FUNC_fma_d (\<lambda>rs1 rs2 rs3. f64_op2 f_add (f64_op2 f_mul rs1 rs2) rs3)"

definition func_fmsub_d :: func_t where
  [func_defs]: "func_fmsub_d = FUNC_fma_d (\<lambda>rs1 rs2 rs3. f64_op2 f_sub (f64_op2 f_mul rs1 rs2) rs3)"

definition func_fnmsub_d :: func_t where
  [func_defs]: "func_fnmsub_d = FUNC_fma_d (\<lambda>rs1 rs2 rs3. f64_op2 f_add (f64_neg (f64_op2 f_mul rs1 rs2)) rs3)"

definition func_fnmadd_d :: func_t where
  [func_defs]: "func_fnmadd_d = FUNC_fma_d (\<lambda>rs1 rs2 rs3. f64_op2 f_sub (f64_neg (f64_op2 f_mul rs1 rs2)) rs3)"

definition func_fadd_s :: func_t where [func_defs]: "func_fadd_s = FUNC_fp_s (f32_op2 f_add)"

definition func_fsub_s :: func_t where [func_defs]: "func_fsub_s = FUNC_fp_s (f32_op2 f_sub)"

definition func_fmul_s :: func_t where [func_defs]: "func_fmul_s = FUNC_fp_s (f32_op2 f_mul)"

definition func_fdiv_s :: func_t where [func_defs]: "func_fdiv_s = FUNC_fp_s (f32_op2 f_div)"

definition func_fsqrt_s :: func_t where
  [func_defs]: "func_fsqrt_s = FUNC_fp_s (\<lambda>rs1 rs2. sqrtf rs1)"

definition func_fmin_s :: func_t where
  [func_defs]: "func_fmin_s = FUNC_fp_s (\<lambda>rs1 rs2. if f32_lt rs1 rs2 then rs1 else rs2)"

definition func_fmax_s :: func_t where
  [func_defs]: "func_fmax_s = FUNC_fp_s (\<lambda>rs1 rs2. if f32_lt rs2 rs1 then rs1 else rs2)"

definition func_fadd_d :: func_t where [func_defs]: "func_fadd_d = FUNC_fp_d (f64_op2 f_add)"

definition func_fsub_d :: func_t where [func_defs]: "func_fsub_d = FUNC_fp_d (f64_op2 f_sub)"

definition func_fmul_d :: func_t where [func_defs]: "func_fmul_d = FUNC_fp_d (f64_op2 f_mul)"

definition func_fdiv_d :: func_t where [func_defs]: "func_fdiv_d = FUNC_fp_d (f64_op2 f_div)"

definition func_fsqrt_d :: func_t where
  [func_defs]: "func_fsqrt_d = FUNC_fp_d (\<lambda>rs1 rs2. sqrt_d rs1)"

definition func_fmin_d :: func_t where
  [func_defs]: "func_fmin_d = FUNC_fp_d (\<lambda>rs1 rs2. if f64_lt rs1 rs2 then rs1 else rs2)"

definition func_fmax_d :: func_t where
  [func_defs]: "func_fmax_d = FUNC_fp_d (\<lambda>rs1 rs2. if f64_lt rs2 rs1 then rs1 else rs2)"

definition func_fsgnj_s :: func_t where [func_defs]: "func_fsgnj_s = FUNC_fsgnj_s False False"

definition func_fsgnjn_s :: func_t where [func_defs]: "func_fsgnjn_s = FUNC_fsgnj_s True False"

definition func_fsgnjx_s :: func_t where [func_defs]: "func_fsgnjx_s = FUNC_fsgnj_s False True"

definition func_fsgnj_d :: func_t where [func_defs]: "func_fsgnj_d = FUNC_fsgnj_d False False"

definition func_fsgnjn_d :: func_t where [func_defs]: "func_fsgnjn_d = FUNC_fsgnj_d True False"

definition func_fsgnjx_d :: func_t where [func_defs]: "func_fsgnjx_d = FUNC_fsgnj_d False True"

section \<open>Conversions, moves, comparisons, classification\<close>

definition func_fcvt_w_s :: func_t where
  [func_defs]: "func_fcvt_w_s = s_to_x (\<lambda>f. sext32 (llrintf f))"

definition func_fcvt_wu_s :: func_t where
  [func_defs]: "func_fcvt_wu_s = s_to_x (\<lambda>f. sext32 (llrintf f))"

definition func_fcvt_w_d :: func_t where
  [func_defs]: "func_fcvt_w_d = d_to_x (\<lambda>d. sext32 (llrint d))"

definition func_fcvt_wu_d :: func_t where
  [func_defs]: "func_fcvt_wu_d = d_to_x (\<lambda>d. sext32 (llrint d))"

definition func_fcvt_s_w :: func_t where
  [func_defs]: "func_fcvt_s_w = x_to_s (\<lambda>v. int_to_f32 (sint (ucast v :: i32)))"

definition func_fcvt_s_wu :: func_t where
  [func_defs]: "func_fcvt_s_wu = x_to_s (\<lambda>v. int_to_f32 (uint (ucast v :: u32)))"

definition func_fcvt_d_w :: func_t where
  [func_defs]: "func_fcvt_d_w = x_to_d (\<lambda>v. int_to_f64 (sint (ucast v :: i32)))"

definition func_fcvt_d_wu :: func_t where
  [func_defs]: "func_fcvt_d_wu = x_to_d (\<lambda>v. int_to_f64 (uint (ucast v :: u32)))"

definition func_fmv_x_w :: func_t where [func_defs]: "func_fmv_x_w = s_to_x (\<lambda>w. scast w)"

definition func_fmv_w_x :: func_t where [func_defs]: "func_fmv_w_x = x_to_s (\<lambda>v. ucast v)"

definition func_fmv_x_d :: func_t where [func_defs]: "func_fmv_x_d = d_to_x (\<lambda>v. v)"

definition func_fmv_d_x :: func_t where [func_defs]: "func_fmv_d_x = x_to_d (\<lambda>v. v)"

definition func_feq_s :: func_t where [func_defs]: "func_feq_s = FUNC_fcmp_s f32_eq"

definition func_flt_s :: func_t where [func_defs]: "func_flt_s = FUNC_fcmp_s f32_lt"

definition func_fle_s :: func_t where
  [func_defs]: "func_fle_s = FUNC_fcmp_s (\<lambda>rs1 rs2. f32_lt rs1 rs2 \<or> f32_eq rs1 rs2)"

definition func_feq_d :: func_t where [func_defs]: "func_feq_d = FUNC_fcmp_d f64_eq"

definition func_flt_d :: func_t where [func_defs]: "func_flt_d = FUNC_fcmp_d f64_lt"

definition func_fle_d :: func_t where
  [func_defs]: "func_fle_d = FUNC_fcmp_d (\<lambda>rs1 rs2. f64_lt rs1 rs2 \<or> f64_eq rs1 rs2)"

definition func_fclass_s :: func_t where
  [func_defs]: "func_fclass_s = s_to_x (\<lambda>f. ucast (f32_classify f))"

definition func_fclass_d :: func_t where
  [func_defs]: "func_fclass_d = d_to_x (\<lambda>d. ucast (f64_classify d))"

definition func_fcvt_l_s :: func_t where [func_defs]: "func_fcvt_l_s = s_to_x llrintf"

definition func_fcvt_lu_s :: func_t where [func_defs]: "func_fcvt_lu_s = s_to_x llrintf"

definition func_fcvt_l_d :: func_t where [func_defs]: "func_fcvt_l_d = d_to_x llrint"

definition func_fcvt_lu_d :: func_t where [func_defs]: "func_fcvt_lu_d = d_to_x llrint"

definition func_fcvt_s_l :: func_t where
  [func_defs]: "func_fcvt_s_l = x_to_s (\<lambda>v. int_to_f32 (sint v))"

definition func_fcvt_s_lu :: func_t where
  [func_defs]: "func_fcvt_s_lu = x_to_s (\<lambda>v. int_to_f32 (uint v))"

definition func_fcvt_d_l :: func_t where
  [func_defs]: "func_fcvt_d_l = x_to_d (\<lambda>v. int_to_f64 (sint v))"

definition func_fcvt_d_lu :: func_t where
  [func_defs]: "func_fcvt_d_lu = x_to_d (\<lambda>v. int_to_f64 (uint v))"

definition func_fcvt_s_d :: func_t where
  "func_fcvt_s_d s inst = bindE (fp_get s (rs1 inst)) (\<lambda>v. put_fp32 s inst (f64_to_f32 v))"

definition func_fcvt_d_s :: func_t where
  "func_fcvt_d_s s inst = bindE (fp_get32 s (rs1 inst)) (\<lambda>v. put_fp64 s inst (f32_to_f64 v))"

section \<open>The table of handlers\<close>

definition funcs :: "func_t list" where
  "funcs = [
    func_lb, func_lh, func_lw, func_ld, func_lbu, func_lhu, func_lwu, func_empty, func_empty,
    func_addi, func_slli, func_slti, func_sltiu, func_xori, func_srli, func_srai, func_ori,
    func_andi, func_auipc, func_addiw, func_slliw, func_srliw, func_sraiw, func_sb, func_sh,
    func_sw, func_sd, func_add, func_sll, func_slt, func_sltu, func_xor, func_srl, func_or,
    func_and, func_mul, func_mulh, func_mulhsu, func_mulhu, func_div, func_divu, func_rem,
    func_remu, func_sub, func_sra, func_lui, func_addw, func_sllw, func_srlw, func_mulw,
    func_divw, func_divuw, func_remw, func_remuw, func_subw, func_sraw, func_beq, func_bne,
    func_blt, func_bge, func_bltu, func_bgeu, func_jalr, func_jal, func_ecall, func_csrrw,
    func_csrrs, func_csrrc, func_csrrwi, func_csrrsi, func_csrrci, func_flw, func_fsw,
    func_fmadd_s, func_fmsub_s, func_fnmsub_s, func_fnmadd_s, func_fadd_s, func_fsub_s,
    func_fmul_s, func_fdiv_s, func_fsqrt_s, func_fsgnj_s, func_fsgnjn_s, func_fsgnjx_s,
    func_fmin_s, func_fmax_s, func_fcvt_w_s, func_fcvt_wu_s, func_fmv_x_w, func_feq_s,
    func_flt_s, func_fle_s, func_fclass_s, func_fcvt_s_w, func_fcvt_s_wu, func_fmv_w_x,
    func_fcvt_l_s, func_fcvt_lu_s, func_fcvt_s_l, func_fcvt_s_lu, func_fld, func_fsd,
    func_fmadd_d, func_fmsub_d, func_fnmsub_d, func_fnmadd_d, func_fadd_d, func_fsub_d,
    func_fmul_d, func_fdiv_d, func_fsqrt_d, func_fsgnj_d, func_fsgnjn_d, func_fsgnjx_d,
    func_fmin_d, func_fmax_d, func_fcvt_s_d, func_fcvt_d_s, func_feq_d, func_flt_d, func_fle_d,
    func_fclass_d, func_fcvt_w_d, func_fcvt_wu_d, func_fcvt_d_w, func_fcvt_d_wu, func_fcvt_l_d,
    func_fcvt_lu_d, func_fmv_x_d, func_fcvt_d_l, func_fcvt_d_lu, func_fmv_d_x]"

definition int_names :: "(inst_type_t \<times> string) list" where
  "int_names = [
    (inst_lb, ''lb''), (inst_lh, ''lh''), (inst_lw, ''lw''), (inst_ld, ''ld''),
    (inst_lbu, ''lbu''), (inst_lhu, ''lhu''), (inst_lwu, ''lwu''), (inst_fence, ''fence''),
    (inst_fence_i, ''fence_i''), (inst_addi, ''addi''), (inst_slli, ''slli''),
    (inst_slti, ''slti''), (inst_sltiu, ''sltiu''), (inst_xori, ''xori''),
    (inst_srli, ''srli''), (inst_srai, ''srai''), (inst_ori, ''ori''), (inst_andi, ''andi''),
    (inst_auipc, ''auipc''), (inst_addiw, ''addiw''), (inst_slliw, ''slliw''),
    (inst_srliw, ''srliw''), (inst_sraiw, ''sraiw''), (inst_sb, ''sb''), (inst_sh, ''sh''),
    (inst_sw, ''sw''), (inst_sd, ''sd''), (inst_add, ''add''), (inst_sll, ''sll''),
    (inst_slt, ''slt''), (inst_sltu, ''sltu''), (inst_xor, ''xor''), (inst_srl, ''srl''),
    (inst_or, ''or''), (inst_and, ''and''), (inst_mul, ''mul''), (inst_mulh, ''mulh''),
    (inst_mulhsu, ''mulhsu''), (inst_mulhu, ''mulhu''), (inst_div, ''div''),
    (inst_divu, ''divu''), (inst_rem, ''rem''), (inst_remu, ''remu''), (inst_sub, ''sub''),
    (inst_sra, ''sra''), (inst_lui, ''lui''), (inst_addw, ''addw''), (inst_sllw, ''sllw''),
    (inst_srlw, ''srlw''), (inst_mulw, ''mulw''), (inst_divw, ''divw''),
    (inst_divuw, ''divuw''), (inst_remw, ''remw''), (inst_remuw, ''remuw''),
    (inst_subw, ''subw''), (inst_sraw, ''sraw''), (inst_beq, ''beq''), (inst_bne, ''bne''),
    (inst_blt, ''blt''), (inst_bge, ''bge''), (inst_bltu, ''bltu''), (inst_bgeu, ''bgeu''),
    (inst_jalr, ''jalr''), (inst_jal, ''jal''), (inst_ecall, ''ecall''),
    (inst_csrrc, ''csrrc''), (inst_csrrci, ''csrrci''), (inst_csrrs, ''csrrs''),
    (inst_csrrsi, ''csrrsi''), (inst_csrrw, ''csrrw''), (inst_csrrwi, ''csrrwi'')]"

definition fp_names :: "(inst_type_t \<times> string) list" where
  "fp_names = [
    (inst_flw, ''flw''), (inst_fsw, ''fsw''), (inst_fmadd_s, ''fmadd_s''),
    (inst_fmsub_s, ''fmsub_s''), (inst_fnmsub_s, ''fnmsub_s''), (inst_fnmadd_s, ''fnmadd_s''),
    (inst_fadd_s, ''fadd_s''), (inst_fsub_s, ''fsub_s''), (inst_fmul_s, ''fmul_s''),
    (inst_fdiv_s, ''fdiv_s''), (inst_fsqrt_s, ''fsqrt_s''), (inst_fsgnj_s, ''fsgnj_s''),
    (inst_fsgnjn_s, ''fsgnjn_s''), (inst_fsgnjx_s, ''fsgnjx_s''), (inst_fmin_s, ''fmin_s''),
    (inst_fmax_s, ''fmax_s''), (inst_fcvt_w_s, ''fcvt_w_s''), (inst_fcvt_wu_s, ''fcvt_wu_s''),
    (inst_fmv_x_w, ''fmv_x_w''), (inst_feq_s, ''feq_s''), (inst_flt_s, ''flt_s''),
    (inst_fle_s, ''fle_s''), (inst_fclass_s, ''fclass_s''), (inst_fcvt_s_w, ''fcvt_s_w''),
    (inst_fcvt_s_wu, ''fcvt_s_wu''), (inst_fmv_w_x, ''fmv_w_x''),
    (inst_fcvt_l_s, ''fcvt_l_s''), (inst_fcvt_lu_s, ''fcvt_lu_s''),
    (inst_fcvt_s_l, ''fcvt_s_l''), (inst_fcvt_s_lu, ''fcvt_s_lu''), (inst_fld, ''fld''),
    (inst_fsd, ''fsd''), (inst_fmadd_d, ''fmadd_d''), (inst_fmsub_d, ''fmsub_d''),
    (inst_fnmsub_d, ''fnmsub_d''), (inst_fnmadd_d, ''fnmadd_d''), (inst_fadd_d, ''fadd_d''),
    (inst_fsub_d, ''fsub_d''), (inst_fmul_d, ''fmul_d''), (inst_fdiv_d, ''fdiv_d''),
    (inst_fsqrt_d, ''fsqrt_d''), (inst_fsgnj_d, ''fsgnj_d''), (inst_fsgnjn_d, ''fsgnjn_d''),
    (inst_fsgnjx_d, ''fsgnjx_d''), (inst_fmin_d, ''fmin_d''), (inst_fmax_d, ''fmax_d''),
    (inst_fcvt_s_d, ''fcvt_s_d''), (inst_fcvt_d_s, ''fcvt_d_s''), (inst_feq_d, ''feq_d''),
    (inst_flt_d, ''flt_d''), (inst_fle_d, ''fle_d''), (inst_fclass_d, ''fclass_d''),
    (inst_fcvt_w_d, ''fcvt_w_d''), (inst_fcvt_wu_d, ''fcvt_wu_d''),
    (inst_fcvt_d_w, ''fcvt_d_w''), (inst_fcvt_d_wu, ''fcvt_d_wu''),
    (inst_fcvt_l_d, ''fcvt_l_d''), (inst_fcvt_lu_d, ''fcvt_lu_d''),
    (inst_fmv_x_d, ''fmv_x_d''), (inst_fcvt_d_l, ''fcvt_d_l''),
    (inst_fcvt_d_lu, ''fcvt_d_lu''), (inst_fmv_d_x, ''fmv_d_x'')]"

definition inst_type_name :: "inst_type_t \<Rightarrow> string" where
  "inst_type_name type = switch type (int_names @ fp_names) ''unknown''"

section \<open>The loop\<close>

text \<open>\<open>funcs[inst.type](state, &inst)\<close>\<close>

definition dispatch :: func_t where
  "dispatch s inst =
     (if itype inst < length funcs then (funcs ! itype inst) s inst
      else Inl (Index_Out_Of_Range (int (itype inst))))"

text \<open>
  One iteration of the loop. \<open>inst\<close> is \<open>static\<close> in the C function: its value at the end
  of one call is its value at the start of the next, so it is part of the state of the loop and
  of its result.
\<close>

definition interp_step :: "cpu_t \<times> inst_t \<Rightarrow> (cpu_t \<times> inst_t, cpu_t \<times> inst_t) ctl res" where
  "interp_step = (\<lambda>(s, inst).
     bindE (load_bytes 4 (mem s) (TO_HOST (pc s))) (\<lambda>raw_data.
     bindE (decode_inst inst (le_word raw_data)) (\<lambda>inst1.
     bindE (dispatch s inst1) (\<lambda>(s1, inst2).
     let s2 = s1\<lparr>gp_regs := (gp_regs s1)(reg_zero := 0)\<rparr> in
     if continue_exec inst2 then Inr (Break (s2, inst2))
     else Inr (Next (s2\<lparr>pc := pc s2 + inst_len inst2\<rparr>, inst2))))))"

definition exec_block_interp :: "cpu_t \<times> inst_t \<Rightarrow> (cpu_t \<times> inst_t) res option" where
  "exec_block_interp = c_loop (\<lambda>x. Some (interp_step x))"

end
