(* ===== verification/Decode_WF.thy ===== *)
theory Decode_WF
  imports Decode
begin

text \<open>
  What every successfully decoded instruction satisfies: its register numbers are inside the
  register files, its type is an index of the handler table, only jumps and \<open>ecall\<close> end a
  block unconditionally, and the offsets of direct jumps and branches are even. \<open>Block\<close>
  builds the contract of the interpreter loop on these facts.
\<close>

section \<open>Well-formed instructions\<close>

definition regs_ok :: "inst_t \<Rightarrow> bool" where
  "regs_ok i \<longleftrightarrow> unat (rd i) < 32 \<and> unat (rs1 i) < 32 \<and> unat (rs2 i) < 32 \<and> unat (rs3 i) < 32"

definition is_branch :: "inst_type_t \<Rightarrow> bool" where
  "is_branch t \<longleftrightarrow> inst_beq \<le> t \<and> t \<le> inst_bgeu"

definition is_jump :: "inst_type_t \<Rightarrow> bool" where
  "is_jump t \<longleftrightarrow> t = inst_jal \<or> t = inst_jalr \<or> t = inst_ecall"

definition wf_inst :: "inst_t \<Rightarrow> bool" where
  "wf_inst i \<longleftrightarrow> regs_ok i \<and> itype i < num_insns \<and> continue_exec i = is_jump (itype i) \<and>
     (is_branch (itype i) \<or> itype i = inst_jal \<longrightarrow> even (imm i))"

lemmas class_defs = is_jump_def is_branch_def rv_enum

lemma wf_instD:
  assumes "wf_inst i"
  shows "unat (rd i) < 32" "unat (rs1 i) < 32" "unat (rs2 i) < 32" "unat (rs3 i) < 32"
    "itype i < num_insns" "continue_exec i = is_jump (itype i)"
  using assms by (simp_all add: wf_inst_def regs_ok_def)

section \<open>Fields and readers\<close>

lemma reg_field [simp]:
  "unat (ucast (RD d) :: u8) < 32" "unat (ucast (RS1 d) :: u8) < 32"
  "unat (ucast (RS2 d) :: u8) < 32" "unat (ucast (RS3 d) :: u8) < 32"
  "unat (ucast (RC1 d) :: u8) < 32" "unat (ucast (RC2 d) :: u8) < 32"
  by (simp_all add: field_defs unat_ucast_and_less)

lemma RP_le: "RP1 d \<le> 7" "RP2 d \<le> 7"
  by (simp_all add: field_defs word_and_le1)

lemma unat_ucast_prime:
  assumes "x \<le> 7"
  shows "unat (ucast (x + 8 :: u32) :: u8) < 32"
proof -
  have "unat (x + 8) < 16" using assms by unat_arith
  with unat_ucast_le [of "x + 8", where 'b = 8] show ?thesis by simp
qed

lemma rp_field [simp]:
  "unat (ucast (RP1 d + 8) :: u8) < 32" "unat (ucast (RP2 d + 8) :: u8) < 32"
  by (simp_all add: unat_ucast_prime RP_le)

lemma inst_zero_sel [simp]:
  "rd inst_zero = 0" "rs1 inst_zero = 0" "rs2 inst_zero = 0" "rs3 inst_zero = 0"
  "imm inst_zero = 0" "csr inst_zero = 0" "\<not> rvc inst_zero" "\<not> continue_exec inst_zero"
  by (simp_all add: inst_zero_def)

text \<open>What a reader returns: registers in range and no jump.\<close>

definition plain :: "inst_t \<Rightarrow> bool" where
  "plain i \<longleftrightarrow> regs_ok i \<and> \<not> continue_exec i"

lemma plain_inst_zero [simp]: "plain inst_zero"
  by (simp add: plain_def regs_ok_def)

lemma plain_readers [simp]:
  "plain (inst_utype_read d)" "plain (inst_itype_read d)" "plain (inst_jtype_read d)"
  "plain (inst_btype_read d)" "plain (inst_rtype_read d)" "plain (inst_stype_read d)"
  "plain (inst_csrtype_read d)" "plain (inst_fprtype_read d)"
  by (simp_all add: reader_defs plain_def regs_ok_def Let_def)

lemma plain_c_readers [simp]:
  "plain (inst_catype_read c)" "plain (inst_crtype_read c)" "plain (inst_citype_read c)"
  "plain (inst_citype_read2 c)" "plain (inst_citype_read3 c)" "plain (inst_citype_read4 c)"
  "plain (inst_citype_read5 c)" "plain (inst_cbtype_read c)" "plain (inst_cbtype_read2 c)"
  "plain (inst_cstype_read c)" "plain (inst_cstype_read2 c)" "plain (inst_cjtype_read c)"
  "plain (inst_cltype_read c)" "plain (inst_cltype_read2 c)" "plain (inst_csstype_read c)"
  "plain (inst_csstype_read2 c)" "plain (inst_ciwtype_read c)"
  by (simp_all add: reader_defs plain_def regs_ok_def Let_def)

lemma plain_update [simp]:
  "plain i \<Longrightarrow> unat r < 32 \<Longrightarrow> plain (i\<lparr>rd := r\<rparr>)"
  "plain i \<Longrightarrow> unat r < 32 \<Longrightarrow> plain (i\<lparr>rs1 := r\<rparr>)"
  "plain i \<Longrightarrow> unat r < 32 \<Longrightarrow> plain (i\<lparr>rs2 := r\<rparr>)"
  by (simp_all add: plain_def regs_ok_def)

lemma plainD [simp]:
  "plain i \<Longrightarrow> unat (rd i) < 32" "plain i \<Longrightarrow> unat (rs1 i) < 32" "plain i \<Longrightarrow> regs_ok i"
  by (simp_all add: plain_def regs_ok_def)

lemma bit_sext_imm:
  assumes "k < 32" "n < 32"
  shows "bit (sext_imm k v) n \<longleftrightarrow> bit v (if n + k < 32 then n else 31 - k)"
proof -
  have "bit (sext_imm k v) n \<longleftrightarrow> bit (push_bit k v) (if n + k < 32 then k + n else 31)"
    using assms by (auto simp: sext_imm_def bit_signed_drop_bit_iff not_less)
  with assms show ?thesis by (auto simp: bit_push_bit_iff)
qed

lemma even_sext_imm: "k < 31 \<Longrightarrow> even (sext_imm k v) = even v"
  using bit_sext_imm [of k 0 v] by (simp add: bit_0)

lemma even_jump_imm [simp]:
  "even (imm (inst_jtype_read d))" "even (imm (inst_btype_read d))"
  "even (imm (inst_cjtype_read c))" "even (imm (inst_cbtype_read c))"
  by (simp_all add: reader_defs Let_def even_sext_imm even_or_iff even_and_iff)

section \<open>Every branch of the decoder\<close>

lemma wf_ret_type [simp]:
  "plain i \<Longrightarrow> t < num_insns \<Longrightarrow> \<not> is_jump t \<Longrightarrow> (is_branch t \<longrightarrow> even (imm i))
   \<Longrightarrow> ok_all wf_inst (ret_type i t)"
  by (auto simp: ret_type_def wf_inst_def plain_def regs_ok_def is_jump_def simp del: plainD)

lemma is_jumpE:
  assumes "is_jump t"
  obtains "t = inst_jal" | "t = inst_jalr" | "t = inst_ecall"
  using assms by (auto simp: is_jump_def)

lemma wf_ret_jump [simp]:
  "regs_ok i \<Longrightarrow> is_jump t \<Longrightarrow> (t = inst_jal \<longrightarrow> even (imm i))
   \<Longrightarrow> ok_all wf_inst (ret_jump i t)"
  by (elim is_jumpE) (simp_all add: ret_jump_def wf_inst_def regs_ok_def class_defs)

lemma ok_assert_then [simp]: "ok_all P k \<Longrightarrow> ok_all P (assert_then c m k)"
  by (simp add: assert_then_def)

lemmas wf_switch = switch_all [where P = "ok_all wf_inst"]

lemma decode_q0_wf: "ok_all wf_inst (decode_q0 data)"
proof -
  have "wf_inst ((inst_ciwtype_read c)\<lparr>rs1 := of_nat reg_sp, itype := inst_addi\<rparr>)" for c
    using wf_ret_type [of "(inst_ciwtype_read c)\<lparr>rs1 := of_nat reg_sp\<rparr>" inst_addi]
    by (simp add: ret_type_def class_defs)
  then show ?thesis
    unfolding decode_q0_def Let_def
    by (intro wf_switch) (simp_all add: class_defs)
qed

lemma decode_q1_wf: "ok_all wf_inst (decode_q1 data)"
proof -
  have "ok_all wf_inst (decode_q1_alu data)"
    unfolding decode_q1_alu_def Let_def
    by (intro ok_all_if wf_switch) (simp_all add: wf_switch class_defs)
  then show ?thesis
    unfolding decode_q1_def Let_def
    by (intro wf_switch) (simp_all add: class_defs)
qed

lemma decode_q2_wf: "ok_all wf_inst (decode_q2 data)"
proof -
  have "ok_all wf_inst (decode_q2_cr data)"
    unfolding decode_q2_cr_def Let_def
    by (intro wf_switch) (simp_all add: class_defs)
  then show ?thesis
    unfolding decode_q2_def Let_def
    by (intro wf_switch) (simp_all add: class_defs)
qed

lemma decode_mem_wf:
  "ok_all wf_inst (decode_load data)" "ok_all wf_inst (decode_load_fp data)"
  "ok_all wf_inst (decode_misc_mem data)" "ok_all wf_inst (decode_store data)"
  "ok_all wf_inst (decode_store_fp data)"
  unfolding decode_defs Let_def by (intro wf_switch; simp add: class_defs)+

lemma decode_int_wf:
  "ok_all wf_inst (decode_op_imm data)" "ok_all wf_inst (decode_op_imm_32 data)"
  "ok_all wf_inst (decode_op data)" "ok_all wf_inst (decode_op_32 data)"
  "ok_all wf_inst (decode_branch data)"
  unfolding decode_defs Let_def by (intro wf_switch; simp add: wf_switch class_defs)+

lemma decode_op_fp_wf: "ok_all wf_inst (decode_op_fp data)"
  unfolding decode_op_fp_def op_fp_arith_def op_fp_convert_def append_Cons append_Nil Let_def
  by (intro wf_switch) (simp_all add: wf_switch class_defs)

lemma decode_fma_wf:
  "ts < num_insns \<Longrightarrow> \<not> is_jump ts \<Longrightarrow> \<not> is_branch ts \<Longrightarrow>
   td < num_insns \<Longrightarrow> \<not> is_jump td \<Longrightarrow> \<not> is_branch td \<Longrightarrow> ok_all wf_inst (decode_fma ts td data)"
  unfolding decode_fma_def Let_def by (intro wf_switch) simp_all

lemma decode_system_wf: "regs_ok inst \<Longrightarrow> ok_all wf_inst (decode_system inst data)"
  unfolding decode_system_def Let_def
  by (intro ok_all_if wf_switch) (simp_all add: class_defs)

lemma decode_q3_wf: "regs_ok inst \<Longrightarrow> ok_all wf_inst (decode_q3 inst data)"
  unfolding decode_q3_def Let_def
  by (intro wf_switch)
    (simp_all add: decode_mem_wf decode_int_wf decode_op_fp_wf decode_fma_wf decode_system_wf class_defs)

lemma decode_inst_wf: "regs_ok inst \<Longrightarrow> ok_all wf_inst (decode_inst inst data)"
  unfolding decode_inst_def
  by (intro wf_switch) (simp_all add: decode_q0_wf decode_q1_wf decode_q2_wf decode_q3_wf)

end
