(* ===== verification/Handlers.thy ===== *)
theory Handlers
  imports Interp Decode_WF
begin

text \<open>
  What every handler of the table keeps, and what it may change. A handler that is not a
  control transfer leaves \<open>pc\<close>, \<open>reenter_pc\<close> and \<open>exit_reason\<close> alone; a taken
  branch or a jump sets an exit reason and an even address to continue at; no handler writes
  more than the destination register, changes a page protection or indexes outside a register
  file.
\<close>

section \<open>Contracts\<close>

text \<open>The faults a handler can end in.\<close>

definition handler_fault :: "error \<Rightarrow> bool" where
  "handler_fault e \<longleftrightarrow>
     (case e of Segv _ \<Rightarrow> True | Div_By_Zero \<Rightarrow> True | Fatal m \<Rightarrow> m = ''unsupported csr'' | _ \<Rightarrow> False)"

lemma handler_fault_simps [simp]:
  "handler_fault (Segv a)" "handler_fault Div_By_Zero" "handler_fault (Fatal ''unsupported csr'')"
  "\<not> handler_fault (Index_Out_Of_Range n)" "\<not> handler_fault (Assert_Fail m)"
  "\<not> handler_fault (Exit c)"
  by (simp_all add: handler_fault_def)

definition same_control :: "cpu_t \<Rightarrow> cpu_t \<Rightarrow> bool" where
  "same_control s s' \<longleftrightarrow>
     pc s' = pc s \<and> reenter_pc s' = reenter_pc s \<and> exit_reason s' = exit_reason s"

definition frame :: "cpu_t \<Rightarrow> inst_t \<Rightarrow> cpu_t \<Rightarrow> bool" where
  "frame s i s' \<longleftrightarrow> same_prot (mem s) (mem s') \<and> (\<exists>l. stderr_log s' = stderr_log s @ l) \<and>
     (\<forall>r. r \<noteq> unat (rd i) \<longrightarrow> gp_regs s' r = gp_regs s r \<and> fp_regs s' r = fp_regs s r)"

definition quiet :: "func_t \<Rightarrow> bool" where
  "quiet f \<longleftrightarrow> (\<forall>s i. regs_ok i \<longrightarrow>
     outcome handler_fault (\<lambda>(s', i'). i' = i \<and> same_control s s' \<and> frame s i s') (f s i))"

definition leaves :: "cpu_t \<Rightarrow> inst_t \<Rightarrow> cpu_t \<Rightarrow> bool" where
  "leaves s i s' \<longleftrightarrow> exit_reason s' \<noteq> none \<and> even (reenter_pc s') \<and> frame s i s'"

definition branches :: "func_t \<Rightarrow> bool" where
  "branches f \<longleftrightarrow> (\<forall>s i. regs_ok i \<and> even (pc s) \<and> even (imm i) \<longrightarrow>
     outcome handler_fault (\<lambda>(s', i').
       (i' = i \<and> same_control s s' \<and> frame s i s') \<or>
       (i' = i\<lparr>continue_exec := True\<rparr> \<and> leaves s i s')) (f s i))"

definition jumps :: "inst_type_t \<Rightarrow> func_t \<Rightarrow> bool" where
  "jumps t f \<longleftrightarrow> (\<forall>s i. regs_ok i \<and> even (pc s) \<and> (t = inst_jal \<longrightarrow> even (imm i)) \<longrightarrow>
     outcome handler_fault (\<lambda>(s', i'). i' = i \<and> leaves s i s') (f s i))"

definition entry_ok :: "inst_type_t \<Rightarrow> func_t \<Rightarrow> bool" where
  "entry_ok t f = (if is_jump t then jumps t f else if is_branch t then branches f else quiet f)"

lemmas contract_defs = same_control_def frame_def leaves_def

text \<open>Evenness of addresses.\<close>

lemma even_scast [simp]: "even (scast (w :: 'a::len word) :: 'b::len word) = even w"
proof -
  have "bit (scast w :: 'b word) 0 = bit w 0" by (simp add: bit_simps)
  then show ?thesis by (simp add: bit_0)
qed

lemma even_and_not_1 [simp]: "even (w AND NOT 1 :: 'a::len word)"
proof -
  have "\<not> bit (w AND NOT 1) 0" by (simp add: bit_simps)
  then show ?thesis by (simp add: bit_0)
qed

lemma even_and_minus_2 [simp]: "even (w AND - 2 :: 'a::len word)"
  using even_and_not_1 [of w] by simp

lemma even_inst_len [simp]: "even (inst_len i)"
  by (simp add: inst_len_def)

section \<open>Register access inside a handler\<close>

lemma reg_access [simp]:
  assumes "regs_ok i"
  shows "gp_get s (rs1 i) = Inr (gp_regs s (unat (rs1 i)))"
    "gp_get s (rs2 i) = Inr (gp_regs s (unat (rs2 i)))"
    "fp_get s (rs1 i) = Inr (fp_regs s (unat (rs1 i)))"
    "fp_get s (rs2 i) = Inr (fp_regs s (unat (rs2 i)))"
    "fp_get32 s (rs1 i) = Inr (fp_get_w (fp_regs s (unat (rs1 i))))"
    "fp_get32 s (rs2 i) = Inr (fp_get_w (fp_regs s (unat (rs2 i))))"
    "fp_get32 s (rs3 i) = Inr (fp_get_w (fp_regs s (unat (rs3 i))))"
    "fp_get s (rs3 i) = Inr (fp_regs s (unat (rs3 i)))"
    "gp_set s (rd i) v = Inr (s\<lparr>gp_regs := (gp_regs s)(unat (rd i) := v)\<rparr>)"
    "put_gp s i v = Inr (s\<lparr>gp_regs := (gp_regs s)(unat (rd i) := v)\<rparr>, i)"
    "put_fp64 s i v = Inr (s\<lparr>fp_regs := (fp_regs s)(unat (rd i) := v)\<rparr>, i)"
    "put_fp32 s i w = Inr (s\<lparr>fp_regs := (fp_regs s)
       (unat (rd i) := fp_set_w (fp_regs s (unat (rd i))) w)\<rparr>, i)"
  using assms
  by (simp_all add: regs_ok_def fp_get32_def fp_set32_def put_gp_def put_fp64_def put_fp32_def)

lemma eprint_sel [simp]:
  "pc (eprint s e) = pc s" "reenter_pc (eprint s e) = reenter_pc s"
  "exit_reason (eprint s e) = exit_reason s" "gp_regs (eprint s e) = gp_regs s"
  "fp_regs (eprint s e) = fp_regs s" "mem (eprint s e) = mem s"
  "stderr_log (eprint s e) = stderr_log s @ [e]"
  by (simp_all add: eprint_def)

section \<open>The contract of each macro\<close>

lemma outcome_load [intro]:
  "(\<And>bs. outcome handler_fault P (f bs)) \<Longrightarrow> outcome handler_fault P (bindE (load_bytes n m a) f)"
  by (cases "load_bytes n m a") (auto dest: load_bytes_fault)

lemma outcome_store [intro]:
  "(\<And>m'. same_prot m m' \<Longrightarrow> outcome handler_fault P (f m')) \<Longrightarrow>
   outcome handler_fault P (bindE (store_bytes bs m a) f)"
  by (cases "store_bytes bs m a") (auto dest: store_bytes_fault store_bytes_same_prot)

lemma quietI:
  "(\<And>s i. regs_ok i \<Longrightarrow> outcome handler_fault
     (\<lambda>(s', i'). i' = i \<and> same_control s s' \<and> frame s i s') (f s i)) \<Longrightarrow> quiet f"
  by (simp add: quiet_def)

lemma quiet_load: "quiet (FUNC_load n ty)"
  by (rule quietI) (auto simp: FUNC_load_def Let_def contract_defs)

lemma quiet_imm: "quiet (FUNC_imm expr)"
  by (rule quietI) (auto simp: FUNC_imm_def Let_def contract_defs)

lemma quiet_store: "quiet (FUNC_store n)"
  by (rule quietI) (auto simp: FUNC_store_def Let_def contract_defs)

lemma quiet_fstore: "quiet (FUNC_fstore n)"
  by (rule quietI) (auto simp: FUNC_fstore_def Let_def contract_defs)

lemma quiet_reg:
  assumes "\<And>a b. outcome handler_fault (\<lambda>_. True) (expr a b)"
  shows "quiet (FUNC_reg expr)"
proof (rule quietI)
  fix s :: cpu_t and i
  assume "regs_ok i"
  moreover have "outcome handler_fault (\<lambda>_. True)
      (expr (gp_regs s (unat (rs1 i))) (gp_regs s (unat (rs2 i))))" by (rule assms)
  ultimately show "outcome handler_fault
     (\<lambda>(s', i'). i' = i \<and> same_control s s' \<and> frame s i s') (FUNC_reg expr s i)"
    by (cases "expr (gp_regs s (unat (rs1 i))) (gp_regs s (unat (rs2 i)))")
      (auto simp: FUNC_reg_def contract_defs)
qed

lemma quiet_csr: "quiet FUNC_csr"
  by (rule quietI) (auto simp: FUNC_csr_def contract_defs)

lemma quiet_upper: "quiet func_lui" "quiet func_auipc" "quiet func_empty"
  by (rule quietI; simp add: func_lui_def func_auipc_def func_empty_def contract_defs)+

lemma quiet_fp:
  "quiet (FUNC_fma_s e3)" "quiet (FUNC_fma_d d3)" "quiet (FUNC_fp_s e2)" "quiet (FUNC_fp_d d2)"
  "quiet (FUNC_fsgnj_s n x)" "quiet (FUNC_fsgnj_d n x)" "quiet (FUNC_fcmp_s ce)" "quiet (FUNC_fcmp_d cd)"
  "quiet (s_to_x f1)" "quiet (d_to_x f2)" "quiet (x_to_s f3)" "quiet (x_to_d f4)"
  "quiet func_flw" "quiet func_fld" "quiet func_fcvt_s_d" "quiet func_fcvt_d_s"
  unfolding FUNC_fma_s_def FUNC_fma_d_def FUNC_fp_s_def FUNC_fp_d_def FUNC_fsgnj_s_def
    FUNC_fsgnj_d_def FUNC_fcmp_s_def FUNC_fcmp_d_def s_to_x_def d_to_x_def x_to_s_def x_to_d_def
    func_flw_def func_fld_def func_fcvt_s_d_def func_fcvt_d_s_def
  by (rule quietI; auto simp: Let_def contract_defs)+

lemma branches_branch: "branches (FUNC_branch expr)"
  unfolding branches_def
  by (auto simp: FUNC_branch_def Let_def contract_defs)

lemma jumps_jump: "t = inst_jal \<Longrightarrow> jumps t func_jal" "jumps t func_jalr" "jumps t func_ecall"
  unfolding jumps_def
  by (auto simp: func_jal_def func_jalr_def func_ecall_def Let_def contract_defs)

section \<open>The table\<close>

lemma fault_div [simp]:
  "outcome handler_fault (\<lambda>_. True) (c_sdiv a b)" "outcome handler_fault (\<lambda>_. True) (c_smod a b)"
  "outcome handler_fault (\<lambda>_. True) (bindE (c_sdiv a b) (\<lambda>q. Inr (g q)))"
  "outcome handler_fault (\<lambda>_. True) (bindE (c_smod a b) (\<lambda>q. Inr (g q)))"
  "outcome handler_fault (\<lambda>_. True) (bindE (c_udiv32 x y) (\<lambda>q. Inr (h q)))"
  "outcome handler_fault (\<lambda>_. True) (bindE (c_umod32 x y) (\<lambda>q. Inr (h q)))"
  by (simp_all add: c_sdiv_def c_smod_def c_udiv32_def c_umod32_def)

lemma length_funcs: "length funcs = num_insns"
  by (simp add: funcs_def rv_enum)

lemma funcs_entry_ok: "list_all (\<lambda>(t, f). entry_ok t f) (enumerate 0 funcs)"
  unfolding funcs_def
  by (simp add: entry_ok_def class_defs func_defs quiet_load quiet_imm quiet_store quiet_fstore
      quiet_reg quiet_csr quiet_upper quiet_fp branches_branch jumps_jump)

text \<open>The contract of the call \<open>funcs[inst.type](state, &inst)\<close>.\<close>

lemma dispatch_entry:
  assumes "wf_inst i"
  shows "\<exists>f. entry_ok (itype i) f \<and> dispatch s i = f s i"
proof -
  have len: "itype i < length funcs" using assms by (simp add: wf_inst_def length_funcs)
  have "(itype i, funcs ! itype i) \<in> set (enumerate 0 funcs)"
    using len by (auto simp: in_set_enumerate_eq)
  with funcs_entry_ok have "entry_ok (itype i) (funcs ! itype i)" by (auto simp: list_all_iff)
  with len show ?thesis by (auto simp: dispatch_def)
qed

definition handler_post :: "cpu_t \<Rightarrow> inst_t \<Rightarrow> cpu_t \<times> inst_t \<Rightarrow> bool" where
  "handler_post s i = (\<lambda>(s', i'). (\<exists>c. i' = i\<lparr>continue_exec := c\<rparr>) \<and> frame s i s' \<and>
     (if continue_exec i' then exit_reason s' \<noteq> none \<and> even (reenter_pc s') else same_control s s'))"

lemma continue_exec_same: "\<exists>c. i = i\<lparr>continue_exec := c\<rparr>"
  by (rule exI [of _ "continue_exec i"]) simp

lemma dispatch_post:
  assumes "wf_inst i" "even (pc s)"
  shows "outcome handler_fault (handler_post s i) (dispatch s i)"
proof -
  from dispatch_entry [OF assms(1)] obtain f where f: "entry_ok (itype i) f" "dispatch s i = f s i"
    by blast
  note wf = assms(1) [unfolded wf_inst_def]
  have "outcome handler_fault (handler_post s i) (f s i)"
  proof (cases "is_jump (itype i)")
    case True
    with f(1) have "jumps (itype i) f" by (simp add: entry_ok_def)
    with wf assms(2) have "outcome handler_fault (\<lambda>(s', i'). i' = i \<and> leaves s i s') (f s i)"
      by (simp add: jumps_def)
    then show ?thesis
      by (rule outcome_mono) (use wf True in \<open>auto simp: handler_post_def leaves_def continue_exec_same\<close>)
  next
    case no_jump: False
    show ?thesis
    proof (cases "is_branch (itype i)")
      case True
      with f(1) no_jump have "branches f" by (simp add: entry_ok_def)
      with wf assms(2) True have "outcome handler_fault (\<lambda>(s', i').
         (i' = i \<and> same_control s s' \<and> frame s i s') \<or>
         (i' = i\<lparr>continue_exec := True\<rparr> \<and> leaves s i s')) (f s i)"
        by (simp add: branches_def)
      then show ?thesis
        by (rule outcome_mono) (use wf no_jump in \<open>auto simp: handler_post_def leaves_def continue_exec_same\<close>)
    next
      case False
      with f(1) no_jump have "quiet f" by (simp add: entry_ok_def)
      with wf have "outcome handler_fault
         (\<lambda>(s', i'). i' = i \<and> same_control s s' \<and> frame s i s') (f s i)"
        by (simp add: quiet_def)
      then show ?thesis
        by (rule outcome_mono) (use wf no_jump in \<open>auto simp: handler_post_def continue_exec_same\<close>)
    qed
  qed
  with f(2) show ?thesis by simp
qed

section \<open>Order of the table\<close>

text \<open>
  The enumeration in \<open>rvemu.h\<close> and the table in \<open>interp.c\<close> are two lists that have to
  agree: the handler each instruction type is meant for, by name.
\<close>

definition handler_of :: "(inst_type_t \<times> func_t) list" where
  "handler_of = [
    (inst_lb, func_lb), (inst_lh, func_lh), (inst_lw, func_lw), (inst_ld, func_ld),
    (inst_lbu, func_lbu), (inst_lhu, func_lhu), (inst_lwu, func_lwu), (inst_fence, func_empty),
    (inst_fence_i, func_empty), (inst_addi, func_addi), (inst_slli, func_slli),
    (inst_slti, func_slti), (inst_sltiu, func_sltiu), (inst_xori, func_xori),
    (inst_srli, func_srli), (inst_srai, func_srai), (inst_ori, func_ori), (inst_andi, func_andi),
    (inst_auipc, func_auipc), (inst_addiw, func_addiw), (inst_slliw, func_slliw),
    (inst_srliw, func_srliw), (inst_sraiw, func_sraiw), (inst_sb, func_sb), (inst_sh, func_sh),
    (inst_sw, func_sw), (inst_sd, func_sd), (inst_add, func_add), (inst_sll, func_sll),
    (inst_slt, func_slt), (inst_sltu, func_sltu), (inst_xor, func_xor), (inst_srl, func_srl),
    (inst_or, func_or), (inst_and, func_and), (inst_mul, func_mul), (inst_mulh, func_mulh),
    (inst_mulhsu, func_mulhsu), (inst_mulhu, func_mulhu), (inst_div, func_div),
    (inst_divu, func_divu), (inst_rem, func_rem), (inst_remu, func_remu), (inst_sub, func_sub),
    (inst_sra, func_sra), (inst_lui, func_lui), (inst_addw, func_addw), (inst_sllw, func_sllw),
    (inst_srlw, func_srlw), (inst_mulw, func_mulw), (inst_divw, func_divw),
    (inst_divuw, func_divuw), (inst_remw, func_remw), (inst_remuw, func_remuw),
    (inst_subw, func_subw), (inst_sraw, func_sraw), (inst_beq, func_beq), (inst_bne, func_bne),
    (inst_blt, func_blt), (inst_bge, func_bge), (inst_bltu, func_bltu), (inst_bgeu, func_bgeu),
    (inst_jalr, func_jalr), (inst_jal, func_jal), (inst_ecall, func_ecall),
    (inst_csrrc, func_csrrc), (inst_csrrci, func_csrrci), (inst_csrrs, func_csrrs),
    (inst_csrrsi, func_csrrsi), (inst_csrrw, func_csrrw), (inst_csrrwi, func_csrrwi),
    (inst_flw, func_flw), (inst_fsw, func_fsw), (inst_fmadd_s, func_fmadd_s),
    (inst_fmsub_s, func_fmsub_s), (inst_fnmsub_s, func_fnmsub_s), (inst_fnmadd_s, func_fnmadd_s),
    (inst_fadd_s, func_fadd_s), (inst_fsub_s, func_fsub_s), (inst_fmul_s, func_fmul_s),
    (inst_fdiv_s, func_fdiv_s), (inst_fsqrt_s, func_fsqrt_s), (inst_fsgnj_s, func_fsgnj_s),
    (inst_fsgnjn_s, func_fsgnjn_s), (inst_fsgnjx_s, func_fsgnjx_s), (inst_fmin_s, func_fmin_s),
    (inst_fmax_s, func_fmax_s), (inst_fcvt_w_s, func_fcvt_w_s), (inst_fcvt_wu_s, func_fcvt_wu_s),
    (inst_fmv_x_w, func_fmv_x_w), (inst_feq_s, func_feq_s), (inst_flt_s, func_flt_s),
    (inst_fle_s, func_fle_s), (inst_fclass_s, func_fclass_s), (inst_fcvt_s_w, func_fcvt_s_w),
    (inst_fcvt_s_wu, func_fcvt_s_wu), (inst_fmv_w_x, func_fmv_w_x),
    (inst_fcvt_l_s, func_fcvt_l_s), (inst_fcvt_lu_s, func_fcvt_lu_s),
    (inst_fcvt_s_l, func_fcvt_s_l), (inst_fcvt_s_lu, func_fcvt_s_lu), (inst_fld, func_fld),
    (inst_fsd, func_fsd), (inst_fmadd_d, func_fmadd_d), (inst_fmsub_d, func_fmsub_d),
    (inst_fnmsub_d, func_fnmsub_d), (inst_fnmadd_d, func_fnmadd_d), (inst_fadd_d, func_fadd_d),
    (inst_fsub_d, func_fsub_d), (inst_fmul_d, func_fmul_d), (inst_fdiv_d, func_fdiv_d),
    (inst_fsqrt_d, func_fsqrt_d), (inst_fsgnj_d, func_fsgnj_d), (inst_fsgnjn_d, func_fsgnjn_d),
    (inst_fsgnjx_d, func_fsgnjx_d), (inst_fmin_d, func_fmin_d), (inst_fmax_d, func_fmax_d),
    (inst_fcvt_s_d, func_fcvt_s_d), (inst_fcvt_d_s, func_fcvt_d_s), (inst_feq_d, func_feq_d),
    (inst_flt_d, func_flt_d), (inst_fle_d, func_fle_d), (inst_fclass_d, func_fclass_d),
    (inst_fcvt_w_d, func_fcvt_w_d), (inst_fcvt_wu_d, func_fcvt_wu_d),
    (inst_fcvt_d_w, func_fcvt_d_w), (inst_fcvt_d_wu, func_fcvt_d_wu),
    (inst_fcvt_l_d, func_fcvt_l_d), (inst_fcvt_lu_d, func_fcvt_lu_d),
    (inst_fmv_x_d, func_fmv_x_d), (inst_fcvt_d_l, func_fcvt_d_l),
    (inst_fcvt_d_lu, func_fcvt_d_lu), (inst_fmv_d_x, func_fmv_d_x)]"

lemma handler_of_types: "map fst handler_of = [0..<num_insns]"
  by (simp add: handler_of_def rv_enum upt_conv_Cons)

lemma funcs_aligned: "funcs = map snd handler_of"
  by (simp add: funcs_def handler_of_def func_defs)

lemma dispatch_handler:
  assumes "(itype i, f) \<in> set handler_of"
  shows "dispatch s i = f s i"
proof -
  from assms obtain n where n: "n < length handler_of" "handler_of ! n = (itype i, f)"
    by (auto simp: in_set_conv_nth)
  have len: "length handler_of = num_insns"
    using arg_cong [OF handler_of_types, of length] by simp
  from n have "map fst handler_of ! n = itype i" "map snd handler_of ! n = f" by simp_all
  with n(1) len have "n = itype i" "funcs ! n = f"
    by (simp_all add: handler_of_types funcs_aligned)
  with n(1) len show ?thesis by (simp add: dispatch_def length_funcs)
qed

end
