(* ===== verification/Block.thy ===== *)
theory Block
  imports Handlers
begin

text \<open>
  The loop of \<open>exec_block_interp\<close>: the contract of one iteration, from the decoder's and the
  handlers', and what it gives for a whole block.
\<close>

section \<open>Faults of the decoder\<close>

text \<open>The assertions of \<open>decode.c\<close>, all of them about operands an encoding reserves.\<close>

definition decode_asserts :: "string list" where
  "decode_asserts =
    [''inst->imm != 0'', ''inst->rd != 0'', ''inst->rs1 != 0'', ''inst->rs2 == 0'', ''funct7 == 0'',
     ''RS2(data) == 0'', ''RS2(data) == 1'', ''RS2(data) == 0 && FUNCT3(data) == 0'']"

lemma decode_asserts_mem [simp]:
  "''inst->imm != 0'' \<in> set decode_asserts" "''inst->rd != 0'' \<in> set decode_asserts"
  "''inst->rs1 != 0'' \<in> set decode_asserts" "''inst->rs2 == 0'' \<in> set decode_asserts"
  "''funct7 == 0'' \<in> set decode_asserts" "''RS2(data) == 0'' \<in> set decode_asserts"
  "''RS2(data) == 1'' \<in> set decode_asserts"
  "''RS2(data) == 0 && FUNCT3(data) == 0'' \<in> set decode_asserts"
  by (simp_all add: decode_asserts_def)

definition decode_fault :: "error \<Rightarrow> bool" where
  "decode_fault e \<longleftrightarrow>
     (case e of Fatal _ \<Rightarrow> True | Assert_Fail m \<Rightarrow> m \<in> set decode_asserts | _ \<Rightarrow> False)"

lemma decode_fault_simps [simp]:
  "decode_fault (Fatal m)" "decode_fault (Assert_Fail m) \<longleftrightarrow> m \<in> set decode_asserts"
  "\<not> decode_fault (Index_Out_Of_Range n)" "\<not> decode_fault (Exit c)" "\<not> decode_fault (Segv a)"
  "\<not> decode_fault Div_By_Zero"
  by (simp_all add: decode_fault_def)

definition only_decode_fault :: "inst_t res \<Rightarrow> bool" where
  "only_decode_fault r = outcome decode_fault (\<lambda>_. True) r"

lemma only_decode_fault_simps [simp]:
  "only_decode_fault (Inr i)" "only_decode_fault (Inl e) = decode_fault e"
  "only_decode_fault (ret_type i t)" "only_decode_fault (ret_jump i t)"
  "m \<in> set decode_asserts \<Longrightarrow> only_decode_fault k \<Longrightarrow> only_decode_fault (assert_then c m k)"
  by (simp_all add: only_decode_fault_def ret_type_def ret_jump_def assert_then_def)

lemmas fault_switch = switch_all [where P = only_decode_fault]

lemma only_decode_fault_if:
  "only_decode_fault x \<Longrightarrow> only_decode_fault y \<Longrightarrow> only_decode_fault (if c then x else y)"
  by simp

lemma decode_q_faults:
  "only_decode_fault (decode_q0 d)" "only_decode_fault (decode_q1 d)" "only_decode_fault (decode_q2 d)"
  unfolding decode_q0_def decode_q1_def decode_q1_alu_def decode_q2_def decode_q2_cr_def Let_def
  by (intro fault_switch only_decode_fault_if; simp add: fault_switch)+

lemma decode_mem_faults:
  "only_decode_fault (decode_load d)" "only_decode_fault (decode_load_fp d)"
  "only_decode_fault (decode_misc_mem d)" "only_decode_fault (decode_store d)"
  "only_decode_fault (decode_store_fp d)"
  unfolding decode_defs Let_def by (intro fault_switch; simp)+

lemma decode_int_faults:
  "only_decode_fault (decode_op_imm d)" "only_decode_fault (decode_op_imm_32 d)"
  "only_decode_fault (decode_op d)" "only_decode_fault (decode_op_32 d)"
  "only_decode_fault (decode_branch d)"
  unfolding decode_defs Let_def by (intro fault_switch; simp add: fault_switch)+

lemma decode_fp_faults:
  "only_decode_fault (decode_op_fp d)" "only_decode_fault (decode_fma ts td d)"
  "only_decode_fault (decode_system p d)"
  unfolding decode_op_fp_def op_fp_arith_def op_fp_convert_def append_Cons append_Nil decode_fma_def decode_system_def Let_def
  by (intro fault_switch only_decode_fault_if; simp add: fault_switch)+

lemma decode_q3_fault: "only_decode_fault (decode_q3 p d)"
  unfolding decode_q3_def Let_def
  by (intro fault_switch) (simp_all add: decode_mem_faults decode_int_faults decode_fp_faults)

lemma decode_inst_fault: "decode_inst p d = Inl e \<Longrightarrow> decode_fault e"
proof -
  have "only_decode_fault (decode_inst p d)"
    unfolding decode_inst_def
    by (intro fault_switch) (simp_all add: decode_q_faults decode_q3_fault)
  then show "decode_inst p d = Inl e \<Longrightarrow> ?thesis" by simp
qed

section \<open>One iteration\<close>

definition cpu_ok :: "cpu_t \<Rightarrow> bool" where
  "cpu_ok s \<longleftrightarrow> gp_regs s reg_zero = 0 \<and> even (pc s)"

text \<open>\<open>s\<close> comes from \<open>s0\<close> by running code: no protection changed, output only added.\<close>

definition runs_from :: "cpu_t \<Rightarrow> cpu_t \<Rightarrow> bool" where
  "runs_from s0 s \<longleftrightarrow> same_prot (mem s0) (mem s) \<and> (\<exists>l. stderr_log s = stderr_log s0 @ l)"

definition block_inv :: "cpu_t \<Rightarrow> cpu_t \<times> inst_t \<Rightarrow> bool" where
  "block_inv s0 = (\<lambda>(s, i). cpu_ok s \<and> regs_ok i \<and> runs_from s0 s)"

definition block_post :: "cpu_t \<Rightarrow> cpu_t \<times> inst_t \<Rightarrow> bool" where
  "block_post s0 = (\<lambda>(s, i). gp_regs s reg_zero = 0 \<and> exit_reason s \<noteq> none \<and>
     even (reenter_pc s) \<and> regs_ok i \<and> runs_from s0 s)"

definition block_fault :: "error \<Rightarrow> bool" where
  "block_fault e \<longleftrightarrow> handler_fault e \<or> decode_fault e"

lemma runs_from_refl [simp]: "runs_from s s"
  by (simp add: runs_from_def)

lemma runs_from_trans: "runs_from a b \<Longrightarrow> runs_from b c \<Longrightarrow> runs_from a c"
  by (auto simp: runs_from_def intro: same_prot_trans)

lemma runs_from_frame: "runs_from s0 s \<Longrightarrow> frame s i s' \<Longrightarrow> runs_from s0 s'"
  by (auto simp: runs_from_def frame_def intro: same_prot_trans)

lemma runs_from_regs [simp]:
  "runs_from s0 (s\<lparr>gp_regs := g\<rparr>) = runs_from s0 s" "runs_from s0 (s\<lparr>pc := p\<rparr>) = runs_from s0 s"
  "runs_from s0 (s\<lparr>exit_reason := e\<rparr>) = runs_from s0 s" "runs_from (s\<lparr>exit_reason := e\<rparr>) s0 = runs_from s s0"
  "runs_from (s\<lparr>pc := p\<rparr>) s0 = runs_from s s0"
  by (simp_all add: runs_from_def)

lemma regs_ok_continue [simp]: "regs_ok (i\<lparr>continue_exec := c\<rparr>) = regs_ok i"
  by (simp add: regs_ok_def)

lemma load_bytes_outcome: "outcome block_fault (\<lambda>_. True) (load_bytes n m a)"
  using load_bytes_fault [of n m a] by (cases "load_bytes n m a") (auto simp: block_fault_def)

lemma decode_inst_outcome: "regs_ok i \<Longrightarrow> outcome block_fault wf_inst (decode_inst i d)"
  using decode_inst_fault [of i d] decode_inst_wf [of i d]
  by (cases "decode_inst i d") (auto simp: block_fault_def)

lemma dispatch_outcome:
  "wf_inst i \<Longrightarrow> even (pc s) \<Longrightarrow> outcome block_fault (handler_post s i) (dispatch s i)"
  using dispatch_post [of i s] by (rule outcome_mono) (simp_all add: block_fault_def)

lemma handler_post_regs: "handler_post s i (s', i') \<Longrightarrow> regs_ok i \<Longrightarrow> regs_ok i'"
  by (auto simp: handler_post_def)

lemma interp_step_outcome:
  assumes "block_inv s0 (s, i)"
  shows "outcome block_fault (\<lambda>c. case c of Next x \<Rightarrow> block_inv s0 x | Break x \<Rightarrow> block_post s0 x)
    (interp_step (s, i))"
proof -
  let ?P = "\<lambda>c. case c of Next x \<Rightarrow> block_inv s0 x | Break x \<Rightarrow> block_post s0 x"
  from assms have inv: "cpu_ok s" "regs_ok i" "runs_from s0 s" by (simp_all add: block_inv_def)
  then have even: "even (pc s)" by (simp add: cpu_ok_def)
  have finish: "?P (let s2 = s1\<lparr>gp_regs := (gp_regs s1)(reg_zero := 0)\<rparr> in
      if continue_exec k then Break (s2, k) else Next (s2\<lparr>pc := pc s2 + inst_len k\<rparr>, k))"
    if post: "handler_post s j (s1, k)" and wf: "wf_inst j" for j s1 k
  proof -
    have "regs_ok k" using post wf by (simp add: handler_post_regs wf_inst_def)
    moreover have "runs_from s0 s1"
      using post inv(3) by (auto simp: handler_post_def intro: runs_from_frame)
    ultimately show ?thesis
      using post even
      by (auto simp: Let_def block_inv_def block_post_def cpu_ok_def handler_post_def same_control_def)
  qed
  show ?thesis
    unfolding interp_step_def prod.case
  proof (rule outcome_bindI [OF load_bytes_outcome])
    fix raw
    show "outcome block_fault ?P (bindE (decode_inst i (le_word raw)) (\<lambda>inst1.
       bindE (dispatch s inst1) (\<lambda>(s1, inst2).
       let s2 = s1\<lparr>gp_regs := (gp_regs s1)(reg_zero := 0)\<rparr> in
       if continue_exec inst2 then Inr (Break (s2, inst2))
       else Inr (Next (s2\<lparr>pc := pc s2 + inst_len inst2\<rparr>, inst2)))))"
    proof (rule outcome_bindI [OF decode_inst_outcome [OF inv(2)]])
      fix j assume "wf_inst j"
      with finish dispatch_outcome [OF this even] show "outcome block_fault ?P
         (bindE (dispatch s j) (\<lambda>(s1, inst2).
          let s2 = s1\<lparr>gp_regs := (gp_regs s1)(reg_zero := 0)\<rparr> in
          if continue_exec inst2 then Inr (Break (s2, inst2))
          else Inr (Next (s2\<lparr>pc := pc s2 + inst_len inst2\<rparr>, inst2))))"
        by (elim outcome_bindI) (fastforce simp: Let_def split: if_splits)
    qed
  qed
qed

section \<open>Whole blocks\<close>

interpretation block: loop_contract "\<lambda>x. Some (interp_step x)" "block_inv s0" "block_post s0" block_fault
  for s0
proof
  fix x x' :: "cpu_t \<times> inst_t"
  assume "block_inv s0 x" "Some (interp_step x) = Some (Inr (Next x'))"
  with interp_step_outcome [of s0 "fst x" "snd x"] show "block_inv s0 x'" by simp
next
  fix x r :: "cpu_t \<times> inst_t"
  assume "block_inv s0 x" "Some (interp_step x) = Some (Inr (Break r))"
  with interp_step_outcome [of s0 "fst x" "snd x"] show "block_post s0 r" by simp
next
  fix x :: "cpu_t \<times> inst_t" and e
  assume "block_inv s0 x" "Some (interp_step x) = Some (Inl e)"
  with interp_step_outcome [of s0 "fst x" "snd x"] show "block_fault e" by simp
qed

lemma exec_block_post:
  "cpu_ok s \<Longrightarrow> regs_ok i \<Longrightarrow> exec_block_interp (s, i) = Some (Inr r) \<Longrightarrow> block_post s r"
  unfolding exec_block_interp_def
  by (rule block.loop_post [of s "(s, i)"]) (simp_all add: block_inv_def)

lemma exec_block_fault:
  "cpu_ok s \<Longrightarrow> regs_ok i \<Longrightarrow> exec_block_interp (s, i) = Some (Inl e) \<Longrightarrow> block_fault e"
  unfolding exec_block_interp_def
  by (rule block.loop_fault [of s "(s, i)"]) (simp_all add: block_inv_def)

end
