(* ===== verification/Machine.thy ===== *)
theory Machine
  imports Block Mmu
begin

text \<open>
  The machine of \<open>machine.c\<close>: the hart and the memory management together, the loop that
  runs blocks until a system call, loading a program and building its initial stack.
\<close>

section \<open>State\<close>

text \<open>
  \<open>machine_t\<close> of \<open>rvemu.h\<close>. The field \<open>interp_inst\<close> is the \<open>static\<close> variable of
  \<open>exec_block_interp\<close>, and \<open>world\<close> stands for what the kernel keeps for the process (open
  files, clocks), which only system calls touch.
\<close>

record 'w machine_t =
  state :: cpu_t
  mmu :: mmu_t
  interp_inst :: inst_t
  world :: 'w

definition machine_get_gp_reg :: "'w machine_t \<Rightarrow> nat \<Rightarrow> u64 res" where
  "machine_get_gp_reg m reg =
     (if reg < num_gp_regs then Inr (gp_regs (state m) reg)
      else Inl (Assert_Fail ''reg >= 0 && reg < num_gp_regs''))"

definition machine_set_gp_reg :: "'w machine_t \<Rightarrow> nat \<Rightarrow> u64 \<Rightarrow> 'w machine_t res" where
  "machine_set_gp_reg m reg data =
     (if reg < num_gp_regs
      then Inr (m\<lparr>state := (state m)\<lparr>gp_regs := (gp_regs (state m))(reg := data)\<rparr>\<rparr>)
      else Inl (Assert_Fail ''reg >= 0 && reg < num_gp_regs''))"

section \<open>machine_step\<close>

definition machine_step_body :: "'w machine_t \<Rightarrow> ('w machine_t, 'w machine_t) ctl res option" where
  "machine_step_body m =
     (case exec_block_interp ((state m)\<lparr>exit_reason := none\<rparr>, interp_inst m) of
        None \<Rightarrow> None
      | Some (Inl e) \<Rightarrow> Some (Inl e)
      | Some (Inr (s, i)) \<Rightarrow> Some (
          let m1 = m\<lparr>state := s, interp_inst := i\<rparr> in
          if exit_reason s = none then Inl (Assert_Fail ''machine->state.exit_reason != none'')
          else if exit_reason s = direct_branch \<or> exit_reason s = indirect_branch
          then Inr (Next (m1\<lparr>state := s\<lparr>pc := reenter_pc s\<rparr>\<rparr>))
          else Inr (Break m1)))"

definition machine_step :: "'w machine_t \<Rightarrow> ('w machine_t \<times> exit_reason_t) res option" where
  "machine_step m =
     map_option (\<lambda>r. bindE r (\<lambda>m1.
       let m2 = m1\<lparr>state := (state m1)\<lparr>pc := reenter_pc (state m1)\<rparr>\<rparr> in
       if exit_reason (state m2) \<noteq> ecall
       then Inl (Assert_Fail ''machine->state.exit_reason == ecall'')
       else Inr (m2, ecall)))
     (c_loop machine_step_body m)"

section \<open>Loading a program\<close>

text \<open>\<open>file\<close> is what \<open>open\<close> finds at the path: \<open>None\<close> when it fails.\<close>

definition machine_load_program ::
  "host_t \<Rightarrow> u8 list \<Rightarrow> 'w machine_t \<Rightarrow> u8 list option \<Rightarrow> 'w machine_t res" where
  "machine_load_program h stack m prog =
     (case prog of
        None \<Rightarrow> Inl (Fatal ''strerror(errno)'')
      | Some file \<Rightarrow>
          bindE (mmu_load_elf h stack (mmu m) (mem (state m)) file) (\<lambda>(mmu', mem').
          Inr (m\<lparr>mmu := mmu', state := (state m)\<lparr>mem := mem', pc := entry mmu'\<rparr>\<rparr>)))"

definition sp_sub :: "'w machine_t \<Rightarrow> u64 \<Rightarrow> 'w machine_t" where
  "sp_sub m n = m\<lparr>state := (state m)\<lparr>gp_regs :=
     (gp_regs (state m))(reg_sp := gp_regs (state m) reg_sp - n)\<rparr>\<rparr>"

text \<open>\<open>mmu_alloc\<close> and \<open>mmu_write\<close> on the machine.\<close>

definition machine_alloc :: "host_t \<Rightarrow> 'w machine_t \<Rightarrow> i64 \<Rightarrow> (u64 \<times> 'w machine_t) res" where
  "machine_alloc h m sz =
     bindE (mmu_alloc h (mmu m) (mem (state m)) sz) (\<lambda>(addr, mmu', mem').
     Inr (addr, m\<lparr>mmu := mmu', state := (state m)\<lparr>mem := mem'\<rparr>\<rparr>))"

definition machine_write :: "'w machine_t \<Rightarrow> u64 \<Rightarrow> u8 list \<Rightarrow> 'w machine_t res" where
  "machine_write m addr data =
     bindE (mmu_write (mem (state m)) addr data) (\<lambda>mem'.
     Inr (m\<lparr>state := (state m)\<lparr>mem := mem'\<rparr>\<rparr>))"

text \<open>
  One iteration of the loop over the arguments: the string is copied without its terminator
  into memory that was allocated one byte longer.
\<close>

definition push_arg :: "host_t \<Rightarrow> 'w machine_t \<Rightarrow> u8 list \<Rightarrow> 'w machine_t res" where
  "push_arg h m arg =
     bindE (machine_alloc h m (word_of_nat (length arg + 1))) (\<lambda>(addr, m1).
     bindE (machine_write m1 addr arg) (\<lambda>m2.
     let m3 = sp_sub m2 8 in
     machine_write m3 (gp_regs (state m3) reg_sp) (le_bytes 8 addr)))"

fun push_args :: "host_t \<Rightarrow> 'w machine_t \<Rightarrow> u8 list list \<Rightarrow> 'w machine_t res" where
  "push_args h m [] = Inr m"
| "push_args h m (arg # args) = bindE (push_arg h m arg) (\<lambda>m'. push_args h m' args)"

text \<open>
  \<open>argv\<close> is the whole argument vector of the emulator, \<open>argc\<close> its length; the loop runs
  from the last argument down to \<open>argv[1]\<close>. The last \<open>mmu_write\<close> copies eight bytes from
  the four-byte variable \<open>argc\<close>: \<open>pad\<close> is what lies behind it.
\<close>

definition STACK_SIZE :: u64 where "STACK_SIZE = 32 * 1024 * 1024"

definition machine_setup :: "host_t \<Rightarrow> u32 \<Rightarrow> 'w machine_t \<Rightarrow> u8 list list \<Rightarrow> 'w machine_t res" where
  "machine_setup h pad m argv =
     bindE (machine_alloc h m STACK_SIZE) (\<lambda>(addr, m1).
     let m2 = m1\<lparr>state := (state m1)\<lparr>gp_regs := (gp_regs (state m1))(reg_sp := addr + STACK_SIZE)\<rparr>\<rparr>;
         m3 = sp_sub (sp_sub (sp_sub m2 8) 8) 8
     in bindE (push_args h m3 (rev (tl argv))) (\<lambda>m4.
     let m5 = sp_sub m4 8 in
     machine_write m5 (gp_regs (state m5) reg_sp)
       (le_bytes 4 (word_of_nat (length argv) :: u32) @ le_bytes 4 pad)))"

section \<open>Running to a system call\<close>

definition machine_inv :: "cpu_t \<Rightarrow> 'w machine_t \<Rightarrow> bool" where
  "machine_inv s0 m \<longleftrightarrow> cpu_ok (state m) \<and> regs_ok (interp_inst m) \<and> runs_from s0 (state m)"

definition machine_post :: "cpu_t \<Rightarrow> 'w machine_t \<Rightarrow> bool" where
  "machine_post s0 m \<longleftrightarrow> block_post s0 (state m, interp_inst m) \<and> exit_reason (state m) = ecall"

lemma machine_step_body_outcome:
  assumes "machine_inv s0 m" "machine_step_body m = Some r"
  shows "outcome block_fault (\<lambda>c. case c of
      Next m' \<Rightarrow> machine_inv s0 m' \<and> mmu m' = mmu m \<and> world m' = world m
    | Break m' \<Rightarrow> machine_post s0 m' \<and> mmu m' = mmu m \<and> world m' = world m) r"
proof -
  let ?s = "(state m)\<lparr>exit_reason := none\<rparr>"
  from assms(1) have ok: "cpu_ok ?s" "regs_ok (interp_inst m)" "runs_from s0 ?s"
    by (simp_all add: machine_inv_def cpu_ok_def)
  from assms(2) obtain b where b: "exec_block_interp (?s, interp_inst m) = Some b"
    by (auto simp: machine_step_body_def split: option.splits)
  show ?thesis
  proof (cases b)
    case (Inl e)
    with b assms(2) exec_block_fault [OF ok(1,2)] show ?thesis by (auto simp: machine_step_body_def)
  next
    case (Inr x)
    obtain s i where x: "x = (s, i)" by (cases x)
    have "block_post ?s (s, i)" using exec_block_post [OF ok(1,2)] b Inr x by blast
    then have post: "block_post s0 (s, i)"
      using ok(3) runs_from_trans by (auto simp: block_post_def)
    then show ?thesis
      using b assms(2) Inr x
      by (cases "exit_reason s")
        (auto simp: machine_step_body_def Let_def block_post_def machine_inv_def machine_post_def cpu_ok_def)
  qed
qed

text \<open>The second loop of the emulator under the same contract as the first.\<close>

definition same_host_side :: "'w machine_t \<Rightarrow> 'w machine_t \<Rightarrow> bool" where
  "same_host_side m0 m \<longleftrightarrow> mmu m = mmu m0 \<and> world m = world m0"

lemma machine_step_body_cases:
  assumes "machine_inv (state m0) m \<and> same_host_side m0 m" "machine_step_body m = Some r"
  shows "outcome block_fault (\<lambda>c. case c of
      Next m' \<Rightarrow> machine_inv (state m0) m' \<and> same_host_side m0 m'
    | Break m' \<Rightarrow> machine_post (state m0) m' \<and> same_host_side m0 m') r"
  using machine_step_body_outcome [of "state m0" m r] assms
  by (auto simp: same_host_side_def elim!: outcome_mono split: ctl.splits)

interpretation steps: loop_contract machine_step_body
  "\<lambda>m. machine_inv (state m0) m \<and> same_host_side m0 m"
  "\<lambda>m. machine_post (state m0) m \<and> same_host_side m0 m" block_fault for m0
proof
  fix m m'
  assume "machine_inv (state m0) m \<and> same_host_side m0 m" "machine_step_body m = Some (Inr (Next m'))"
  from machine_step_body_cases [OF this] show "machine_inv (state m0) m' \<and> same_host_side m0 m'" by simp
next
  fix m m'
  assume "machine_inv (state m0) m \<and> same_host_side m0 m" "machine_step_body m = Some (Inr (Break m'))"
  from machine_step_body_cases [OF this] show "machine_post (state m0) m' \<and> same_host_side m0 m'" by simp
next
  fix m e
  assume "machine_inv (state m0) m \<and> same_host_side m0 m" "machine_step_body m = Some (Inl e)"
  from machine_step_body_cases [OF this] show "block_fault e" by simp
qed

definition machine_ok :: "'w machine_t \<Rightarrow> bool" where
  "machine_ok m \<longleftrightarrow> cpu_ok (state m) \<and> regs_ok (interp_inst m)"

lemma machine_step_outcome:
  assumes "machine_ok m" "machine_step m = Some r"
  shows "outcome block_fault (\<lambda>(m', why). why = ecall \<and> exit_reason (state m') = ecall \<and>
    machine_ok m' \<and> runs_from (state m) (state m') \<and> same_host_side m m') r"
proof -
  have inv: "machine_inv (state m) m \<and> same_host_side m m"
    using assms(1) by (simp add: machine_inv_def machine_ok_def same_host_side_def)
  from assms(2) obtain b where b: "c_loop machine_step_body m = Some b"
    by (auto simp: machine_step_def)
  show ?thesis
  proof (cases b)
    case (Inl e)
    with assms(2) b steps.loop_fault [OF inv, of e] show ?thesis by (auto simp: machine_step_def)
  next
    case (Inr m1)
    with b steps.loop_post [OF inv, of m1] have "machine_post (state m) m1 \<and> same_host_side m m1" by simp
    with assms(2) b Inr show ?thesis
      by (auto simp: machine_step_def Let_def machine_post_def block_post_def machine_ok_def cpu_ok_def
          same_host_side_def)
  qed
qed

end
