(* ===== verification/Setup.thy ===== *)
theory Setup
  imports Arena Machine
begin

text \<open>
  The initial stack that \<open>machine_setup\<close> builds: \<open>argc\<close>, the pointers to the argument strings and
  the empty tail of the vector, and the strings themselves in the heap above the stack.
\<close>

section \<open>One argument\<close>

definition stack_ptr :: "'w machine_t \<Rightarrow> u64" where
  "stack_ptr m = gp_regs (state m) reg_sp"

definition heap_room :: "host_t \<Rightarrow> nat \<Rightarrow> 'w machine_t \<Rightarrow> bool" where
  "heap_room h k m \<longleftrightarrow> host_ok h \<and> mmu_room h k (mmu m) (mem (state m)) \<and>
     zero_between (heap_used (mmu m)) (heap_limit (mmu m)) (mem (state m))"

definition string_cost :: "host_t \<Rightarrow> u8 list \<Rightarrow> nat" where
  "string_cost h s = page_cost h (word_of_nat (length s + 1))"

text \<open>The fields of the machine that building the stack leaves alone.\<close>

definition same_but_sp :: "'w machine_t \<Rightarrow> 'w machine_t \<Rightarrow> bool" where
  "same_but_sp m m' \<longleftrightarrow> interp_inst m' = interp_inst m \<and> world m' = world m \<and>
     exit_reason (state m') = exit_reason (state m) \<and> reenter_pc (state m') = reenter_pc (state m) \<and>
     pc (state m') = pc (state m) \<and> fp_regs (state m') = fp_regs (state m) \<and>
     stderr_log (state m') = stderr_log (state m) \<and>
     (\<forall>r. r \<noteq> reg_sp \<longrightarrow> gp_regs (state m') r = gp_regs (state m) r)"

lemma same_but_sp_trans: "same_but_sp m m' \<Longrightarrow> same_but_sp m' m'' \<Longrightarrow> same_but_sp m m''"
  by (simp add: same_but_sp_def)

definition string_at :: "nat \<Rightarrow> nat \<Rightarrow> mem_t \<Rightarrow> u64 \<Rightarrow> u8 list \<Rightarrow> bool" where
  "string_at lo hi m p s \<longleftrightarrow> lo \<le> unat (TO_HOST p) \<and> unat (TO_HOST p) + length s + 1 \<le> hi \<and>
     load_bytes (length s + 1) m (TO_HOST p) = Inr (s @ [0])"

text \<open>Below the heap only the \<open>n\<close> bytes under the stack pointer change.\<close>

definition stack_frame :: "nat \<Rightarrow> 'w machine_t \<Rightarrow> 'w machine_t \<Rightarrow> bool" where
  "stack_frame n m m' \<longleftrightarrow> (\<forall>x. mem (state m) x \<noteq> None \<and> unat x < heap_used (mmu m) \<and>
     (unat (TO_HOST (stack_ptr m)) \<le> unat x \<or> unat x + n < unat (TO_HOST (stack_ptr m))) \<longrightarrow>
     mem (state m') x = mem (state m) x)"

text \<open>
  What pushing \<open>args\<close> does: it puts the strings at \<open>ps\<close>, above what was handed out, and the pointers on
  the stack, the last one lowest; it changes nothing else below.
\<close>

definition pushed :: "u8 list list \<Rightarrow> u64 list \<Rightarrow> 'w machine_t \<Rightarrow> 'w machine_t \<Rightarrow> bool" where
  "pushed args ps m m' \<longleftrightarrow> same_but_sp m m' \<and>
     stack_ptr m' = stack_ptr m - word_of_nat (8 * length args) \<and> heap_used (mmu m) \<le> heap_used (mmu m') \<and>
     load_bytes (8 * length args) (mem (state m')) (TO_HOST (stack_ptr m')) =
       Inr (concat (map (le_bytes 8) (rev ps))) \<and>
     list_all2 (string_at (heap_used (mmu m)) (heap_used (mmu m')) (mem (state m'))) ps args \<and>
     keeps_rights (mem (state m)) (mem (state m')) \<and> stack_frame (8 * length args) m m'"

text \<open>The stack from \<open>lo\<close> to the stack pointer can be written and lies below the heap.\<close>

definition stack_room :: "nat \<Rightarrow> 'w machine_t \<Rightarrow> bool" where
  "stack_room n m \<longleftrightarrow> n \<le> unat (TO_HOST (stack_ptr m)) \<and>
     unat (TO_HOST (stack_ptr m)) \<le> heap_used (mmu m) \<and>
     rw_between (unat (TO_HOST (stack_ptr m)) - n) (unat (TO_HOST (stack_ptr m))) (mem (state m))"

lemma pushed_nil: "pushed [] [] m m"
  by (simp add: pushed_def same_but_sp_def stack_ptr_def keeps_rights_def stack_frame_def)

lemma push_arg_eq:
  "push_arg h m s =
     bindE (bindE (mmu_alloc h (mmu m) (mem (state m)) (word_of_nat (length s + 1)))
       (\<lambda>(a, u', m1). bindE (mmu_write m1 a s) (\<lambda>m2. Inr (a, u', m2))))
     (\<lambda>(a, u', m2). bindE (mmu_write m2 (stack_ptr m - 8) (le_bytes 8 a))
       (\<lambda>m3. Inr (m\<lparr>mmu := u', state := (state m)\<lparr>gp_regs :=
          (gp_regs (state m))(reg_sp := stack_ptr m - 8), mem := m3\<rparr>\<rparr>)))"
  by (cases "mmu_alloc h (mmu m) (mem (state m)) (word_of_nat (length s + 1))")
    (auto simp: push_arg_def machine_alloc_def machine_write_def sp_sub_def stack_ptr_def bindE_assoc Let_def
      split: prod.splits intro!: arg_cong2 [where f = bindE])

text \<open>The store of \<open>n\<close> bytes below the stack pointer.\<close>

lemma stack_store:
  assumes "rw_between (unat b - length bs) (unat b) m" "length bs \<le> unat b" "unat b \<le> user_space"
  obtains m' where "store_bytes bs m (b - word_of_nat (length bs)) = Inr m'"
    "load_bytes (length bs) m' (b - word_of_nat (length bs)) = Inr bs" "same_prot m m'"
    "\<And>x. unat b \<le> unat x \<or> unat x + length bs < unat b \<Longrightarrow> m' x = m x"
proof -
  let ?a = "b - word_of_nat (length bs)"
  have "unat (word_of_nat (length bs) :: u64) = length bs"
    using assms(2,3) by (intro unat_nat) (simp add: user_space_def)
  then have a: "unat ?a = unat b - length bs" using assms(2) by (simp add: unat_sub word_le_nat_alt)
  have reg: "in_region ?a (length bs) x \<longleftrightarrow> unat b - length bs \<le> unat x \<and> unat x < unat b" for x
    using assms(2,3) by (subst in_region_nat) (simp_all add: a user_space_def)
  have rw: "readable m x \<and> writable m x" if "in_region ?a (length bs) x" for x
    using that assms(1) by (simp add: reg rw_between_def)
  then obtain m' where st: "store_bytes bs m ?a = Inr m'" using store_bytes_ok_iff by blast
  have "load_bytes (length bs) m' ?a = Inr bs"
    using load_after_store [OF st] rw assms(2,3) by (simp add: user_space_def)
  with that st store_bytes_same_prot [OF st] store_bytes_outside [OF st] show ?thesis by (force simp: reg)
qed

lemma push_arg_ok:
  assumes "heap_room h (string_cost h s + k) m" "length s + 1 < 2 ^ 63" "stack_room 8 m"
  shows "outcome mmap_failed (\<lambda>m'. (\<exists>p. pushed [s] [p] m m') \<and> heap_room h k m') (push_arg h m s)"
proof -
  let ?u = "mmu m" and ?m = "mem (state m)" and ?b = "TO_HOST (stack_ptr m)"
  have host: "host_ok h" "mmu_room h (page_cost h (word_of_nat (length s + 1)) + k) ?u ?m"
    "zero_between (heap_used ?u) (heap_limit ?u) ?m"
    using assms(1) by (simp_all add: heap_room_def string_cost_def)
  note place = heap.place_string [OF conjI [OF host(1,2)] assms(2) host(3)]
  show ?thesis
    unfolding push_arg_eq
  proof (rule outcome_bindI [OF place], clarify)
    fix a u' m2
    assume P: "unat (TO_HOST a) = heap_used ?u" "heap_used u' = heap_used ?u + length s + 1"
      "mmu_room h k u' m2" "zero_between (heap_used u') (heap_limit u') m2"
      "load_bytes (length s + 1) m2 (TO_HOST a) = Inr (s @ [0])" "keeps_rights ?m m2"
      "\<forall>x. ?m x \<noteq> None \<longrightarrow> unat x < heap_used ?u \<longrightarrow> m2 x = ?m x"
    have lim: "heap_used u' \<le> user_space"
      using P(3) heap_used_eq(2) [of h u' m2] by (simp add: mmu_room_def heap_limit_def)
    have S: "8 \<le> unat ?b" "unat ?b \<le> heap_used ?u" "rw_between (unat ?b - 8) (unat ?b) m2"
      using assms(3) rw_between_kept [OF _ P(6)] by (simp_all add: stack_room_def)
    have "unat ?b \<le> user_space" using S P lim by simp
    then obtain m3 where m3: "store_bytes (le_bytes 8 a) m2 (?b - 8) = Inr m3"
      "load_bytes 8 m3 (?b - 8) = Inr (le_bytes 8 a)" "same_prot m2 m3"
      and out: "\<And>x. unat ?b \<le> unat x \<or> unat x + 8 < unat ?b \<Longrightarrow> m3 x = m2 x"
      using stack_store [of ?b "le_bytes 8 a" m2] S by auto
    have sp: "TO_HOST (stack_ptr m - 8) = ?b - 8" by (simp add: TO_HOST_def)
    have str: "load_bytes (length s + 1) m3 (TO_HOST a) = Inr (s @ [0])"
    proof (rule load_bytes_kept [OF P(5)])
      fix x
      assume "in_region (TO_HOST a) (length s + 1) x"
      then have "heap_used ?u \<le> unat x"
        using in_region_nat [of "TO_HOST a" "length s + 1"] P(1,2) lim by (simp add: user_space_def)
      with S(2) out show "m3 x = m2 x" by simp
    qed
    have "zero_between (heap_used u') (heap_limit u') m3"
      using P(2,4) S(2) out by (simp add: zero_between_def)
    moreover have "mmu_room h k u' m3"
      using heap.room_writes [OF conjI [OF host(1) P(3)] m3(3)] by simp
    moreover define m' where "m' = m\<lparr>mmu := u', state := (state m)\<lparr>gp_regs :=
      (gp_regs (state m))(reg_sp := stack_ptr m - 8), mem := m3\<rparr>\<rparr>"
    moreover have f: "mmu m' = u'" "mem (state m') = m3" "stack_ptr m' = stack_ptr m - 8"
      by (simp_all add: m'_def stack_ptr_def)
    moreover have "pushed [s] [a] m m'"
      unfolding pushed_def f using m3(2) str P(1,2,7) out keeps_rights_trans [OF P(6) same_prot_keeps [OF m3(3)]]
      by (simp add: sp stack_frame_def string_at_def f) (simp add: m'_def same_but_sp_def)
    ultimately have "bindE (mmu_write m2 (stack_ptr m - 8) (le_bytes 8 a)) (\<lambda>m3. Inr (m\<lparr>mmu := u',
        state := (state m)\<lparr>gp_regs := (gp_regs (state m))(reg_sp := stack_ptr m - 8), mem := m3\<rparr>\<rparr>)) = Inr m'"
      "(\<exists>p. pushed [s] [p] m m') \<and> heap_room h k m'"
      using m3(1) host(1) by (auto simp: mmu_write_def sp heap_room_def)
    then show "outcome mmap_failed (\<lambda>m'. (\<exists>p. pushed [s] [p] m m') \<and> heap_room h k m')
        (bindE (mmu_write m2 (stack_ptr m - 8) (le_bytes 8 a)) (\<lambda>m3. Inr (m\<lparr>mmu := u',
          state := (state m)\<lparr>gp_regs := (gp_regs (state m))(reg_sp := stack_ptr m - 8), mem := m3\<rparr>\<rparr>)))"
      by (simp only: outcome_Inr)
  qed
qed

section \<open>All arguments\<close>

lemma stack_room_mono: "stack_room n m \<Longrightarrow> k \<le> n \<Longrightarrow> stack_room k m"
  by (auto simp: stack_room_def elim: between_sub)

lemma pushed_Cons:
  assumes 1: "pushed [s] [p] m m1" and 2: "pushed ss ps m1 m2"
    and st: "stack_room (8 * (length ss + 1)) m" and top: "heap_used (mmu m2) \<le> user_space"
  shows "pushed (s # ss) (p # ps) m m2"
proof -
  let ?b = "unat (TO_HOST (stack_ptr m))" and ?n = "8 * length ss"
  let ?M = "mem (state m)" and ?M1 = "mem (state m1)" and ?M2 = "mem (state m2)"
  note P1 = 1 [unfolded pushed_def] and P2 = 2 [unfolded pushed_def]
  have used: "heap_used (mmu m) \<le> heap_used (mmu m1)" "heap_used (mmu m1) \<le> heap_used (mmu m2)"
    using P1 P2 by blast+
  have b: "?n + 8 \<le> ?b" "?b \<le> heap_used (mmu m)" using st by (simp_all add: stack_room_def)
  have sp: "stack_ptr m1 = stack_ptr m - 8" "stack_ptr m2 = stack_ptr m1 - word_of_nat ?n"
    using P1 P2 by simp_all
  have h: "TO_HOST (stack_ptr m1) = TO_HOST (stack_ptr m) - 8"
    "TO_HOST (stack_ptr m2) + word_of_nat ?n = TO_HOST (stack_ptr m1)"
    by (simp_all add: sp TO_HOST_def)
  have b1: "unat (TO_HOST (stack_ptr m1)) = ?b - 8"
    unfolding h using b(1) by (simp add: unat_sub word_le_nat_alt)
  have frame1: "?M1 x = ?M x" if "?M x \<noteq> None" "unat x < heap_used (mmu m)" "?b \<le> unat x \<or> unat x + 8 < ?b" for x
    using P1 that by (simp add: stack_frame_def)
  have frame2: "?M2 x = ?M1 x"
    if "?M1 x \<noteq> None" "unat x < heap_used (mmu m1)" "?b - 8 \<le> unat x \<or> unat x + ?n < ?b - 8" for x
    using P2 that by (simp add: stack_frame_def b1)
  have kept: "load_bytes k ?M2 a = Inr bs"
    if "load_bytes k ?M1 a = Inr bs" "?b - 8 \<le> unat a" "unat a + k \<le> heap_used (mmu m1)" for k a bs
  proof (rule load_bytes_kept [OF that(1)])
    fix x
    assume "in_region a k x" "?M1 x \<noteq> None"
    with that(2,3) used top frame2 [of x] show "?M2 x = ?M1 x"
      by (subst (asm) in_region_nat) (simp_all add: user_space_def)
  qed
  have str: "string_at (heap_used (mmu m)) (heap_used (mmu m1)) ?M1 p s" using P1 by simp
  from P1 have "load_bytes 8 ?M1 (TO_HOST (stack_ptr m1)) = Inr (le_bytes 8 p)" by auto
  then have "load_bytes 8 ?M2 (TO_HOST (stack_ptr m1)) = Inr (le_bytes 8 p)"
    using b used by (intro kept) (simp_all add: b1)
  moreover from P2 have "load_bytes ?n ?M2 (TO_HOST (stack_ptr m2)) = Inr (concat (map (le_bytes 8) (rev ps)))"
    by blast
  ultimately have "load_bytes (?n + 8) ?M2 (TO_HOST (stack_ptr m2)) = Inr (concat (map (le_bytes 8) (rev (p # ps))))"
    by (simp only: load_bytes_append h(2) bindE.simps) simp
  moreover have "string_at (heap_used (mmu m)) (heap_used (mmu m2)) ?M2 p s"
    using str b used kept [of "length s + 1" "TO_HOST p" "s @ [0]"]
    unfolding string_at_def by linarith
  moreover have "list_all2 (string_at (heap_used (mmu m)) (heap_used (mmu m2)) ?M2) ps ss"
    using P2 used by (auto elim!: list_all2_mono simp: string_at_def)
  moreover have "stack_frame (?n + 8) m m2"
    using b used frame1 frame2 by (fastforce simp: stack_frame_def)
  moreover have "stack_ptr m2 = stack_ptr m - word_of_nat (?n + 8)" by (simp add: sp)
  moreover have "same_but_sp m m2" "keeps_rights ?M ?M2"
    using P1 P2 same_but_sp_trans keeps_rights_trans by blast+
  moreover have "8 * length (s # ss) = ?n + 8" by simp
  ultimately show ?thesis
    unfolding pushed_def list_all2_Cons using used order_trans by (simp only:) blast
qed

lemma heap_room_used: "heap_room h k m \<Longrightarrow> heap_used (mmu m) \<le> user_space"
  using heap.room_bounds [of h k "mmu m" "mem (state m)"] by (simp add: heap_room_def)

lemma stack_room_pushed:
  assumes "pushed [s] [p] m m'" "stack_room (n + 8) m"
  shows "stack_room n m'"
proof -
  let ?b = "unat (TO_HOST (stack_ptr m))"
  have "TO_HOST (stack_ptr m') = TO_HOST (stack_ptr m) - 8"
    using assms(1) by (simp add: pushed_def TO_HOST_def)
  moreover have "n + 8 \<le> ?b" using assms(2) by (simp add: stack_room_def)
  ultimately have "unat (TO_HOST (stack_ptr m')) = ?b - 8" by (simp add: unat_sub word_le_nat_alt)
  moreover have "rw_between (?b - (n + 8)) ?b (mem (state m'))"
    using assms rw_between_kept by (auto simp: stack_room_def pushed_def)
  then have "rw_between (?b - 8 - n) (?b - 8) (mem (state m'))" by (rule between_sub) simp_all
  moreover have "heap_used (mmu m) \<le> heap_used (mmu m')" using assms(1) by (simp add: pushed_def)
  ultimately show ?thesis using assms(2) by (auto simp: stack_room_def)
qed

lemma push_args_ok:
  assumes "heap_room h (sum_list (map (string_cost h) ss) + k) m" "\<forall>s \<in> set ss. length s + 1 < 2 ^ 63"
    and "stack_room (8 * length ss) m"
  shows "outcome mmap_failed (\<lambda>m'. (\<exists>ps. pushed ss ps m m') \<and> heap_room h k m') (push_args h m ss)"
  using assms
proof (induction ss arbitrary: m)
  case Nil
  then show ?case using pushed_nil by auto
next
  case (Cons s ss)
  let ?k = "sum_list (map (string_cost h) ss) + k"
  have "heap_room h (string_cost h s + ?k) m" "length s + 1 < 2 ^ 63" "stack_room 8 m"
    using Cons.prems stack_room_mono [of "8 * length (s # ss)" m 8] by (simp_all add: add.assoc)
  note first = push_arg_ok [OF this]
  show ?case
    unfolding push_args.simps
  proof (rule outcome_bindI [OF first], elim conjE exE)
    fix m1 p
    assume 1: "heap_room h ?k m1" "pushed [s] [p] m m1"
    have "stack_room (8 * length ss) m1"
      using stack_room_pushed [OF 1(2)] Cons.prems(3) by (simp add: add.commute)
    from Cons.IH [OF 1(1) _ this] Cons.prems(2) have
      "outcome mmap_failed (\<lambda>m'. (\<exists>ps. pushed ss ps m1 m') \<and> heap_room h k m') (push_args h m1 ss)" by simp
    moreover have "pushed (s # ss) (p # ps) m m2" if "pushed ss ps m1 m2" "heap_room h k m2" for ps m2
      using pushed_Cons [OF 1(2) that(1)] Cons.prems(3) heap_room_used [OF that(2)] by simp
    ultimately show "outcome mmap_failed (\<lambda>m'. (\<exists>ps. pushed (s # ss) ps m m') \<and> heap_room h k m') (push_args h m1 ss)"
      by (auto elim!: outcome_mono)
  qed
qed

section \<open>The whole stack\<close>

text \<open>
  The vector at the stack pointer: \<open>argc\<close> with the four bytes behind it, the pointers, and the
  null pointers that end the arguments, the environment and the auxiliary vector.
\<close>

definition argument_vector :: "u8 list \<Rightarrow> u8 list list \<Rightarrow> u64 list \<Rightarrow> 'w machine_t \<Rightarrow> bool" where
  "argument_vector count args ps m \<longleftrightarrow>
     load_bytes 8 (mem (state m)) (TO_HOST (stack_ptr m)) = Inr count \<and>
     load_bytes (8 * length args) (mem (state m)) (TO_HOST (stack_ptr m + 8)) = Inr (concat (map (le_bytes 8) ps)) \<and>
     load_bytes 24 (mem (state m)) (TO_HOST (stack_ptr m + 8 + word_of_nat (8 * length args))) =
       Inr (replicate 24 0) \<and>
     list_all2 (\<lambda>p s. load_bytes (length s + 1) (mem (state m)) (TO_HOST p) = Inr (s @ [0])) ps args"

text \<open>The stack after it is allocated: empty but for the three null pointers at its top.\<close>

definition empty_stack :: "nat \<Rightarrow> 'w machine_t \<Rightarrow> bool" where
  "empty_stack n m \<longleftrightarrow> stack_room n m \<and> unat (TO_HOST (stack_ptr m)) + 24 \<le> heap_used (mmu m) \<and>
     load_bytes 24 (mem (state m)) (TO_HOST (stack_ptr m)) = Inr (replicate 24 0)"

definition setup_stack :: "host_t \<Rightarrow> 'w machine_t \<Rightarrow> 'w machine_t res" where
  "setup_stack h m = bindE (machine_alloc h m STACK_SIZE) (\<lambda>(addr, m1).
     Inr (m1\<lparr>state := (state m1)\<lparr>gp_regs := (gp_regs (state m1))(reg_sp := addr + STACK_SIZE - 24)\<rparr>\<rparr>))"

lemma setup_stack_ok:
  assumes "heap_room h (page_cost h STACK_SIZE + k) m" "n + 24 \<le> unat STACK_SIZE"
  shows "outcome mmap_failed (\<lambda>m'. empty_stack n m' \<and> heap_room h k m' \<and> same_but_sp m m' \<and>
      unat (TO_HOST (stack_ptr m')) + 24 = heap_used (mmu m) + unat STACK_SIZE \<and>
      stack_ptr m' = guest_alloc (mmu m) + STACK_SIZE - 24 \<and>
      (\<forall>x. mem (state m) x \<noteq> None \<longrightarrow> mem (state m') x = mem (state m) x)) (setup_stack h m)"
proof -
  let ?u = "mmu m" and ?m = "mem (state m)"
  have S: "0 < sint STACK_SIZE" "unat STACK_SIZE = 33554432" by (simp_all add: STACK_SIZE_def)
  have room: "host_ok h \<and> mmu_room h (page_cost h STACK_SIZE + k) ?u ?m"
    and zero: "zero_between (heap_used ?u) (heap_limit ?u) ?m"
    using assms(1) by (simp_all add: heap_room_def)
  show ?thesis
  proof (cases "mmu_alloc h ?u ?m STACK_SIZE")
    case (Inl e)
    with heap.alloc_refused [OF room S(1) Inl] show ?thesis by (simp add: setup_stack_def machine_alloc_def)
  next
    case (Inr r)
    obtain a u' m1 where r: "r = (a, u', m1)" by (cases r)
    note al = Inr [unfolded r]
    note A = heap.alloc_area [OF room S(1) al] and K = heap.alloc_kept [OF room S(1) al]
      and F = heap.alloc_fresh [OF room S(1) al] and Z = heap.alloc_zeros [OF room S(1) al zero]
    have B: "heap_used u' \<le> heap_limit u'" "heap_limit u' \<le> user_space"
      using A heap.room_bounds [of h k u' m1] by blast+
    let ?sp = "a + STACK_SIZE - 24"
    have "TO_HOST ?sp = TO_HOST a + word_of_nat 33554408" by (simp add: TO_HOST_def STACK_SIZE_def)
    moreover have "unat (TO_HOST a + word_of_nat 33554408) = heap_used ?u + 33554408"
      using A B S(2) unat_add_nat [of "TO_HOST a" 33554408] by (simp add: user_space_def)
    ultimately have sp: "unat (TO_HOST ?sp) = heap_used ?u + 33554408" by simp
    have "load_bytes 24 m1 (TO_HOST ?sp) = Inr (replicate 24 0)"
    proof (rule load_zeros)
      fix x
      assume "in_region (TO_HOST ?sp) 24 x"
      then have "heap_used ?u + 33554408 \<le> unat x \<and> unat x < heap_used u'"
        using A B S(2) sp by (subst (asm) in_region_nat) (simp_all add: user_space_def)
      with Z F B show "readable m1 x \<and> map_option fst (m1 x) = Some 0"
        by (simp add: zero_between_def rw_between_def)
    qed
    moreover have "rw_between (unat (TO_HOST ?sp) - n) (unat (TO_HOST ?sp)) m1"
      using F A S(2) sp assms(2) by (auto elim!: between_sub)
    moreover have "zero_between (heap_used u') (heap_limit u') m1"
      using Z A by (auto elim!: between_sub)
    ultimately show ?thesis
      using al A S(2) sp assms(2) room K mmu_alloc_cases(1) [OF _ S(1) al]
      by (simp add: setup_stack_def machine_alloc_def empty_stack_def stack_room_def stack_ptr_def heap_room_def
          same_but_sp_def mmu_room_def)
  qed
qed

definition set_stack :: "'w machine_t \<Rightarrow> u64 \<Rightarrow> mem_t \<Rightarrow> 'w machine_t" where
  "set_stack m sp mem' = m\<lparr>state := (state m)\<lparr>gp_regs := (gp_regs (state m))(reg_sp := sp), mem := mem'\<rparr>\<rparr>"

lemma set_stack_fields [simp]:
  "stack_ptr (set_stack m sp mem') = sp" "mem (state (set_stack m sp mem')) = mem'"
  "mmu (set_stack m sp mem') = mmu m" "same_but_sp m (set_stack m sp mem')"
  by (simp_all add: set_stack_def stack_ptr_def same_but_sp_def)

lemma machine_setup_eq:
  "machine_setup h pad m argv = bindE (setup_stack h m) (\<lambda>m3. bindE (push_args h m3 (rev (tl argv))) (\<lambda>m4.
     bindE (mmu_write (mem (state m4)) (stack_ptr m4 - 8)
       (le_bytes 4 (word_of_nat (length argv) :: u32) @ le_bytes 4 pad)) (\<lambda>mem'.
     Inr (set_stack m4 (stack_ptr m4 - 8) mem'))))"
  by (cases "machine_alloc h m STACK_SIZE")
    (auto simp: machine_setup_def setup_stack_def sp_sub_def machine_write_def stack_ptr_def set_stack_def
      Let_def)

text \<open>\<open>argc\<close> on top of the pointers completes the vector.\<close>

lemma argc_ok:
  assumes e: "empty_stack (8 * length args + 8) m" and p: "pushed (rev args) ps m m'"
    and count: "length count = 8" and top: "heap_used (mmu m') \<le> user_space"
  obtains mem' where "mmu_write (mem (state m')) (stack_ptr m' - 8) count = Inr mem'"
    "same_prot (mem (state m')) mem'"
    "\<And>x. unat x + (8 * length args + 8) < unat (TO_HOST (stack_ptr m)) \<or> heap_used (mmu m) \<le> unat x \<Longrightarrow>
       mem' x = mem (state m') x"
    "argument_vector count args (rev ps) (set_stack m' (stack_ptr m' - 8) mem')"
proof -
  let ?b = "unat (TO_HOST (stack_ptr m))" and ?n = "8 * length args" and ?M = "mem (state m')"
  note P = p [unfolded pushed_def length_rev]
  have E: "?n + 8 \<le> ?b" "?b + 24 \<le> heap_used (mmu m)" "rw_between (?b - (?n + 8)) ?b (mem (state m))"
    "load_bytes 24 (mem (state m)) (TO_HOST (stack_ptr m)) = Inr (replicate 24 0)"
    using e by (simp_all add: empty_stack_def stack_room_def)
  have used: "heap_used (mmu m) \<le> heap_used (mmu m')" using P by blast
  have sp: "stack_ptr m' = stack_ptr m - word_of_nat ?n" using P by simp
  let ?c = "TO_HOST (stack_ptr m')"
  have "unat (word_of_nat ?n :: u64) = ?n" using E used top by (intro unat_nat) (simp add: user_space_def)
  moreover have "?c = TO_HOST (stack_ptr m) - word_of_nat ?n" by (simp add: sp TO_HOST_def)
  ultimately have c: "unat ?c = ?b - ?n" using E(1) by (simp add: unat_sub word_le_nat_alt)
  have rw: "rw_between (?b - (?n + 8)) ?b ?M" using P E(3) rw_between_kept by blast
  have "rw_between (unat ?c - length count) (unat ?c) ?M" "length count \<le> unat ?c" "unat ?c \<le> user_space"
    using between_sub(2) [OF rw] E used top by (simp_all add: c count)
  from stack_store [OF this] obtain mem' where
    m': "store_bytes count ?M (?c - 8) = Inr mem'" "load_bytes 8 mem' (?c - 8) = Inr count" "same_prot ?M mem'"
    and out: "\<And>x. unat ?c \<le> unat x \<or> unat x + 8 < unat ?c \<Longrightarrow> mem' x = ?M x"
    unfolding count by auto
  have kept: "load_bytes k mem' a = Inr bs" if "load_bytes k ?M a = Inr bs" "unat ?c \<le> unat a" "unat a + k \<le> user_space" for k a bs
    using that out by (intro load_bytes_kept [OF that(1)]) (subst (asm) in_region_nat, simp_all add: user_space_def)
  have h: "TO_HOST (stack_ptr m' - 8) = ?c - 8" "stack_ptr m' - 8 + 8 = stack_ptr m'"
    "stack_ptr m' + word_of_nat ?n = stack_ptr m"
    by (simp_all add: sp TO_HOST_def)
  have "load_bytes ?n mem' ?c = Inr (concat (map (le_bytes 8) (rev ps)))"
  proof (rule kept)
    show "load_bytes ?n ?M ?c = Inr (concat (map (le_bytes 8) (rev ps)))" using P by blast
  qed (use E used top c in simp_all)
  moreover have "load_bytes 24 mem' (TO_HOST (stack_ptr m)) = Inr (replicate 24 0)"
  proof (rule kept)
    show "load_bytes 24 ?M (TO_HOST (stack_ptr m)) = Inr (replicate 24 0)"
      using E P top used by (intro load_bytes_kept [OF E(4)])
        (subst (asm) in_region_nat, simp_all add: user_space_def stack_frame_def)
  qed (use E used top c in simp_all)
  moreover have "list_all2 (\<lambda>p s. load_bytes (length s + 1) mem' (TO_HOST p) = Inr (s @ [0])) (rev ps) args"
  proof -
    have "list_all2 (string_at (heap_used (mmu m)) (heap_used (mmu m')) ?M) (rev ps) args"
      using P by (metis list_all2_rev rev_rev_ident)
    then show ?thesis
      by (rule list_all2_mono) (use E used top c in \<open>auto simp: string_at_def simp del: load_bytes.simps intro!: kept\<close>)
  qed
  ultimately have "argument_vector count args (rev ps) (set_stack m' (stack_ptr m' - 8) mem')"
    using m'(2) by (simp only: argument_vector_def set_stack_fields h)
  moreover have "mem' x = ?M x" if "unat x + (?n + 8) < ?b \<or> heap_used (mmu m) \<le> unat x" for x
    using that out [of x] E c by linarith
  ultimately show ?thesis using m'(1,3) that [of mem'] by (simp add: mmu_write_def h)
qed

definition setup_cost :: "host_t \<Rightarrow> u8 list list \<Rightarrow> nat" where
  "setup_cost h args = page_cost h STACK_SIZE + sum_list (map (string_cost h) args)"

text \<open>What \<open>machine_setup\<close> leaves, for the arguments \<open>args\<close> behind the emulator's own name.\<close>

definition stack_built :: "u8 list \<Rightarrow> u8 list list \<Rightarrow> 'w machine_t \<Rightarrow> 'w machine_t \<Rightarrow> bool" where
  "stack_built count args m m' \<longleftrightarrow> same_but_sp m m' \<and>
     stack_ptr m' = guest_alloc (mmu m) + STACK_SIZE - word_of_nat (8 * length args + 32) \<and>
     (\<exists>ps. argument_vector count args ps m') \<and>
     (\<forall>x. mem (state m) x \<noteq> None \<and> unat x < heap_used (mmu m) \<longrightarrow> mem (state m') x = mem (state m) x)"

lemma stack_complete:
  assumes 3: "empty_stack (8 * length args + 8) m3" "same_but_sp m m3"
      "unat (TO_HOST (stack_ptr m3)) + 24 = heap_used (mmu m) + unat STACK_SIZE"
      "stack_ptr m3 = guest_alloc (mmu m) + STACK_SIZE - 24"
      "\<forall>x. mem (state m) x \<noteq> None \<longrightarrow> mem (state m3) x = mem (state m) x"
    and 4: "heap_room h k m4" "pushed (rev args) ps m3 m4"
    and len: "8 * length args + 32 \<le> unat STACK_SIZE" and count: "length count = 8"
  obtains mem' where "mmu_write (mem (state m4)) (stack_ptr m4 - 8) count = Inr mem'"
    "stack_built count args m (set_stack m4 (stack_ptr m4 - 8) mem')"
    "heap_room h k (set_stack m4 (stack_ptr m4 - 8) mem')"
proof -
  let ?n = "8 * length args" and ?b = "unat (TO_HOST (stack_ptr m3))"
  from argc_ok [OF 3(1) 4(2) count heap_room_used [OF 4(1)]] obtain mem' where
    w: "mmu_write (mem (state m4)) (stack_ptr m4 - 8) count = Inr mem'" "same_prot (mem (state m4)) mem'"
    and out: "\<And>x. unat x + (?n + 8) < ?b \<or> heap_used (mmu m3) \<le> unat x \<Longrightarrow> mem' x = mem (state m4) x"
    and vec: "argument_vector count args (rev ps) (set_stack m4 (stack_ptr m4 - 8) mem')"
    by blast
  note P = 4(2) [unfolded pushed_def length_rev]
  have "mem' x = mem (state m) x" if "mem (state m) x \<noteq> None" "unat x < heap_used (mmu m)" for x
  proof -
    have "unat x + (?n + 8) < ?b" using that(2) len 3(3) by linarith
    moreover have "unat x < heap_used (mmu m3)" using calculation 3(1) by (simp add: empty_stack_def)
    moreover have "mem (state m3) x = mem (state m) x" using 3(5) that(1) by blast
    ultimately show ?thesis using P that(1) out [of x] by (simp add: stack_frame_def)
  qed
  moreover have "heap_room h k (set_stack m4 (stack_ptr m4 - 8) mem')"
    using 4(1) heap.room_writes [OF _ w(2), of h k "mmu m4"] P out
    by (auto simp: heap_room_def zero_between_def)
  moreover have "same_but_sp m (set_stack m4 (stack_ptr m4 - 8) mem')"
    using 3(2) P same_but_sp_trans set_stack_fields(4) by blast
  moreover have "stack_ptr m4 - 8 = guest_alloc (mmu m) + STACK_SIZE - word_of_nat (?n + 32)"
    using P by (simp add: 3(4))
  ultimately show ?thesis
    using vec by (intro that [OF w(1)]) (unfold stack_built_def set_stack_fields, blast+)
qed

lemma machine_setup_ok:
  fixes pad :: u32
  assumes "heap_room h (setup_cost h (tl argv) + k) m" "\<forall>s \<in> set (tl argv). length s + 1 < 2 ^ 63"
    and len: "8 * length (tl argv) + 32 \<le> unat STACK_SIZE"
  defines "count \<equiv> le_bytes 4 (word_of_nat (length argv) :: u32) @ le_bytes 4 pad"
  shows "outcome mmap_failed (\<lambda>m'. stack_built count (tl argv) m m' \<and> heap_room h k m')
    (machine_setup h pad m argv)"
proof -
  let ?args = "tl argv" and ?n = "8 * length (tl argv)"
  let ?P = "\<lambda>m'. stack_built count ?args m m' \<and> heap_room h k m'"
  let ?k = "sum_list (map (string_cost h) (rev ?args)) + k"
  have sum: "setup_cost h ?args + k = page_cost h STACK_SIZE + ?k"
    by (simp add: setup_cost_def rev_map [symmetric] sum_list_rev)
  have "(?n + 8) + 24 \<le> unat STACK_SIZE" using len by simp
  note stack = setup_stack_ok [OF assms(1) [unfolded sum] this]
  show ?thesis
    unfolding machine_setup_eq count_def [symmetric]
  proof (rule outcome_bindI [OF stack], elim conjE)
    fix m3
    assume 3: "empty_stack (?n + 8) m3" "heap_room h ?k m3" "same_but_sp m m3"
      "unat (TO_HOST (stack_ptr m3)) + 24 = heap_used (mmu m) + unat STACK_SIZE"
      "stack_ptr m3 = guest_alloc (mmu m) + STACK_SIZE - 24"
      "\<forall>x. mem (state m) x \<noteq> None \<longrightarrow> mem (state m3) x = mem (state m) x"
    have "stack_room (8 * length (rev ?args)) m3"
      using 3(1) stack_room_mono [of "?n + 8" m3] by (simp add: empty_stack_def)
    with push_args_ok [OF 3(2)] assms(2) have push: "outcome mmap_failed
      (\<lambda>m'. (\<exists>ps. pushed (rev ?args) ps m3 m') \<and> heap_room h k m') (push_args h m3 (rev ?args))" by simp
    have "length count = 8" by (simp add: count_def)
    note complete = stack_complete [OF 3(1,3-6) _ _ len this]
    show "outcome mmap_failed ?P (bindE (push_args h m3 (rev ?args)) (\<lambda>m4.
        bindE (mmu_write (mem (state m4)) (stack_ptr m4 - 8) count) (\<lambda>mem'.
        Inr (set_stack m4 (stack_ptr m4 - 8) mem'))))"
      by (rule outcome_bindI [OF push], elim conjE exE, rule complete, assumption+) simp
  qed
qed

end
