(* ===== verification/Encode.thy ===== *)
theory Encode
  imports Decode_WF
begin

text \<open>
  The encodings of RV64IMFDC as the ISA manual tabulates them, written independently of the
  decoder's shifts and masks: the 32-bit formats as concatenations of typed fields, the opcode
  tables, and the expansion of every compressed instruction into the 32-bit instruction it
  abbreviates. They are the reference the decoder is compared with.
\<close>

section \<open>Bit by bit\<close>

lemma bit_beyond: "LENGTH('a) \<le> n \<Longrightarrow> \<not> bit (w :: 'a::len word) n"
  using bit_imp_le_length by fastforce

lemma all_less_32:
  "P 0 \<and> P 1 \<and> P 2 \<and> P 3 \<and> P 4 \<and> P 5 \<and> P 6 \<and> P 7 \<and> P 8 \<and> P 9 \<and> P 10 \<and> P 11 \<and> P 12 \<and>
   P 13 \<and> P 14 \<and> P 15 \<and> P 16 \<and> P 17 \<and> P 18 \<and> P 19 \<and> P 20 \<and> P 21 \<and> P 22 \<and> P 23 \<and>
   P 24 \<and> P 25 \<and> P 26 \<and> P 27 \<and> P 28 \<and> P 29 \<and> P 30 \<and> P 31 \<Longrightarrow> \<forall>n<32::nat. P n"
  by (simp add: All_less_Suc eval_nat_numeral)

text \<open>Two 32-bit words are equal when their 32 bits are, one conjunct per bit.\<close>

lemma word32_eqI: "\<forall>n<32. bit x n = bit y n \<Longrightarrow> x = (y :: u32)"
  by (rule bit_word_eqI) simp

lemmas bits32 = word32_eqI [OF all_less_32]

lemma bit_times_2:
  "bit (w * 2 :: 'a::len word) n \<longleftrightarrow> 0 < n \<and> n < LENGTH('a) \<and> bit w (n - 1)"
  using bit_push_bit_iff [of 1 w n] by (auto simp: push_bit_eq_mult possible_bit_word)

section \<open>The 32-bit formats\<close>

type_synonym reg = "5 word"

definition enc_r :: "7 word \<Rightarrow> reg \<Rightarrow> reg \<Rightarrow> 3 word \<Rightarrow> reg \<Rightarrow> 7 word \<Rightarrow> u32" where
  "enc_r f7 r2 r1 f3 r op = push_bit 25 (ucast f7) OR push_bit 20 (ucast r2) OR
     push_bit 15 (ucast r1) OR push_bit 12 (ucast f3) OR push_bit 7 (ucast r) OR ucast op"

definition enc_r4 :: "reg \<Rightarrow> 2 word \<Rightarrow> reg \<Rightarrow> reg \<Rightarrow> 3 word \<Rightarrow> reg \<Rightarrow> 7 word \<Rightarrow> u32" where
  "enc_r4 r3 f2 r2 r1 rm r op =
     enc_r (push_bit 2 (ucast r3) OR ucast f2) r2 r1 rm r op"

definition enc_i :: "12 word \<Rightarrow> reg \<Rightarrow> 3 word \<Rightarrow> reg \<Rightarrow> 7 word \<Rightarrow> u32" where
  "enc_i i r1 f3 r op = enc_r (ucast (drop_bit 5 i)) (ucast i) r1 f3 r op"

definition enc_s :: "12 word \<Rightarrow> reg \<Rightarrow> reg \<Rightarrow> 3 word \<Rightarrow> 7 word \<Rightarrow> u32" where
  "enc_s i r2 r1 f3 op = enc_r (ucast (drop_bit 5 i)) r2 r1 f3 (ucast i) op"

text \<open>
  The offset of a branch is twice the 12-bit value \<open>i\<close>, of \<open>jal\<close> twice a 20-bit value.
\<close>

definition enc_b :: "12 word \<Rightarrow> reg \<Rightarrow> reg \<Rightarrow> 3 word \<Rightarrow> 7 word \<Rightarrow> u32" where
  "enc_b i r2 r1 f3 op =
     enc_r (push_bit 6 (ucast (drop_bit 11 i)) OR (ucast (drop_bit 4 i) AND mask 6)) r2 r1 f3
       (push_bit 1 (ucast i AND mask 4) OR ucast (drop_bit 10 i AND 1)) op"

definition enc_u :: "20 word \<Rightarrow> reg \<Rightarrow> 7 word \<Rightarrow> u32" where
  "enc_u i r op = push_bit 12 (ucast i) OR push_bit 7 (ucast r) OR ucast op"

definition enc_j :: "20 word \<Rightarrow> reg \<Rightarrow> 7 word \<Rightarrow> u32" where
  "enc_j i r op = enc_u (push_bit 19 (drop_bit 19 i) OR push_bit 9 (i AND mask 10) OR
     push_bit 8 (drop_bit 10 i AND 1) OR (drop_bit 11 i AND mask 8)) r op"

text \<open>The immediate of a shift: fixed upper bits above the shift amount.\<close>

definition shift_imm :: "6 word \<Rightarrow> 6 word \<Rightarrow> 12 word" where
  "shift_imm h shamt = push_bit 6 (ucast h) OR ucast shamt"

definition shiftw_imm :: "7 word \<Rightarrow> 5 word \<Rightarrow> 12 word" where
  "shiftw_imm h shamt = push_bit 5 (ucast h) OR ucast shamt"

subsection \<open>Fields of the formats\<close>

lemma fields_enc_r [simp]:
  "FUNCT7 (enc_r f7 r2 r1 f3 r op) = ucast f7"
  "FUNCT3 (enc_r f7 r2 r1 f3 r op) = ucast f3"
  "RS1 (enc_r f7 r2 r1 f3 r op) = ucast r1"
  "RS2 (enc_r f7 r2 r1 f3 r op) = ucast r2"
  "RD (enc_r f7 r2 r1 f3 r op) = ucast r"
  "OPCODE (enc_r f7 r2 r1 f3 r op) = drop_bit 2 (ucast op)"
  "QUADRANT (enc_r f7 r2 r1 f3 r op) = ucast op AND 3"
  unfolding enc_r_def field_defs
  by (rule bits32; simp add: bit_simps bit_beyond)+

lemma fields_enc_r4 [simp]:
  "FUNCT2 (enc_r4 r3 f2 r2 r1 rm r op) = ucast f2"
  "RS3 (enc_r4 r3 f2 r2 r1 rm r op) = ucast r3"
  unfolding enc_r4_def enc_r_def field_defs
  by (rule bits32; simp add: bit_simps bit_beyond)+

lemma fields_enc_i [simp]:
  "FUNCT7 (enc_i i r1 f3 r op) = ucast (ucast (drop_bit 5 i) :: 7 word)"
  "FUNCT3 (enc_i i r1 f3 r op) = ucast f3"
  "RS1 (enc_i i r1 f3 r op) = ucast r1"
  "RD (enc_i i r1 f3 r op) = ucast r"
  "OPCODE (enc_i i r1 f3 r op) = drop_bit 2 (ucast op)"
  "QUADRANT (enc_i i r1 f3 r op) = ucast op AND 3"
  by (simp_all add: enc_i_def)

lemma fields_enc_s [simp]:
  "FUNCT3 (enc_s i r2 r1 f3 op) = ucast f3"
  "RS1 (enc_s i r2 r1 f3 op) = ucast r1"
  "RS2 (enc_s i r2 r1 f3 op) = ucast r2"
  "OPCODE (enc_s i r2 r1 f3 op) = drop_bit 2 (ucast op)"
  "QUADRANT (enc_s i r2 r1 f3 op) = ucast op AND 3"
  by (simp_all add: enc_s_def)

lemma fields_enc_b [simp]:
  "FUNCT3 (enc_b i r2 r1 f3 op) = ucast f3"
  "RS1 (enc_b i r2 r1 f3 op) = ucast r1"
  "RS2 (enc_b i r2 r1 f3 op) = ucast r2"
  "OPCODE (enc_b i r2 r1 f3 op) = drop_bit 2 (ucast op)"
  "QUADRANT (enc_b i r2 r1 f3 op) = ucast op AND 3"
  by (simp_all add: enc_b_def)

lemma fields_enc_r4_more [simp]:
  "RS1 (enc_r4 r3 f2 r2 r1 rm r op) = ucast r1"
  "RS2 (enc_r4 r3 f2 r2 r1 rm r op) = ucast r2"
  "RD (enc_r4 r3 f2 r2 r1 rm r op) = ucast r"
  "OPCODE (enc_r4 r3 f2 r2 r1 rm r op) = drop_bit 2 (ucast op)"
  "QUADRANT (enc_r4 r3 f2 r2 r1 rm r op) = ucast op AND 3"
  by (simp_all add: enc_r4_def)

lemma IMM116_enc_i [simp]: "IMM116 (enc_i i r1 f3 r op) = ucast (drop_bit 6 i)"
  unfolding enc_i_def enc_r_def field_defs
  by (rule bits32) (simp add: bit_simps bit_beyond)

lemma drop_shift_imm [simp]:
  "drop_bit 6 (shift_imm h shamt) = ucast h"
  "(ucast (drop_bit 5 (shiftw_imm f7 shamt')) :: 7 word) = f7"
  unfolding shift_imm_def shiftw_imm_def
  by (rule bit_word_eqI; auto simp: bit_simps bit_beyond dest: bit_imp_le_length)+

lemma fields_enc_u [simp]:
  "RD (enc_u i r op) = ucast r"
  "OPCODE (enc_u i r op) = drop_bit 2 (ucast op)"
  "QUADRANT (enc_u i r op) = ucast op AND 3"
  unfolding enc_u_def field_defs
  by (rule bits32; simp add: bit_simps bit_beyond)+

lemma fields_enc_j [simp]:
  "RD (enc_j i r op) = ucast r"
  "OPCODE (enc_j i r op) = drop_bit 2 (ucast op)"
  "QUADRANT (enc_j i r op) = ucast op AND 3"
  by (simp_all add: enc_j_def)

lemma ucast_reg [simp]: "(ucast (ucast (r :: reg) :: u32) :: u8) = ucast r"
  by (rule bit_word_eqI) (auto simp: bit_simps bit_beyond)

subsection \<open>Immediates of the formats\<close>

lemma imm_enc_i: "imm (inst_itype_read (enc_i i r1 f3 r op)) = scast i"
  unfolding enc_i_def enc_r_def inst_itype_read_def
  by (simp, rule bits32) (simp add: bit_simps bit_beyond)

lemma imm_enc_s: "imm (inst_stype_read (enc_s i r2 r1 f3 op)) = scast i"
  unfolding enc_s_def enc_r_def inst_stype_read_def Let_def
  by (simp, rule bits32) (simp add: bit_simps bit_sext_imm bit_times_2 bit_beyond)

lemma imm_enc_b: "imm (inst_btype_read (enc_b i r2 r1 f3 op)) = push_bit 1 (scast i)"
  unfolding enc_b_def enc_r_def inst_btype_read_def Let_def
  by (simp, rule bits32) (simp add: bit_simps bit_sext_imm bit_times_2 bit_beyond)

lemma imm_enc_u: "imm (inst_utype_read (enc_u i r op)) = push_bit 12 (ucast i)"
  unfolding enc_u_def inst_utype_read_def Let_def
  by (simp, rule bits32) (simp add: bit_simps bit_beyond)

lemma imm_enc_j: "imm (inst_jtype_read (enc_j i r op)) = push_bit 1 (scast i)"
  unfolding enc_j_def enc_u_def inst_jtype_read_def Let_def
  by (simp, rule bits32) (simp add: bit_simps bit_sext_imm bit_times_2 bit_beyond)

section \<open>Opcode tables\<close>

text \<open>
  One row per instruction: its type and the fixed fields of its encoding. In the tables of the
  I, S and B formats the row is \<open>(type, funct3, opcode)\<close>; the shifts by an immediate, whose
  upper immediate bits are fixed, have tables of their own.
\<close>

definition r_table :: "(inst_type_t \<times> 7 word \<times> 3 word \<times> 7 word) list" where
  "r_table =
    [(inst_add, 0x00, 0, 0x33), (inst_sub, 0x20, 0, 0x33), (inst_sll, 0x00, 1, 0x33),
     (inst_slt, 0x00, 2, 0x33), (inst_sltu, 0x00, 3, 0x33), (inst_xor, 0x00, 4, 0x33),
     (inst_srl, 0x00, 5, 0x33), (inst_sra, 0x20, 5, 0x33), (inst_or, 0x00, 6, 0x33),
     (inst_and, 0x00, 7, 0x33),
     (inst_addw, 0x00, 0, 0x3b), (inst_subw, 0x20, 0, 0x3b), (inst_sllw, 0x00, 1, 0x3b),
     (inst_srlw, 0x00, 5, 0x3b), (inst_sraw, 0x20, 5, 0x3b),
     (inst_mul, 0x01, 0, 0x33), (inst_mulh, 0x01, 1, 0x33), (inst_mulhsu, 0x01, 2, 0x33),
     (inst_mulhu, 0x01, 3, 0x33), (inst_div, 0x01, 4, 0x33), (inst_divu, 0x01, 5, 0x33),
     (inst_rem, 0x01, 6, 0x33), (inst_remu, 0x01, 7, 0x33),
     (inst_mulw, 0x01, 0, 0x3b), (inst_divw, 0x01, 4, 0x3b), (inst_divuw, 0x01, 5, 0x3b),
     (inst_remw, 0x01, 6, 0x3b), (inst_remuw, 0x01, 7, 0x3b),
     (inst_fsgnj_s, 0x10, 0, 0x53), (inst_fsgnjn_s, 0x10, 1, 0x53), (inst_fsgnjx_s, 0x10, 2, 0x53),
     (inst_fmin_s, 0x14, 0, 0x53), (inst_fmax_s, 0x14, 1, 0x53), (inst_fle_s, 0x50, 0, 0x53),
     (inst_flt_s, 0x50, 1, 0x53), (inst_feq_s, 0x50, 2, 0x53),
     (inst_fsgnj_d, 0x11, 0, 0x53), (inst_fsgnjn_d, 0x11, 1, 0x53), (inst_fsgnjx_d, 0x11, 2, 0x53),
     (inst_fmin_d, 0x15, 0, 0x53), (inst_fmax_d, 0x15, 1, 0x53), (inst_fle_d, 0x51, 0, 0x53),
     (inst_flt_d, 0x51, 1, 0x53), (inst_feq_d, 0x51, 2, 0x53)]"

text \<open>Floating-point instructions whose \<open>funct3\<close> is the rounding mode.\<close>

definition frm_table :: "(inst_type_t \<times> 7 word) list" where
  "frm_table =
    [(inst_fadd_s, 0x00), (inst_fsub_s, 0x04), (inst_fmul_s, 0x08), (inst_fdiv_s, 0x0c),
     (inst_fadd_d, 0x01), (inst_fsub_d, 0x05), (inst_fmul_d, 0x09), (inst_fdiv_d, 0x0d)]"

text \<open>One-operand floating-point instructions: \<open>(type, funct7, rs2)\<close>, any rounding mode.\<close>

definition fcvt_table :: "(inst_type_t \<times> 7 word \<times> reg) list" where
  "fcvt_table =
    [(inst_fsqrt_s, 0x2c, 0), (inst_fsqrt_d, 0x2d, 0), (inst_fcvt_s_d, 0x20, 1),
     (inst_fcvt_d_s, 0x21, 0),
     (inst_fcvt_w_s, 0x60, 0), (inst_fcvt_wu_s, 0x60, 1), (inst_fcvt_l_s, 0x60, 2),
     (inst_fcvt_lu_s, 0x60, 3), (inst_fcvt_w_d, 0x61, 0), (inst_fcvt_wu_d, 0x61, 1),
     (inst_fcvt_l_d, 0x61, 2), (inst_fcvt_lu_d, 0x61, 3), (inst_fcvt_s_w, 0x68, 0),
     (inst_fcvt_s_wu, 0x68, 1), (inst_fcvt_s_l, 0x68, 2), (inst_fcvt_s_lu, 0x68, 3),
     (inst_fcvt_d_w, 0x69, 0), (inst_fcvt_d_wu, 0x69, 1), (inst_fcvt_d_l, 0x69, 2),
     (inst_fcvt_d_lu, 0x69, 3)]"

text \<open>Moves and classification: \<open>(type, funct7, funct3)\<close>, with \<open>rs2 = 0\<close>.\<close>

definition fmv_table :: "(inst_type_t \<times> 7 word \<times> 3 word) list" where
  "fmv_table =
    [(inst_fmv_x_w, 0x70, 0), (inst_fclass_s, 0x70, 1), (inst_fmv_w_x, 0x78, 0),
     (inst_fmv_x_d, 0x71, 0), (inst_fclass_d, 0x71, 1), (inst_fmv_d_x, 0x79, 0)]"

definition fma_table :: "(inst_type_t \<times> 2 word \<times> 7 word) list" where
  "fma_table =
    [(inst_fmadd_s, 0, 0x43), (inst_fmsub_s, 0, 0x47), (inst_fnmsub_s, 0, 0x4b),
     (inst_fnmadd_s, 0, 0x4f), (inst_fmadd_d, 1, 0x43), (inst_fmsub_d, 1, 0x47),
     (inst_fnmsub_d, 1, 0x4b), (inst_fnmadd_d, 1, 0x4f)]"

definition i_table :: "(inst_type_t \<times> 3 word \<times> 7 word) list" where
  "i_table =
    [(inst_lb, 0, 0x03), (inst_lh, 1, 0x03), (inst_lw, 2, 0x03), (inst_ld, 3, 0x03),
     (inst_lbu, 4, 0x03), (inst_lhu, 5, 0x03), (inst_lwu, 6, 0x03),
     (inst_flw, 2, 0x07), (inst_fld, 3, 0x07),
     (inst_addi, 0, 0x13), (inst_slti, 2, 0x13), (inst_sltiu, 3, 0x13), (inst_xori, 4, 0x13),
     (inst_ori, 6, 0x13), (inst_andi, 7, 0x13), (inst_addiw, 0, 0x1b)]"

text \<open>Shifts: \<open>(type, upper six bits, funct3)\<close> and \<open>(type, funct7, funct3)\<close>.\<close>

definition shift_table :: "(inst_type_t \<times> 6 word \<times> 3 word) list" where
  "shift_table = [(inst_slli, 0x00, 1), (inst_srli, 0x00, 5), (inst_srai, 0x10, 5)]"

definition shiftw_table :: "(inst_type_t \<times> 7 word \<times> 3 word) list" where
  "shiftw_table = [(inst_slliw, 0x00, 1), (inst_srliw, 0x00, 5), (inst_sraiw, 0x20, 5)]"

definition s_table :: "(inst_type_t \<times> 3 word \<times> 7 word) list" where
  "s_table =
    [(inst_sb, 0, 0x23), (inst_sh, 1, 0x23), (inst_sw, 2, 0x23), (inst_sd, 3, 0x23),
     (inst_fsw, 2, 0x27), (inst_fsd, 3, 0x27)]"

definition b_table :: "(inst_type_t \<times> 3 word) list" where
  "b_table = [(inst_beq, 0), (inst_bne, 1), (inst_blt, 4), (inst_bge, 5), (inst_bltu, 6),
     (inst_bgeu, 7)]"

definition csr_table :: "(inst_type_t \<times> 3 word) list" where
  "csr_table = [(inst_csrrw, 1), (inst_csrrs, 2), (inst_csrrc, 3), (inst_csrrwi, 5),
     (inst_csrrsi, 6), (inst_csrrci, 7)]"

text \<open>The two instructions without operands; \<open>ebreak\<close> has no instruction type.\<close>

definition enc_ecall :: u32 where "enc_ecall = enc_i 0 0 0 0 0x73"

definition enc_ebreak :: u32 where "enc_ebreak = enc_i 1 0 0 0 0x73"

end
