(* ===== verification/Decode_Roundtrip.thy ===== *)
theory Decode_Roundtrip
  imports Encode
begin

text \<open>
  Decoding inverts encoding: for every row of the opcode tables, every choice of registers and
  every immediate, \<open>decode_inst\<close> returns the instruction the encoding stands for.
\<close>

section \<open>Dispatch on the major opcode\<close>

lemma decode_opcode:
  assumes "QUADRANT d = 3"
  shows "OPCODE d = 0x00 \<Longrightarrow> decode_inst p d = decode_load d"
    "OPCODE d = 0x01 \<Longrightarrow> decode_inst p d = decode_load_fp d"
    "OPCODE d = 0x03 \<Longrightarrow> decode_inst p d = decode_misc_mem d"
    "OPCODE d = 0x04 \<Longrightarrow> decode_inst p d = decode_op_imm d"
    "OPCODE d = 0x05 \<Longrightarrow> decode_inst p d = ret_type (inst_utype_read d) inst_auipc"
    "OPCODE d = 0x06 \<Longrightarrow> decode_inst p d = decode_op_imm_32 d"
    "OPCODE d = 0x08 \<Longrightarrow> decode_inst p d = decode_store d"
    "OPCODE d = 0x09 \<Longrightarrow> decode_inst p d = decode_store_fp d"
    "OPCODE d = 0x0c \<Longrightarrow> decode_inst p d = decode_op d"
    "OPCODE d = 0x0d \<Longrightarrow> decode_inst p d = ret_type (inst_utype_read d) inst_lui"
    "OPCODE d = 0x0e \<Longrightarrow> decode_inst p d = decode_op_32 d"
    "OPCODE d = 0x10 \<Longrightarrow> decode_inst p d = decode_fma inst_fmadd_s inst_fmadd_d d"
    "OPCODE d = 0x11 \<Longrightarrow> decode_inst p d = decode_fma inst_fmsub_s inst_fmsub_d d"
    "OPCODE d = 0x12 \<Longrightarrow> decode_inst p d = decode_fma inst_fnmsub_s inst_fnmsub_d d"
    "OPCODE d = 0x13 \<Longrightarrow> decode_inst p d = decode_fma inst_fnmadd_s inst_fnmadd_d d"
    "OPCODE d = 0x14 \<Longrightarrow> decode_inst p d = decode_op_fp d"
    "OPCODE d = 0x18 \<Longrightarrow> decode_inst p d = decode_branch d"
    "OPCODE d = 0x19 \<Longrightarrow> decode_inst p d = ret_jump (inst_itype_read d) inst_jalr"
    "OPCODE d = 0x1b \<Longrightarrow> decode_inst p d = ret_jump (inst_jtype_read d) inst_jal"
    "OPCODE d = 0x1c \<Longrightarrow> decode_inst p d = decode_system p d"
  using assms by (simp_all add: decode_inst_def decode_q3_def)

section \<open>Readers on encodings\<close>

lemma read_enc_r:
  "inst_rtype_read (enc_r f7 r2 r1 f3 r op) =
     inst_zero\<lparr>rd := ucast r, rs1 := ucast r1, rs2 := ucast r2\<rparr>"
  by (simp add: inst_rtype_read_def)

lemma read_enc_r4:
  "inst_fprtype_read (enc_r4 r3 f2 r2 r1 rm r op) =
     inst_zero\<lparr>rd := ucast r, rs1 := ucast r1, rs2 := ucast r2, rs3 := ucast r3\<rparr>"
  by (simp add: inst_fprtype_read_def)

lemma read_enc_i:
  "inst_itype_read (enc_i i r1 f3 r op) =
     inst_zero\<lparr>rd := ucast r, rs1 := ucast r1, imm := scast i\<rparr>"
  using imm_enc_i [of i r1 f3 r op] by (simp add: inst_itype_read_def)

lemma read_enc_s:
  "inst_stype_read (enc_s i r2 r1 f3 op) =
     inst_zero\<lparr>rs1 := ucast r1, rs2 := ucast r2, imm := scast i\<rparr>"
  using imm_enc_s [of i r2 r1 f3 op]
  by (simp add: inst_stype_read_def Let_def)

lemma read_enc_b:
  "inst_btype_read (enc_b i r2 r1 f3 op) =
     inst_zero\<lparr>rs1 := ucast r1, rs2 := ucast r2, imm := push_bit 1 (scast i)\<rparr>"
  using imm_enc_b [of i r2 r1 f3 op]
  by (simp add: inst_btype_read_def Let_def)

lemma read_enc_u:
  "inst_utype_read (enc_u i r op) = inst_zero\<lparr>rd := ucast r, imm := push_bit 12 (ucast i)\<rparr>"
  using imm_enc_u [of i r op] by (simp add: inst_utype_read_def)

lemma read_enc_j:
  "inst_jtype_read (enc_j i r op) = inst_zero\<lparr>rd := ucast r, imm := push_bit 1 (scast i)\<rparr>"
  using imm_enc_j [of i r op] by (simp add: inst_jtype_read_def Let_def)

text \<open>The number of a CSR instruction's register is in the place of the immediate.\<close>

lemma read_enc_csr:
  "inst_csrtype_read (enc_i c r1 f3 r op) =
     inst_zero\<lparr>rd := ucast r, rs1 := ucast r1, csr := ucast c\<rparr>"
proof -
  have "(ucast (drop_bit 20 (enc_i c r1 f3 r op)) :: i16) = ucast c"
    unfolding enc_i_def enc_r_def by (rule bit_word_eqI) (auto simp: bit_simps bit_beyond dest: bit_imp_le_length)
  then show ?thesis by (simp add: inst_csrtype_read_def)
qed

section \<open>Rows of the tables\<close>

lemmas row_simps = decode_opcode ret_type_def ret_jump_def assert_then_def Let_def

lemma decode_rows_r:
  "list_all (\<lambda>(t, f7, f3, op). decode_inst p (enc_r f7 r2 r1 f3 r op) =
     Inr (inst_zero\<lparr>rd := ucast r, rs1 := ucast r1, rs2 := ucast r2, itype := t\<rparr>)) r_table"
  unfolding r_table_def
  by (simp add: row_simps read_enc_r decode_op_def decode_op_32_def decode_op_fp_def op_fp_arith_def op_fp_convert_def)

lemma decode_rows_frm:
  "list_all (\<lambda>(t, f7). decode_inst p (enc_r f7 r2 r1 rm r 0x53) =
     Inr (inst_zero\<lparr>rd := ucast r, rs1 := ucast r1, rs2 := ucast r2, itype := t\<rparr>)) frm_table"
  unfolding frm_table_def by (simp add: row_simps read_enc_r decode_op_fp_def op_fp_arith_def op_fp_convert_def)

lemma decode_rows_fcvt:
  "list_all (\<lambda>(t, f7, r2). decode_inst p (enc_r f7 r2 r1 rm r 0x53) =
     Inr (inst_zero\<lparr>rd := ucast r, rs1 := ucast r1, rs2 := ucast r2, itype := t\<rparr>)) fcvt_table"
  unfolding fcvt_table_def by (simp add: row_simps read_enc_r decode_op_fp_def op_fp_arith_def op_fp_convert_def)

lemma decode_rows_fmv:
  "list_all (\<lambda>(t, f7, f3). decode_inst p (enc_r f7 0 r1 f3 r 0x53) =
     Inr (inst_zero\<lparr>rd := ucast r, rs1 := ucast r1, itype := t\<rparr>)) fmv_table"
  unfolding fmv_table_def by (simp add: row_simps read_enc_r decode_op_fp_def op_fp_arith_def op_fp_convert_def inst_zero_def)

lemma decode_rows_fma:
  "list_all (\<lambda>(t, f2, op). decode_inst p (enc_r4 r3 f2 r2 r1 rm r op) =
     Inr (inst_zero\<lparr>rd := ucast r, rs1 := ucast r1, rs2 := ucast r2, rs3 := ucast r3, itype := t\<rparr>))
   fma_table"
  unfolding fma_table_def by (simp add: row_simps decode_fma_def read_enc_r4)

lemma decode_rows_i:
  "list_all (\<lambda>(t, f3, op). decode_inst p (enc_i i r1 f3 r op) =
     Inr (inst_zero\<lparr>rd := ucast r, rs1 := ucast r1, imm := scast i, itype := t\<rparr>)) i_table"
  unfolding i_table_def
  by (simp add: row_simps read_enc_i decode_load_def decode_load_fp_def decode_op_imm_def
      decode_op_imm_32_def)

lemma decode_rows_s:
  "list_all (\<lambda>(t, f3, op). decode_inst p (enc_s i r2 r1 f3 op) =
     Inr (inst_zero\<lparr>rs1 := ucast r1, rs2 := ucast r2, imm := scast i, itype := t\<rparr>)) s_table"
  unfolding s_table_def
  by (simp add: row_simps read_enc_s decode_store_def decode_store_fp_def)

lemma decode_rows_b:
  "list_all (\<lambda>(t, f3). decode_inst p (enc_b i r2 r1 f3 0x63) =
     Inr (inst_zero\<lparr>rs1 := ucast r1, rs2 := ucast r2, imm := push_bit 1 (scast i), itype := t\<rparr>))
   b_table"
  unfolding b_table_def by (simp add: row_simps read_enc_b decode_branch_def)

text \<open>
  The immediate of a shift is the whole 12-bit field, the fixed upper bits included: for
  \<open>srai\<close> it is \<open>0x400 + shamt\<close>. The shift handlers mask it.
\<close>

lemma decode_rows_shift:
  "list_all (\<lambda>(t, h, f3). decode_inst p (enc_i (shift_imm h shamt) r1 f3 r 0x13) =
     Inr (inst_zero\<lparr>rd := ucast r, rs1 := ucast r1, imm := scast (shift_imm h shamt), itype := t\<rparr>))
   shift_table"
  unfolding shift_table_def by (simp add: row_simps read_enc_i decode_op_imm_def)

lemma decode_rows_shiftw:
  "list_all (\<lambda>(t, f7, f3). decode_inst p (enc_i (shiftw_imm f7 shamt) r1 f3 r 0x1b) =
     Inr (inst_zero\<lparr>rd := ucast r, rs1 := ucast r1, imm := scast (shiftw_imm f7 shamt), itype := t\<rparr>))
   shiftw_table"
  unfolding shiftw_table_def by (simp add: row_simps read_enc_i decode_op_imm_32_def)

lemma not_ecall: "f3 \<noteq> 0 \<Longrightarrow> enc_i c r1 f3 r op \<noteq> 0x73"
proof
  assume f3: "f3 \<noteq> 0" and "enc_i c r1 f3 r op = 0x73"
  then have "FUNCT3 (enc_i c r1 f3 r op) = FUNCT3 0x73" by simp
  moreover have "FUNCT3 0x73 = 0" by code_simp
  ultimately have "(ucast (ucast f3 :: u32) :: 3 word) = 0" by simp
  moreover have "(ucast (ucast f3 :: u32) :: 3 word) = f3" by (rule bit_word_eqI) (simp add: bit_simps)
  ultimately show False using f3 by simp
qed

lemma decode_rows_csr:
  "list_all (\<lambda>(t, f3). decode_inst p (enc_i c r1 f3 r 0x73) =
     Inr (inst_zero\<lparr>rd := ucast r, rs1 := ucast r1, csr := ucast c, itype := t\<rparr>)) csr_table"
  unfolding csr_table_def by (simp add: row_simps read_enc_csr decode_system_def not_ecall)

lemma decode_enc_system:
  "decode_inst p enc_ecall = Inr (p\<lparr>itype := inst_ecall, continue_exec := True\<rparr>)"
  "decode_inst p enc_ebreak = Inl (Fatal ''unreachable'')"
proof -
  have "enc_ecall = 0x73" "enc_ebreak \<noteq> 0x73" "FUNCT3 enc_ebreak = 0" by code_simp+
  moreover have "OPCODE w = 0x1c" "QUADRANT w = 3" if "w \<in> {enc_ecall, enc_ebreak}" for w
    using that by (auto simp: enc_ecall_def enc_ebreak_def)
  ultimately show "decode_inst p enc_ecall = Inr (p\<lparr>itype := inst_ecall, continue_exec := True\<rparr>)"
    "decode_inst p enc_ebreak = Inl (Fatal ''unreachable'')"
    by (simp_all add: row_simps decode_system_def)
qed

lemma decode_enc_jumps:
  "decode_inst p (enc_i i r1 f3 r 0x67) =
     Inr (inst_zero\<lparr>rd := ucast r, rs1 := ucast r1, imm := scast i, itype := inst_jalr,
       continue_exec := True\<rparr>)"
  "decode_inst p (enc_j j r 0x6f) =
     Inr (inst_zero\<lparr>rd := ucast r, imm := push_bit 1 (scast j), itype := inst_jal,
       continue_exec := True\<rparr>)"
  by (simp_all add: row_simps read_enc_i read_enc_j)

lemma decode_enc_upper:
  "decode_inst p (enc_u u r 0x37) =
     Inr (inst_zero\<lparr>rd := ucast r, imm := push_bit 12 (ucast u), itype := inst_lui\<rparr>)"
  "decode_inst p (enc_u u r 0x17) =
     Inr (inst_zero\<lparr>rd := ucast r, imm := push_bit 12 (ucast u), itype := inst_auipc\<rparr>)"
  by (simp_all add: row_simps read_enc_u)

lemma decode_enc_fence:
  "(t, f3) \<in> {(inst_fence, 0), (inst_fence_i, 1)} \<Longrightarrow>
     decode_inst p (enc_i i r1 f3 r 0x0f) = Inr (inst_zero\<lparr>itype := t\<rparr>)"
  by (auto simp: row_simps read_enc_i decode_misc_mem_def)

end
