(* ===== verification/Rvc.thy ===== *)
theory Rvc
  imports Decode_Roundtrip
begin

text \<open>
  The compressed instructions. The C extension defines each of them as an abbreviation of one
  32-bit instruction; \<open>expand_rvc\<close> is that definition, with every immediate given as the
  list of the bits it gathers. The decoder treats a compressed instruction exactly as its
  expansion, up to the length flag and the upper bits of shift amounts, which the shift handlers
  ignore.
\<close>

section \<open>Gathering bits\<close>

text \<open>Bit \<open>d\<close> of \<open>gather ps c\<close> is bit \<open>s\<close> of \<open>c\<close>, for the pairs \<open>(d, s)\<close> of \<open>ps\<close>.\<close>

primrec gather :: "(nat \<times> nat) list \<Rightarrow> u16 \<Rightarrow> 'a::len word" where
  "gather [] c = 0"
| "gather (p # ps) c = (if bit c (snd p) then push_bit (fst p) 1 else 0) OR gather ps c"

lemma bit_gather_Cons:
  "bit (gather ((d, s) # ps) c :: 'a::len word) n \<longleftrightarrow>
     d = n \<and> n < LENGTH('a) \<and> bit c s \<or> bit (gather ps c :: 'a word) n"
  by (auto simp: bit_simps bit_1_iff)

lemma bit_gather_Nil: "\<not> bit (gather [] c :: 'a::len word) n"
  by simp

lemmas bit_gather = bit_gather_Cons bit_gather_Nil

declare gather.simps [simp del]

section \<open>Expansion\<close>

definition c_funct3 :: "u16 \<Rightarrow> 3 word" where
  "c_funct3 c = gather [(0, 13), (1, 14), (2, 15)] c"

definition c_rd :: "u16 \<Rightarrow> reg" where
  "c_rd c = gather [(0, 7), (1, 8), (2, 9), (3, 10), (4, 11)] c"

definition c_rs2 :: "u16 \<Rightarrow> reg" where
  "c_rs2 c = gather [(0, 2), (1, 3), (2, 4), (3, 5), (4, 6)] c"

text \<open>The three-bit register fields name \<open>x8\<close> to \<open>x15\<close>.\<close>

definition c_rp1 :: "u16 \<Rightarrow> reg" where
  "c_rp1 c = 8 OR gather [(0, 7), (1, 8), (2, 9)] c"

definition c_rp2 :: "u16 \<Rightarrow> reg" where
  "c_rp2 c = 8 OR gather [(0, 2), (1, 3), (2, 4)] c"

definition c_imm_ci :: "u16 \<Rightarrow> 12 word" where
  "c_imm_ci c = gather [(0, 2), (1, 3), (2, 4), (3, 5), (4, 6), (5, 12), (6, 12), (7, 12),
     (8, 12), (9, 12), (10, 12), (11, 12)] c"

definition c_shamt :: "u16 \<Rightarrow> 6 word" where
  "c_shamt c = gather [(0, 2), (1, 3), (2, 4), (3, 5), (4, 6), (5, 12)] c"

definition c_imm_addi16sp :: "u16 \<Rightarrow> 12 word" where
  "c_imm_addi16sp c = gather [(4, 6), (5, 2), (6, 5), (7, 3), (8, 4), (9, 12), (10, 12),
     (11, 12)] c"

definition c_imm_lui :: "u16 \<Rightarrow> 20 word" where
  "c_imm_lui c = gather [(0, 2), (1, 3), (2, 4), (3, 5), (4, 6), (5, 12), (6, 12), (7, 12),
     (8, 12), (9, 12), (10, 12), (11, 12), (12, 12), (13, 12), (14, 12), (15, 12), (16, 12),
     (17, 12), (18, 12), (19, 12)] c"

definition c_imm_addi4spn :: "u16 \<Rightarrow> 12 word" where
  "c_imm_addi4spn c = gather [(2, 6), (3, 5), (4, 11), (5, 12), (6, 7), (7, 8), (8, 9), (9, 10)] c"

definition c_imm_lw :: "u16 \<Rightarrow> 12 word" where
  "c_imm_lw c = gather [(2, 6), (3, 10), (4, 11), (5, 12), (6, 5)] c"

definition c_imm_ld :: "u16 \<Rightarrow> 12 word" where
  "c_imm_ld c = gather [(3, 10), (4, 11), (5, 12), (6, 5), (7, 6)] c"

definition c_imm_lwsp :: "u16 \<Rightarrow> 12 word" where
  "c_imm_lwsp c = gather [(2, 4), (3, 5), (4, 6), (5, 12), (6, 2), (7, 3)] c"

definition c_imm_ldsp :: "u16 \<Rightarrow> 12 word" where
  "c_imm_ldsp c = gather [(3, 5), (4, 6), (5, 12), (6, 2), (7, 3), (8, 4)] c"

definition c_imm_swsp :: "u16 \<Rightarrow> 12 word" where
  "c_imm_swsp c = gather [(2, 9), (3, 10), (4, 11), (5, 12), (6, 7), (7, 8)] c"

definition c_imm_sdsp :: "u16 \<Rightarrow> 12 word" where
  "c_imm_sdsp c = gather [(3, 10), (4, 11), (5, 12), (6, 7), (7, 8), (8, 9)] c"

text \<open>Jump and branch offsets, halved as in the 32-bit formats.\<close>

definition c_imm_j :: "u16 \<Rightarrow> 20 word" where
  "c_imm_j c = gather [(0, 3), (1, 4), (2, 5), (3, 11), (4, 2), (5, 7), (6, 6), (7, 9), (8, 10),
     (9, 8), (10, 12), (11, 12), (12, 12), (13, 12), (14, 12), (15, 12), (16, 12), (17, 12),
     (18, 12), (19, 12)] c"

definition c_imm_b :: "u16 \<Rightarrow> 12 word" where
  "c_imm_b c = gather [(0, 3), (1, 4), (2, 10), (3, 11), (4, 2), (5, 5), (6, 6), (7, 12),
     (8, 12), (9, 12), (10, 12), (11, 12)] c"

definition expand_q0 :: "u16 \<Rightarrow> u32 option" where
  "expand_q0 c = switch (c_funct3 c)
     [(0, if c_imm_addi4spn c = 0 then None
          else Some (enc_i (c_imm_addi4spn c) 2 0 (c_rp2 c) 0x13)),
      (1, Some (enc_i (c_imm_ld c) (c_rp1 c) 3 (c_rp2 c) 0x07)),
      (2, Some (enc_i (c_imm_lw c) (c_rp1 c) 2 (c_rp2 c) 0x03)),
      (3, Some (enc_i (c_imm_ld c) (c_rp1 c) 3 (c_rp2 c) 0x03)),
      (5, Some (enc_s (c_imm_ld c) (c_rp2 c) (c_rp1 c) 3 0x27)),
      (6, Some (enc_s (c_imm_lw c) (c_rp2 c) (c_rp1 c) 2 0x23)),
      (7, Some (enc_s (c_imm_ld c) (c_rp2 c) (c_rp1 c) 3 0x23))]
     None"

definition expand_q1_alu :: "u16 \<Rightarrow> u32 option" where
  "expand_q1_alu c =
     (if \<not> bit c 11 then
        Some (enc_i (shift_imm (if bit c 10 then 0x10 else 0) (c_shamt c)) (c_rp1 c) 5 (c_rp1 c) 0x13)
      else if \<not> bit c 10 then Some (enc_i (c_imm_ci c) (c_rp1 c) 7 (c_rp1 c) 0x13)
      else if \<not> bit c 12 then
        Some (if \<not> bit c 6 \<and> \<not> bit c 5 then enc_r 0x20 (c_rp2 c) (c_rp1 c) 0 (c_rp1 c) 0x33
              else if \<not> bit c 6 then enc_r 0 (c_rp2 c) (c_rp1 c) 4 (c_rp1 c) 0x33
              else if \<not> bit c 5 then enc_r 0 (c_rp2 c) (c_rp1 c) 6 (c_rp1 c) 0x33
              else enc_r 0 (c_rp2 c) (c_rp1 c) 7 (c_rp1 c) 0x33)
      else if bit c 6 then None
      else Some (enc_r (if bit c 5 then 0 else 0x20) (c_rp2 c) (c_rp1 c) 0 (c_rp1 c) 0x3b))"

definition expand_q1 :: "u16 \<Rightarrow> u32 option" where
  "expand_q1 c = switch (c_funct3 c)
     [(0, Some (enc_i (c_imm_ci c) (c_rd c) 0 (c_rd c) 0x13)),
      (1, if c_rd c = 0 then None else Some (enc_i (c_imm_ci c) (c_rd c) 0 (c_rd c) 0x1b)),
      (2, Some (enc_i (c_imm_ci c) 0 0 (c_rd c) 0x13)),
      (3, if c_rd c = 2 then
            (if c_imm_addi16sp c = 0 then None else Some (enc_i (c_imm_addi16sp c) 2 0 2 0x13))
          else if c_imm_lui c = 0 then None
          else Some (enc_u (c_imm_lui c) (c_rd c) 0x37)),
      (4, expand_q1_alu c),
      (5, Some (enc_j (c_imm_j c) 0 0x6f)),
      (6, Some (enc_b (c_imm_b c) 0 (c_rp1 c) 0 0x63)),
      (7, Some (enc_b (c_imm_b c) 0 (c_rp1 c) 1 0x63))]
     None"

definition expand_q2 :: "u16 \<Rightarrow> u32 option" where
  "expand_q2 c = switch (c_funct3 c)
     [(0, Some (enc_i (shift_imm 0 (c_shamt c)) (c_rd c) 1 (c_rd c) 0x13)),
      (1, Some (enc_i (c_imm_ldsp c) 2 3 (c_rd c) 0x07)),
      (2, if c_rd c = 0 then None else Some (enc_i (c_imm_lwsp c) 2 2 (c_rd c) 0x03)),
      (3, if c_rd c = 0 then None else Some (enc_i (c_imm_ldsp c) 2 3 (c_rd c) 0x03)),
      (4, if c_rs2 c = 0 then
            (if c_rd c = 0 then (if bit c 12 then Some enc_ebreak else None)
             else Some (enc_i 0 (c_rd c) 0 (if bit c 12 then 1 else 0) 0x67))
          else Some (enc_r 0 (c_rs2 c) (if bit c 12 then c_rd c else 0) 0 (c_rd c) 0x33)),
      (5, Some (enc_s (c_imm_sdsp c) (c_rs2 c) 2 3 0x27)),
      (6, Some (enc_s (c_imm_swsp c) (c_rs2 c) 2 2 0x23)),
      (7, Some (enc_s (c_imm_sdsp c) (c_rs2 c) 2 3 0x23))]
     None"

text \<open>\<open>None\<close>: a 32-bit encoding or a reserved one.\<close>

definition expand_rvc :: "u16 \<Rightarrow> u32 option" where
  "expand_rvc c =
     (if \<not> bit c 0 \<and> \<not> bit c 1 then expand_q0 c
      else if \<not> bit c 1 then expand_q1 c
      else if \<not> bit c 0 then expand_q2 c
      else None)"

section \<open>Fields of compressed encodings\<close>

lemma c_fields:
  "RC1 (ucast c) = ucast (c_rd c)" "RC2 (ucast c) = ucast (c_rs2 c)"
  "COPCODE (ucast c) = ucast (c_funct3 c)"
  unfolding field_defs c_rd_def c_rs2_def c_funct3_def
  by (rule bits32; simp add: bit_simps bit_gather bit_beyond)+

lemma c_funct_fields:
  "CFUNCT1 (ucast c) = (if bit c 12 then 1 else 0)"
  "CFUNCT2LOW (ucast c) = (if bit c 5 then 1 else 0) OR (if bit c 6 then 2 else 0)"
  "CFUNCT2HIGH (ucast c) = (if bit c 10 then 1 else 0) OR (if bit c 11 then 2 else 0)"
  unfolding field_defs by (rule bits32; simp add: bit_simps bit_beyond)+

lemma c_rp_fields:
  "ucast (RP1 (ucast c) + 8) = (ucast (c_rp1 c) :: u8)"
  "ucast (RP2 (ucast c) + 8) = (ucast (c_rp2 c) :: u8)"
proof -
  have "x + 2 ^ 3 = x OR 2 ^ 3" if "\<not> bit x 3" for x :: u32
    by (rule disjunctive_add) (metis bit_exp_iff that)
  then have plus: "x + 8 = x OR 8" if "\<not> bit x 3" for x :: u32
    using that by simp
  have "\<not> bit (RP1 (ucast c)) 3" "\<not> bit (RP2 (ucast c)) 3"
    by (simp_all add: field_defs bit_simps)
  moreover have "RP1 (ucast c) OR 8 = ucast (c_rp1 c)" "RP2 (ucast c) OR 8 = ucast (c_rp2 c)"
    unfolding field_defs c_rp1_def c_rp2_def
    by (rule bits32; simp add: bit_simps bit_gather bit_beyond)+
  ultimately show "ucast (RP1 (ucast c) + 8) = (ucast (c_rp1 c) :: u8)"
    "ucast (RP2 (ucast c) + 8) = (ucast (c_rp2 c) :: u8)"
    by (simp_all add: plus)
qed

lemmas c_reg_fields = c_fields c_rp_fields c_funct_fields

lemma c_imm_sext:
  "imm (inst_citype_read c) = scast (c_imm_ci c)"
  "imm (inst_citype_read3 c) = scast (c_imm_addi16sp c)"
  "imm (inst_citype_read5 c) = push_bit 12 (ucast (c_imm_lui c))"
  "imm (inst_cbtype_read2 c) = scast (c_imm_ci c)"
  "imm (inst_cbtype_read c) = push_bit 1 (scast (c_imm_b c))"
  "imm (inst_cjtype_read c) = push_bit 1 (scast (c_imm_j c))"
  unfolding reader_defs Let_def c_imm_ci_def c_imm_addi16sp_def c_imm_lui_def c_imm_b_def c_imm_j_def
  by (simp, rule bits32, simp add: bit_simps bit_sext_imm bit_times_2 bit_gather bit_beyond)+

lemma c_imm_uimm:
  "imm (inst_citype_read2 c) = scast (c_imm_ldsp c)"
  "imm (inst_citype_read4 c) = scast (c_imm_lwsp c)"
  "imm (inst_cstype_read c) = scast (c_imm_ld c)"
  "imm (inst_cstype_read2 c) = scast (c_imm_lw c)"
  "imm (inst_cltype_read c) = scast (c_imm_lw c)"
  "imm (inst_cltype_read2 c) = scast (c_imm_ld c)"
  "imm (inst_csstype_read c) = scast (c_imm_sdsp c)"
  "imm (inst_csstype_read2 c) = scast (c_imm_swsp c)"
  "imm (inst_ciwtype_read c) = scast (c_imm_addi4spn c)"
  unfolding reader_defs Let_def c_imm_ldsp_def c_imm_lwsp_def c_imm_ld_def c_imm_lw_def
    c_imm_sdsp_def c_imm_swsp_def c_imm_addi4spn_def
  by (simp, rule bits32, simp add: bit_simps bit_gather bit_beyond)+

lemma c_reader_shapes:
  "inst_citype_read c =
    inst_zero\<lparr>imm := imm (inst_citype_read c), rd := ucast (c_rd c), rvc := True\<rparr>"
  "inst_citype_read2 c =
    inst_zero\<lparr>imm := imm (inst_citype_read2 c), rd := ucast (c_rd c), rvc := True\<rparr>"
  "inst_citype_read3 c =
    inst_zero\<lparr>imm := imm (inst_citype_read3 c), rd := ucast (c_rd c), rvc := True\<rparr>"
  "inst_citype_read4 c =
    inst_zero\<lparr>imm := imm (inst_citype_read4 c), rd := ucast (c_rd c), rvc := True\<rparr>"
  "inst_citype_read5 c =
    inst_zero\<lparr>imm := imm (inst_citype_read5 c), rd := ucast (c_rd c), rvc := True\<rparr>"
  "inst_cbtype_read c =
    inst_zero\<lparr>imm := imm (inst_cbtype_read c), rs1 := ucast (c_rp1 c), rvc := True\<rparr>"
  "inst_cbtype_read2 c =
    inst_zero\<lparr>imm := imm (inst_cbtype_read2 c), rd := ucast (c_rp1 c), rvc := True\<rparr>"
  "inst_cjtype_read c = inst_zero\<lparr>imm := imm (inst_cjtype_read c), rvc := True\<rparr>"
  "inst_catype_read c = inst_zero\<lparr>rd := ucast (c_rp1 c), rs2 := ucast (c_rp2 c), rvc := True\<rparr>"
  "inst_crtype_read c = inst_zero\<lparr>rs1 := ucast (c_rd c), rs2 := ucast (c_rs2 c), rvc := True\<rparr>"
  "inst_cstype_read c =
    inst_zero\<lparr>imm := imm (inst_cstype_read c), rs1 := ucast (c_rp1 c), rs2 := ucast (c_rp2 c), rvc := True\<rparr>"
  "inst_cstype_read2 c =
    inst_zero\<lparr>imm := imm (inst_cstype_read2 c), rs1 := ucast (c_rp1 c), rs2 := ucast (c_rp2 c), rvc := True\<rparr>"
  "inst_cltype_read c =
    inst_zero\<lparr>imm := imm (inst_cltype_read c), rs1 := ucast (c_rp1 c), rd := ucast (c_rp2 c), rvc := True\<rparr>"
  "inst_cltype_read2 c =
    inst_zero\<lparr>imm := imm (inst_cltype_read2 c), rs1 := ucast (c_rp1 c), rd := ucast (c_rp2 c), rvc := True\<rparr>"
  "inst_csstype_read c =
    inst_zero\<lparr>imm := imm (inst_csstype_read c), rs2 := ucast (c_rs2 c), rvc := True\<rparr>"
  "inst_csstype_read2 c =
    inst_zero\<lparr>imm := imm (inst_csstype_read2 c), rs2 := ucast (c_rs2 c), rvc := True\<rparr>"
  "inst_ciwtype_read c =
    inst_zero\<lparr>imm := imm (inst_ciwtype_read c), rd := ucast (c_rp2 c), rvc := True\<rparr>"
  by (simp_all add: reader_defs Let_def c_reg_fields)

lemma c_readers:
  "inst_citype_read c = inst_zero\<lparr>imm := scast (c_imm_ci c), rd := ucast (c_rd c), rvc := True\<rparr>"
  "inst_citype_read2 c =
    inst_zero\<lparr>imm := scast (c_imm_ldsp c), rd := ucast (c_rd c), rvc := True\<rparr>"
  "inst_citype_read3 c =
     inst_zero\<lparr>imm := scast (c_imm_addi16sp c), rd := ucast (c_rd c), rvc := True\<rparr>"
  "inst_citype_read4 c =
    inst_zero\<lparr>imm := scast (c_imm_lwsp c), rd := ucast (c_rd c), rvc := True\<rparr>"
  "inst_citype_read5 c =
     inst_zero\<lparr>imm := push_bit 12 (ucast (c_imm_lui c)), rd := ucast (c_rd c), rvc := True\<rparr>"
  "inst_cbtype_read c =
     inst_zero\<lparr>imm := push_bit 1 (scast (c_imm_b c)), rs1 := ucast (c_rp1 c), rvc := True\<rparr>"
  "inst_cbtype_read2 c =
    inst_zero\<lparr>imm := scast (c_imm_ci c), rd := ucast (c_rp1 c), rvc := True\<rparr>"
  "inst_cjtype_read c = inst_zero\<lparr>imm := push_bit 1 (scast (c_imm_j c)), rvc := True\<rparr>"
  "inst_catype_read c = inst_zero\<lparr>rd := ucast (c_rp1 c), rs2 := ucast (c_rp2 c), rvc := True\<rparr>"
  "inst_crtype_read c = inst_zero\<lparr>rs1 := ucast (c_rd c), rs2 := ucast (c_rs2 c), rvc := True\<rparr>"
  "inst_cstype_read c = inst_zero\<lparr>imm := scast (c_imm_ld c), rs1 := ucast (c_rp1 c),
     rs2 := ucast (c_rp2 c), rvc := True\<rparr>"
  "inst_cstype_read2 c = inst_zero\<lparr>imm := scast (c_imm_lw c), rs1 := ucast (c_rp1 c),
     rs2 := ucast (c_rp2 c), rvc := True\<rparr>"
  "inst_cltype_read c = inst_zero\<lparr>imm := scast (c_imm_lw c), rs1 := ucast (c_rp1 c),
     rd := ucast (c_rp2 c), rvc := True\<rparr>"
  "inst_cltype_read2 c = inst_zero\<lparr>imm := scast (c_imm_ld c), rs1 := ucast (c_rp1 c),
     rd := ucast (c_rp2 c), rvc := True\<rparr>"
  "inst_csstype_read c =
    inst_zero\<lparr>imm := scast (c_imm_sdsp c), rs2 := ucast (c_rs2 c), rvc := True\<rparr>"
  "inst_csstype_read2 c =
    inst_zero\<lparr>imm := scast (c_imm_swsp c), rs2 := ucast (c_rs2 c), rvc := True\<rparr>"
  "inst_ciwtype_read c =
     inst_zero\<lparr>imm := scast (c_imm_addi4spn c), rd := ucast (c_rp2 c), rvc := True\<rparr>"
  by (rule c_reader_shapes [unfolded c_imm_sext c_imm_uimm])+

section \<open>A compressed instruction decodes as its expansion\<close>

definition is_shift :: "inst_type_t \<Rightarrow> bool" where
  "is_shift t \<longleftrightarrow> t = inst_slli \<or> t = inst_srli \<or> t = inst_srai"

text \<open>
  Two decoded instructions that differ at most in the length flag and, for a shift by an
  immediate, in the bits of the immediate above the shift amount.
\<close>

definition same_op :: "inst_t \<Rightarrow> inst_t \<Rightarrow> bool" where
  "same_op i j \<longleftrightarrow> i\<lparr>imm := 0, rvc := False\<rparr> = j\<lparr>imm := 0, rvc := False\<rparr> \<and>
     (if is_shift (itype i) then imm i AND 0x3f = imm j AND 0x3f else imm i = imm j)"

lemma c_quadrant:
  "\<not> bit c 0 \<Longrightarrow> \<not> bit c 1 \<Longrightarrow> decode_inst p (ucast c) = decode_q0 (ucast c)"
  "bit c 0 \<Longrightarrow> \<not> bit c 1 \<Longrightarrow> decode_inst p (ucast c) = decode_q1 (ucast c)"
  "\<not> bit c 0 \<Longrightarrow> bit c 1 \<Longrightarrow> decode_inst p (ucast c) = decode_q2 (ucast c)"
proof -
  have q: "QUADRANT (ucast c) = (if bit c 0 then 1 else 0) OR (if bit c 1 then 2 else 0)"
    unfolding field_defs by (rule bits32) (simp add: bit_simps bit_beyond)
  show "\<not> bit c 0 \<Longrightarrow> \<not> bit c 1 \<Longrightarrow> decode_inst p (ucast c) = decode_q0 (ucast c)"
    "bit c 0 \<Longrightarrow> \<not> bit c 1 \<Longrightarrow> decode_inst p (ucast c) = decode_q1 (ucast c)"
    "\<not> bit c 0 \<Longrightarrow> bit c 1 \<Longrightarrow> decode_inst p (ucast c) = decode_q2 (ucast c)"
    by (simp_all add: decode_inst_def q)
qed

lemma word3_cases:
  fixes w :: "3 word"
  obtains "w = 0" | "w = 1" | "w = 2" | "w = 3" | "w = 4" | "w = 5" | "w = 6" | "w = 7"
proof -
  have "unat w < 8" using unsigned_less [of w] by simp
  then have "unat w = 0 \<or> unat w = 1 \<or> unat w = 2 \<or> unat w = 3 \<or> unat w = 4 \<or> unat w = 5 \<or>
    unat w = 6 \<or> unat w = 7"
    by arith
  then show ?thesis using that by (auto simp: word_unat_eq_iff)
qed

lemma shift_same:
  "scast (c_imm_ci c) AND 0x3f = scast (shift_imm h (c_shamt c)) AND (0x3f :: u32)"
  unfolding c_imm_ci_def c_shamt_def shift_imm_def
  by (rule bits32) (simp add: bit_simps bit_gather bit_beyond)

lemma ucast_ucast_c [simp]: "ucast (ucast (c :: u16) :: u32) = c"
  by (rule bit_word_eqI) (auto simp: bit_simps)

lemma imm_back:
  "ucast (scast (i :: 12 word) :: u32) = i"
  "ucast (drop_bit 12 (push_bit 12 (ucast (u :: 20 word)) :: u32)) = u"
  "ucast (ucast (r :: reg) :: u8) = r" "ucast (ucast r :: u32) = r"
  by (rule bit_word_eqI; auto simp: bit_simps bit_beyond)+

lemma imm_eq_0 [simp]:
  "(scast (i :: 12 word) :: u32) = 0 \<longleftrightarrow> i = 0"
  "(push_bit 12 (ucast (u :: 20 word)) :: u32) = 0 \<longleftrightarrow> u = 0"
  using imm_back(1) [of i] imm_back(2) [of u] by (auto simp del: push_bit_eq_0_iff)

lemma reg_eq [simp]:
  "(ucast (r :: reg) :: u8) = 0 \<longleftrightarrow> r = 0" "(ucast r :: u32) = 2 \<longleftrightarrow> r = 2"
  using imm_back(3,4) [of r] by auto

lemmas expand_rows =
  decode_rows_r [unfolded r_table_def, simplified]
  decode_rows_i [unfolded i_table_def, simplified]
  decode_rows_s [unfolded s_table_def, simplified]
  decode_rows_b [unfolded b_table_def, simplified]
  decode_rows_shift [unfolded shift_table_def, simplified]
  decode_enc_jumps decode_enc_upper

lemmas expand_simps = c_quadrant Let_def c_reg_fields c_readers expand_rows ret_type_def ret_jump_def
  assert_then_def same_op_def is_shift_def rv_enum inst_zero_def shift_same

lemma expand_q0_ok:
  assumes "expand_q0 c = Some w" "\<not> bit c 0" "\<not> bit c 1"
  shows "\<exists>i j. decode_inst p (ucast c) = Inr i \<and> decode_inst p w = Inr j \<and> rvc i \<and> same_op i j"
  using assms
  by (cases "c_funct3 c" rule: word3_cases)
    (auto simp: expand_q0_def decode_q0_def expand_simps split: if_splits)

lemma expand_q2_ok:
  assumes "expand_q2 c = Some w" "\<not> bit c 0" "bit c 1"
  shows "w = enc_ebreak \<and> (\<exists>e. decode_inst p (ucast c) = Inl e) \<or>
    (\<exists>i j. decode_inst p (ucast c) = Inr i \<and> decode_inst p w = Inr j \<and> rvc i \<and> same_op i j)"
  using assms
  by (cases "c_funct3 c" rule: word3_cases)
    (auto simp: expand_q2_def decode_q2_def decode_q2_cr_def expand_simps split: if_splits)

lemma expand_q1_ok:
  assumes "expand_q1 c = Some w" "bit c 0" "\<not> bit c 1"
  shows "\<exists>i j. decode_inst p (ucast c) = Inr i \<and> decode_inst p w = Inr j \<and> rvc i \<and> same_op i j"
  using assms
  by (cases "c_funct3 c" rule: word3_cases)
    (auto simp: expand_q1_def expand_q1_alu_def decode_q1_def decode_q1_alu_def expand_simps
      split: if_splits)

lemma low_half_fields:
  "QUADRANT (ucast (ucast d :: u16)) = QUADRANT d" "COPCODE (ucast (ucast d :: u16)) = COPCODE d"
  "CFUNCT1 (ucast (ucast d :: u16)) = CFUNCT1 d"
  "CFUNCT2LOW (ucast (ucast d :: u16)) = CFUNCT2LOW d"
  "CFUNCT2HIGH (ucast (ucast d :: u16)) = CFUNCT2HIGH d" "RC1 (ucast (ucast d :: u16)) = RC1 d"
  unfolding field_defs by (rule bits32; simp add: bit_simps)+

lemma decode_low_half:
  "QUADRANT data \<noteq> 3 \<Longrightarrow> decode_inst p data = decode_inst p (ucast (ucast data :: u16))"
  by (simp add: decode_inst_def decode_q0_def decode_q1_def decode_q1_alu_def decode_q2_def
      decode_q2_cr_def low_half_fields Let_def)

lemma expand_rvc_quadrant: "expand_rvc (ucast data) = Some w \<Longrightarrow> QUADRANT data \<noteq> 3"
proof
  assume *: "expand_rvc (ucast data) = Some w" and "QUADRANT data = 3"
  then have "bit (QUADRANT data) 0" "bit (QUADRANT data) 1" by simp_all
  then have "bit data 0" "bit data 1" by (simp_all add: field_defs bit_simps)
  with * show False by (simp add: expand_rvc_def bit_simps)
qed

lemma expand_rvc_cases:
  assumes "expand_rvc (ucast data) = Some w"
  shows "w = enc_ebreak \<and> (\<exists>e. decode_inst p data = Inl e) \<or>
    (\<exists>i j. decode_inst p data = Inr i \<and> decode_inst p w = Inr j \<and> rvc i \<and> same_op i j)"
proof -
  let ?c = "ucast data :: u16"
  have "w = enc_ebreak \<and> (\<exists>e. decode_inst p (ucast ?c) = Inl e) \<or>
    (\<exists>i j. decode_inst p (ucast ?c) = Inr i \<and> decode_inst p w = Inr j \<and> rvc i \<and> same_op i j)"
    using assms expand_q0_ok [of ?c w p] expand_q1_ok [of ?c w p] expand_q2_ok [of ?c w p]
    by (simp add: expand_rvc_def split: if_splits)
  then show ?thesis
    using decode_low_half [OF expand_rvc_quadrant [OF assms], of p] by simp
qed

lemma expand_rvc_ok:
  assumes "expand_rvc (ucast data) = Some w"
  shows "w \<noteq> enc_ebreak \<Longrightarrow>
      \<exists>i j. decode_inst p data = Inr i \<and> decode_inst p w = Inr j \<and> rvc i \<and> same_op i j"
    "w = enc_ebreak \<Longrightarrow> \<exists>e. decode_inst p data = Inl e"
    "decode_inst p w = Inr j \<Longrightarrow> \<exists>i. decode_inst p data = Inr i \<and> rvc i \<and> same_op i j"
  using expand_rvc_cases [OF assms, of p] decode_enc_system(2) [of p] by auto

text \<open>The encodings with no expansion are the ones the decoder refuses.\<close>

lemma expand_q0_None:
  "expand_q0 c = None \<Longrightarrow> \<not> bit c 0 \<Longrightarrow> \<not> bit c 1 \<Longrightarrow> \<exists>e. decode_inst p (ucast c) = Inl e"
  by (cases "c_funct3 c" rule: word3_cases)
    (auto simp: expand_q0_def decode_q0_def expand_simps split: if_splits)

lemma expand_q1_None:
  "expand_q1 c = None \<Longrightarrow> bit c 0 \<Longrightarrow> \<not> bit c 1 \<Longrightarrow> \<exists>e. decode_inst p (ucast c) = Inl e"
  by (cases "c_funct3 c" rule: word3_cases)
    (auto simp: expand_q1_def expand_q1_alu_def decode_q1_def decode_q1_alu_def expand_simps
      split: if_splits)

lemma expand_q2_None:
  "expand_q2 c = None \<Longrightarrow> \<not> bit c 0 \<Longrightarrow> bit c 1 \<Longrightarrow> \<exists>e. decode_inst p (ucast c) = Inl e"
  by (cases "c_funct3 c" rule: word3_cases)
    (auto simp: expand_q2_def decode_q2_def decode_q2_cr_def expand_simps split: if_splits)

lemma QUADRANT_low_bits: "QUADRANT data \<noteq> 3 \<Longrightarrow> \<not> bit data 0 \<or> \<not> bit data 1"
proof (rule ccontr)
  assume q: "QUADRANT data \<noteq> 3" and "\<not> (\<not> bit data 0 \<or> \<not> bit data 1)"
  then have "QUADRANT data = 3"
    unfolding field_defs by (intro bits32) (simp add: bit_simps)
  with q show False by simp
qed

lemma expand_rvc_None:
  assumes "expand_rvc (ucast data) = None" "QUADRANT data \<noteq> 3"
  shows "\<exists>e. decode_inst p data = Inl e"
proof -
  let ?c = "ucast data :: u16"
  have "\<exists>e. decode_inst p (ucast ?c) = Inl e"
    using assms QUADRANT_low_bits [OF assms(2)] expand_q0_None expand_q1_None expand_q2_None
    by (auto simp: expand_rvc_def bit_simps split: if_splits)
  then show ?thesis using decode_low_half [OF assms(2), of p] by simp
qed

end
