(* ===== verification/Rvc_Exec.thy ===== *)
theory Rvc_Exec
  imports Handlers Rvc
begin

text \<open>
  Executing a compressed instruction has the effect of executing the 32-bit instruction it
  abbreviates. Only the link address of \<open>jal\<close> and \<open>jalr\<close> depends on the length of the
  instruction, and the immediate of a shift only through its low six bits.
\<close>

section \<open>Handlers that do not look at the length\<close>

definition on_inst :: "(inst_t \<Rightarrow> inst_t) \<Rightarrow> (cpu_t \<times> inst_t) res \<Rightarrow> (cpu_t \<times> inst_t) res" where
  "on_inst g = map_sum id (map_prod id g)"

lemma on_inst_simps [simp]:
  "on_inst g (Inl e) = Inl e" "on_inst g (Inr (s, i)) = Inr (s, g i)"
  "on_inst g (bindE m f) = bindE m (\<lambda>x. on_inst g (f x))"
  "on_inst g (if c then x else y) = (if c then on_inst g x else on_inst g y)"
  "on_inst g (Inr (if c then p else q)) = (if c then on_inst g (Inr p) else on_inst g (Inr q))"
  by (cases m; simp add: on_inst_def)+

definition len_blind :: "func_t \<Rightarrow> bool" where
  "len_blind h \<longleftrightarrow> (\<forall>s i b. h s (i\<lparr>rvc := b\<rparr>) = on_inst (rvc_update (\<lambda>_. b)) (h s i))"

lemma put_len_blind [simp]:
  "put_gp s (i\<lparr>rvc := b\<rparr>) v = on_inst (rvc_update (\<lambda>_. b)) (put_gp s i v)"
  "put_fp32 s (i\<lparr>rvc := b\<rparr>) w = on_inst (rvc_update (\<lambda>_. b)) (put_fp32 s i w)"
  "put_fp64 s (i\<lparr>rvc := b\<rparr>) v = on_inst (rvc_update (\<lambda>_. b)) (put_fp64 s i v)"
  by (simp_all add: put_gp_def put_fp32_def put_fp64_def)

lemma rvc_continue: "i\<lparr>rvc := b, continue_exec := c\<rparr> = i\<lparr>continue_exec := c, rvc := b\<rparr>"
  by (cases i) simp

lemma len_blind_int:
  "len_blind (FUNC_load n ty)" "len_blind (FUNC_imm ei)" "len_blind (FUNC_store n)"
  "len_blind (FUNC_reg er)" "len_blind (FUNC_branch eb)" "len_blind FUNC_csr"
  "len_blind func_lui" "len_blind func_auipc" "len_blind func_empty" "len_blind func_ecall"
  unfolding len_blind_def
  by (simp_all add: FUNC_load_def FUNC_imm_def FUNC_store_def FUNC_reg_def FUNC_branch_def FUNC_csr_def
      func_lui_def func_auipc_def func_empty_def func_ecall_def Let_def if_distrib [of Inr] rvc_continue
      cong: if_cong)

lemma len_blind_fp:
  "len_blind (FUNC_fma_s e3)" "len_blind (FUNC_fma_d d3)" "len_blind (FUNC_fp_s e2)"
  "len_blind (FUNC_fp_d d2)" "len_blind (FUNC_fsgnj_s n x)" "len_blind (FUNC_fsgnj_d n x)"
  "len_blind (FUNC_fcmp_s ce)" "len_blind (FUNC_fcmp_d cd)" "len_blind (s_to_x f1)"
  "len_blind (d_to_x f2)" "len_blind (x_to_s f3)" "len_blind (x_to_d f4)" "len_blind (FUNC_fstore k)"
  "len_blind func_flw" "len_blind func_fld" "len_blind func_fcvt_s_d" "len_blind func_fcvt_d_s"
  unfolding len_blind_def
  by (simp_all add: FUNC_fma_s_def FUNC_fma_d_def FUNC_fp_s_def FUNC_fp_d_def FUNC_fsgnj_s_def
    FUNC_fsgnj_d_def FUNC_fcmp_s_def FUNC_fcmp_d_def s_to_x_def d_to_x_def x_to_s_def x_to_d_def
    FUNC_fstore_def func_flw_def func_fld_def func_fcvt_s_d_def func_fcvt_d_s_def Let_def)

lemma funcs_len_blind:
  "list_all (\<lambda>(t, f). t = inst_jal \<or> t = inst_jalr \<or> len_blind f) handler_of"
  unfolding handler_of_def by (simp add: func_defs len_blind_int len_blind_fp)

text \<open>The immediate of a shift is masked.\<close>

lemma scast_and_3f: "k AND 0x3f = i AND 0x3f \<Longrightarrow> (scast k AND 0x3f :: u64) = scast (i :: i32) AND 0x3f"
proof -
  have low: "(scast (w :: i32) AND 0x3f :: u64) = ucast (w AND 0x3f)" for w
  proof -
    have "(scast w AND mask 6 :: u64) = ucast (w AND mask 6)"
      by (rule bit_word_eqI) (auto simp: bit_simps)
    then show ?thesis by (simp add: mask_eq_exp_minus_1)
  qed
  show "k AND 0x3f = i AND 0x3f \<Longrightarrow> ?thesis" by (simp only: low)
qed

lemma shift_handlers:
  assumes "k AND 0x3f = imm i AND 0x3f"
  shows "func_slli s (i\<lparr>imm := k\<rparr>) = on_inst (imm_update (\<lambda>_. k)) (func_slli s i)"
    "func_srli s (i\<lparr>imm := k\<rparr>) = on_inst (imm_update (\<lambda>_. k)) (func_srli s i)"
    "func_srai s (i\<lparr>imm := k\<rparr>) = on_inst (imm_update (\<lambda>_. k)) (func_srai s i)"
  using scast_and_3f [OF assms]
  by (simp_all add: func_defs FUNC_imm_def Let_def)

lemma dispatch_shift:
  assumes "is_shift (itype i)" "k AND 0x3f = imm i AND 0x3f"
  shows "dispatch s (i\<lparr>imm := k\<rparr>) = on_inst (imm_update (\<lambda>_. k)) (dispatch s i)"
proof -
  have d: "dispatch s j = h s j" if "itype j = t" "(t, h) \<in> set handler_of" for j t h
    using that dispatch_handler [of j h s] by simp
  have mem: "(inst_slli, func_slli) \<in> set handler_of" "(inst_srli, func_srli) \<in> set handler_of"
    "(inst_srai, func_srai) \<in> set handler_of"
    by (simp_all add: handler_of_def)
  from assms(1) show ?thesis
    using shift_handlers [OF assms(2)] mem by (auto simp: is_shift_def d)
qed

lemma dispatch_len_blind:
  assumes "itype i < num_insns" "itype i \<noteq> inst_jal" "itype i \<noteq> inst_jalr"
  shows "dispatch s (i\<lparr>rvc := b\<rparr>) = on_inst (rvc_update (\<lambda>_. b)) (dispatch s i)"
proof -
  have "itype i \<in> set (map fst handler_of)" using assms(1) by (simp only: handler_of_types) simp
  then obtain f where f: "(itype i, f) \<in> set handler_of" by auto
  with funcs_len_blind assms(2,3) have "len_blind f" by (auto simp: list_all_iff)
  with dispatch_handler [OF f] dispatch_handler [of "i\<lparr>rvc := b\<rparr>" f] f show ?thesis
    by (simp add: len_blind_def)
qed

section \<open>Instructions that agree\<close>

lemma same_opD:
  assumes "same_op i j"
  shows "j = i\<lparr>imm := imm j, rvc := rvc j\<rparr>"
  using assms by (cases i; cases j) (simp add: same_op_def)

lemma same_op_fields:
  assumes "same_op i j"
  shows "itype j = itype i" "rd j = rd i" "rs1 j = rs1 i" "rs2 j = rs2 i" "rs3 j = rs3 i"
    "continue_exec j = continue_exec i"
  using assms by (cases i; cases j; simp add: same_op_def)+

text \<open>What the loop sees of a handler's result: the state, and whether the block ends.\<close>

definition effect :: "(cpu_t \<times> inst_t) res \<Rightarrow> (cpu_t \<times> bool) res" where
  "effect = map_sum id (map_prod id continue_exec)"

lemma effect_on_inst [simp]:
  "effect (on_inst (rvc_update f) r) = effect r" "effect (on_inst (imm_update g) r) = effect r"
  by (cases r; auto simp: effect_def on_inst_def)+

lemma same_op_effect:
  assumes "same_op i j" "itype i < num_insns" "itype i \<noteq> inst_jal" "itype i \<noteq> inst_jalr"
  shows "effect (dispatch s i) = effect (dispatch s j)"
proof -
  let ?k = "i\<lparr>imm := imm j\<rparr>"
  have "effect (dispatch s ?k) = effect (dispatch s i)"
  proof (cases "is_shift (itype i)")
    case True
    with assms(1) dispatch_shift [of i "imm j" s] show ?thesis by (simp add: same_op_def)
  next
    case False
    with assms(1) have "?k = i" by (simp add: same_op_def)
    then show ?thesis by simp
  qed
  moreover have "dispatch s (?k\<lparr>rvc := rvc j\<rparr>) = on_inst (rvc_update (\<lambda>_. rvc j)) (dispatch s ?k)"
    using assms by (intro dispatch_len_blind) simp_all
  moreover have "dispatch s j = dispatch s (?k\<lparr>rvc := rvc j\<rparr>)"
    using same_opD [OF assms(1)] by (rule arg_cong)
  ultimately show ?thesis by simp
qed

text \<open>
  The two jumps: they agree in everything but the link address, which is the address of the
  next instruction.
\<close>

definition relink :: "i8 \<Rightarrow> u64 \<Rightarrow> cpu_t \<Rightarrow> cpu_t" where
  "relink r link s = s\<lparr>gp_regs := (gp_regs s)(unat r := link)\<rparr>"

lemma same_op_jal:
  assumes "same_op i j" "itype i = inst_jal" "regs_ok i"
  shows "\<exists>s'. dispatch s i = Inr (relink (rd i) (pc s + inst_len i) s', i) \<and>
    dispatch s j = Inr (relink (rd i) (pc s + inst_len j) s', j)"
proof -
  from assms have j: "itype j = inst_jal" "rd j = rd i" "imm j = imm i" "regs_ok j"
    using same_op_fields [OF assms(1)] by (simp_all add: same_op_def is_shift_def rv_enum regs_ok_def)
  have "(inst_jal, func_jal) \<in> set handler_of" by (simp add: handler_of_def)
  with dispatch_handler [of i func_jal s] dispatch_handler [of j func_jal s] assms j show ?thesis
    by (intro exI [of _ "s\<lparr>pc := pc s + scast (imm i), reenter_pc := pc s + scast (imm i),
          exit_reason := direct_branch\<rparr>"])
      (simp add: func_jal_def relink_def Let_def)
qed

lemma same_op_jalr:
  assumes "same_op i j" "itype i = inst_jalr" "regs_ok i"
    and "(gp_regs s (unat (rs1 i)) + scast (imm i)) AND NOT 1 \<noteq> 0"
  shows "\<exists>s'. dispatch s i = Inr (relink (rd i) (pc s + inst_len i) s', i) \<and>
    dispatch s j = Inr (relink (rd i) (pc s + inst_len j) s', j)"
proof -
  from assms have j: "itype j = inst_jalr" "rd j = rd i" "rs1 j = rs1 i" "imm j = imm i" "regs_ok j"
    using same_op_fields [OF assms(1)] by (simp_all add: same_op_def is_shift_def rv_enum regs_ok_def)
  have "(inst_jalr, func_jalr) \<in> set handler_of" by (simp add: handler_of_def)
  with dispatch_handler [of i func_jalr s] dispatch_handler [of j func_jalr s] assms j show ?thesis
    by (intro exI [of _ "s\<lparr>exit_reason := indirect_branch,
          reenter_pc := (gp_regs s (unat (rs1 i)) + scast (imm i)) AND NOT 1\<rparr>"])
      (simp add: func_jalr_def relink_def Let_def)
qed

end
