(* ===== verification/Isa.thy ===== *)
theory Isa
  imports Handlers
begin

text \<open>
  The integer instructions as the ISA manual describes them, over mathematical integers:
  results are computed exactly and reduced to 64 bits once. The handlers, with their casts,
  masks and special cases, compute the same values.
\<close>

section \<open>Integer views of C's casts and shifts\<close>

definition s32 :: "int \<Rightarrow> int" where
  "s32 z = signed_take_bit 31 z"

lemma scast_word_of_int: "(scast (w :: 'a::len word) :: 'b::len word) = word_of_int (sint w)"
  by (rule bit_word_eqI) (simp add: bit_simps bit_sint_iff)

lemma sint_low32: "sint (ucast (x :: u64) :: i32) = s32 (uint x)"
  by (simp add: s32_def sint_uint unsigned_ucast_eq signed_take_bit_take_bit unsigned_take_bit_eq)

lemma uint_low32: "uint (ucast (x :: u64) :: u32) = uint x mod 2 ^ 32"
  by (simp add: unsigned_ucast_eq take_bit_eq_mod uint_mod)

lemma sext32_int: "sext32 x = word_of_int (s32 (uint x))"
  by (simp add: sext32_def scast_word_of_int sint_low32)

lemma sint_sext32: "sint (sext32 x) = s32 (uint x)"
  by (simp add: sext32_def sint_low32 sint_up_scast is_up)

lemma s32_word: "s32 (uint (word_of_int z :: u64)) = s32 z"
  by (simp add: s32_def uint_word_of_int_eq signed_take_bit_take_bit)

lemma shamt6: "unat (x AND 0x3f :: u64) = unat x mod 64"
proof -
  have "x AND 0x3f = take_bit 6 x" by (simp add: take_bit_eq_mask mask_eq_exp_minus_1)
  then show ?thesis by (simp add: unat_mod_distrib take_bit_eq_mod)
qed

lemma shamt5: "unat (x AND 0x1f :: u64) = unat x mod 32"
proof -
  have "x AND 0x1f = take_bit 5 x" by (simp add: take_bit_eq_mask mask_eq_exp_minus_1)
  then show ?thesis by (simp add: unat_mod_distrib take_bit_eq_mod)
qed

lemma push_bit_int: "push_bit n (a :: u64) = word_of_int (uint a * 2 ^ n)"
  by (simp add: push_bit_eq_mult)

lemma word_eq_of_uint: "uint (w :: 'a::len word) = z \<Longrightarrow> w = word_of_int z"
  using word_of_int_uint [of w] by simp

lemma word_eq_of_sint: "sint (w :: 'a::len word) = z \<Longrightarrow> w = word_of_int z"
  using scast_word_of_int [of w, where 'b = 'a] by simp

lemma uint_drop_bit: "uint (drop_bit n (a :: 'a::len word)) = uint a div 2 ^ n"
  using drop_bit_eq_div [of n "uint a"] by (simp only: unsigned_drop_bit_eq) (simp add: take_bit_int_eq_self)

lemma drop_bit_int: "drop_bit n (a :: 'a::len word) = word_of_int (uint a div 2 ^ n)"
  by (rule word_eq_of_uint) (rule uint_drop_bit)

lemma signed_drop_bit_int: "signed_drop_bit n (a :: 'a::len word) = word_of_int (sint a div 2 ^ n)"
  by (rule word_eq_of_sint) (simp add: sint_signed_drop_bit_eq drop_bit_eq_div)

section \<open>The instruction set\<close>

text \<open>Register-register instructions: the value of \<open>rd\<close> from those of \<open>rs1\<close> and \<open>rs2\<close>.\<close>

definition isa_div :: "int \<Rightarrow> int \<Rightarrow> int" where
  "isa_div x y = (if y = 0 then - 1 else x sdiv y)"

definition isa_rem :: "int \<Rightarrow> int \<Rightarrow> int" where
  "isa_rem x y = (if y = 0 then x else x smod y)"

definition isa_divu :: "int \<Rightarrow> int \<Rightarrow> int" where
  "isa_divu x y = (if y = 0 then - 1 else x div y)"

definition isa_remu :: "int \<Rightarrow> int \<Rightarrow> int" where
  "isa_remu x y = (if y = 0 then x else x mod y)"

definition isa_r :: "(inst_type_t \<times> (u64 \<Rightarrow> u64 \<Rightarrow> int)) list" where
  "isa_r =
    [(inst_add, \<lambda>a b. uint a + uint b),
     (inst_sub, \<lambda>a b. uint a - uint b),
     (inst_sll, \<lambda>a b. uint a * 2 ^ (unat b mod 64)),
     (inst_srl, \<lambda>a b. uint a div 2 ^ (unat b mod 64)),
     (inst_sra, \<lambda>a b. sint a div 2 ^ (unat b mod 64)),
     (inst_slt, \<lambda>a b. if sint a < sint b then 1 else 0),
     (inst_sltu, \<lambda>a b. if uint a < uint b then 1 else 0),
     (inst_xor, \<lambda>a b. uint a XOR uint b),
     (inst_or, \<lambda>a b. uint a OR uint b),
     (inst_and, \<lambda>a b. uint a AND uint b),
     (inst_mul, \<lambda>a b. uint a * uint b),
     (inst_mulh, \<lambda>a b. (sint a * sint b) div 2 ^ 64),
     (inst_mulhsu, \<lambda>a b. (sint a * uint b) div 2 ^ 64),
     (inst_mulhu, \<lambda>a b. (uint a * uint b) div 2 ^ 64),
     (inst_div, \<lambda>a b. isa_div (sint a) (sint b)),
     (inst_divu, \<lambda>a b. isa_divu (uint a) (uint b)),
     (inst_rem, \<lambda>a b. isa_rem (sint a) (sint b)),
     (inst_remu, \<lambda>a b. isa_remu (uint a) (uint b)),
     (inst_addw, \<lambda>a b. s32 (uint a + uint b)),
     (inst_subw, \<lambda>a b. s32 (uint a - uint b)),
     (inst_sllw, \<lambda>a b. s32 (uint a * 2 ^ (unat b mod 32))),
     (inst_srlw, \<lambda>a b. s32 ((uint a mod 2 ^ 32) div 2 ^ (unat b mod 32))),
     (inst_sraw, \<lambda>a b. s32 (uint a) div 2 ^ (unat b mod 32)),
     (inst_mulw, \<lambda>a b. s32 (uint a * uint b))]"

text \<open>The 32-bit divisions, whose handlers agree with the manual on part of the inputs only.\<close>

definition isa_divw :: "(inst_type_t \<times> (u64 \<Rightarrow> u64 \<Rightarrow> int)) list" where
  "isa_divw =
    [(inst_divw, \<lambda>a b. s32 (isa_div (s32 (uint a)) (s32 (uint b)))),
     (inst_divuw, \<lambda>a b. s32 (isa_divu (uint a mod 2 ^ 32) (uint b mod 2 ^ 32))),
     (inst_remw, \<lambda>a b. s32 (isa_rem (s32 (uint a)) (s32 (uint b)))),
     (inst_remuw, \<lambda>a b. s32 (isa_remu (uint a mod 2 ^ 32) (uint b mod 2 ^ 32)))]"

text \<open>Register-immediate instructions; the second operand is the immediate's signed value.\<close>

definition isa_i :: "(inst_type_t \<times> (u64 \<Rightarrow> int \<Rightarrow> int)) list" where
  "isa_i =
    [(inst_addi, \<lambda>a i. uint a + i),
     (inst_slti, \<lambda>a i. if sint a < i then 1 else 0),
     (inst_sltiu, \<lambda>a i. if uint a < i mod 2 ^ 64 then 1 else 0),
     (inst_xori, \<lambda>a i. uint a XOR i),
     (inst_ori, \<lambda>a i. uint a OR i),
     (inst_andi, \<lambda>a i. uint a AND i),
     (inst_slli, \<lambda>a i. uint a * 2 ^ nat (i mod 64)),
     (inst_srli, \<lambda>a i. uint a div 2 ^ nat (i mod 64)),
     (inst_srai, \<lambda>a i. sint a div 2 ^ nat (i mod 64)),
     (inst_addiw, \<lambda>a i. s32 (uint a + i)),
     (inst_slliw, \<lambda>a i. s32 (uint a * 2 ^ nat (i mod 32))),
     (inst_srliw, \<lambda>a i. s32 ((uint a mod 2 ^ 32) div 2 ^ nat (i mod 32))),
     (inst_sraiw, \<lambda>a i. s32 (uint a) div 2 ^ nat (i mod 32))]"

section \<open>The expressions of the handlers\<close>

lemma c_bool_int: "c_bool b = word_of_int (if b then 1 else 0)"
  by (simp add: c_bool_def)

lemma word_ops_int:
  "a + b = word_of_int (uint a + uint b)" "a - b = word_of_int (uint a - uint b)"
  "a * b = word_of_int (uint a * uint b)" for a b :: u64
  by simp_all

lemma bitops_int:
  "a XOR b = word_of_int (uint a XOR uint b)" "a OR b = word_of_int (uint a OR uint b)"
  "a AND b = word_of_int (uint a AND uint b)" for a b :: u64
  by (rule word_eq_of_uint; simp add: unsigned_xor_eq unsigned_or_eq unsigned_and_eq)+

lemma sext32_ops:
  "sext32 (a + b) = word_of_int (s32 (uint a + uint b))"
  "sext32 (a - b) = word_of_int (s32 (uint a - uint b))"
  "sext32 (a * b) = word_of_int (s32 (uint a * uint b))"
  "sext32 (push_bit n a) = word_of_int (s32 (uint a * 2 ^ n))"
  unfolding word_ops_int push_bit_int sext32_int s32_word by (rule refl)+

lemma scast_drop32: 
  "(scast (drop_bit n (ucast (a :: u64) :: u32)) :: u64) = word_of_int (s32 ((uint a mod 2 ^ 32) div 2 ^ n))"
proof -
  have "sint (drop_bit n (ucast a :: u32)) = signed_take_bit 31 (uint (drop_bit n (ucast a :: u32)))"
    by (simp add: sint_uint)
  also have "uint (drop_bit n (ucast a :: u32)) = (uint a mod 2 ^ 32) div 2 ^ n"
    by (simp only: uint_drop_bit uint_low32)
  finally show ?thesis by (simp only: scast_word_of_int s32_def)
qed

lemma scast_sdrop32:
  "(scast (signed_drop_bit n (ucast (a :: u64) :: i32)) :: u64) = word_of_int (s32 (uint a) div 2 ^ n)"
  by (simp add: scast_word_of_int sint_signed_drop_bit_eq drop_bit_eq_div sint_low32)

lemma div_int:
  "(if b = 0 then Inr (- 1) else if a = INT64_MIN \<and> b = - 1 then Inr INT64_MIN else c_sdiv a b)
     = Inr (word_of_int (isa_div (sint a) (sint b)))"
proof -
  have "sint b = 0 \<longleftrightarrow> b = 0" by (metis sint_0 signed_eq_0_iff)
  moreover have "word_of_int (sint INT64_MIN sdiv sint (- 1 :: i64)) = INT64_MIN"
    by (simp add: INT64_MIN_def signed_divide_int_def)
  ultimately show ?thesis by (auto simp: isa_div_def c_sdiv_def)
qed

lemma rem_int:
  "(if b = 0 then Inr a else if a = INT64_MIN \<and> b = - 1 then Inr 0 else c_smod a b)
     = Inr (word_of_int (isa_rem (sint a) (sint b)))"
proof -
  have "sint b = 0 \<longleftrightarrow> b = 0" by (metis sint_0 signed_eq_0_iff)
  moreover have "word_of_int (sint INT64_MIN smod sint (- 1 :: i64)) = (0 :: i64)"
    by (simp add: INT64_MIN_def signed_modulo_int_def signed_divide_int_def)
  ultimately show ?thesis by (auto simp: isa_rem_def c_smod_def)
qed

lemma divu_int: "(if b = 0 then Inr (- 1) else Inr (a div b)) = Inr (word_of_int (isa_divu (uint a) (uint b)))"
  for a b :: u64
  by (auto simp: isa_divu_def uint_div_distrib word_eq_of_uint uint_0_iff)

lemma remu_int: "(if b = 0 then a else a mod b) = word_of_int (isa_remu (uint a) (uint b))"
  for a b :: u64
  by (auto simp: isa_remu_def uint_mod_distrib word_eq_of_uint uint_0_iff)

subsection \<open>32-bit division\<close>

lemma s32_eq_0: "s32 (uint (b :: u64)) = 0 \<longleftrightarrow> (ucast b :: u32) = 0"
  by (simp flip: sint_low32 add: signed_eq_0_iff)

lemma s32_mod: "s32 (z mod 2 ^ 32) = s32 z"
  by (simp only: s32_def take_bit_eq_mod [symmetric]) (simp add: signed_take_bit_take_bit)

lemma s32_const [simp]: "s32 0 = 0" "s32 (- 1) = - 1"
  by (simp_all add: s32_def)

lemma sext32_word: "sext32 (word_of_int z) = word_of_int (s32 z)"
  by (simp only: sext32_int s32_word)

lemma scast32_int: "(scast (w :: u32) :: u64) = word_of_int (s32 (uint w))"
  by (simp only: scast_word_of_int s32_def) (simp add: sint_uint)

lemma divw_int:
  assumes "b \<noteq> 0" "(ucast b :: u32) \<noteq> 0"
  shows "bindE (c_sdiv (sext32 a) (sext32 b)) (\<lambda>q. Inr (sext32 q))
      = Inr (word_of_int (s32 (isa_div (s32 (uint a)) (s32 (uint b)))))"
    "bindE (c_smod (sext32 a) (sext32 b)) (\<lambda>q. Inr (sext32 q))
      = Inr (word_of_int (s32 (isa_rem (s32 (uint a)) (s32 (uint b)))))"
proof -
  have "s32 (uint b) \<noteq> 0" using assms by (simp add: s32_eq_0)
  moreover from this sint_sext32 [of b] have "sext32 b \<noteq> 0" by auto
  ultimately show "bindE (c_sdiv (sext32 a) (sext32 b)) (\<lambda>q. Inr (sext32 q))
      = Inr (word_of_int (s32 (isa_div (s32 (uint a)) (s32 (uint b)))))"
    "bindE (c_smod (sext32 a) (sext32 b)) (\<lambda>q. Inr (sext32 q))
      = Inr (word_of_int (s32 (isa_rem (s32 (uint a)) (s32 (uint b)))))"
    by (simp_all add: c_sdiv_def c_smod_def sint_sext32 sext32_word isa_div_def isa_rem_def)
qed

lemma divuw_int:
  fixes a b :: u64
  assumes "(ucast b :: u32) \<noteq> 0"
  shows "bindE (c_udiv32 (ucast a) (ucast b)) (\<lambda>q. Inr (scast q))
      = Inr (word_of_int (s32 (isa_divu (uint a mod 2 ^ 32) (uint b mod 2 ^ 32))) :: u64)"
    "bindE (c_umod32 (ucast a) (ucast b)) (\<lambda>q. Inr (scast q))
      = Inr (word_of_int (s32 (isa_remu (uint a mod 2 ^ 32) (uint b mod 2 ^ 32))) :: u64)"
proof -
  have "uint b mod 2 ^ 32 \<noteq> 0" using assms by (simp only: uint_low32 [symmetric] uint_0_iff) simp
  with assms show "bindE (c_udiv32 (ucast a) (ucast b)) (\<lambda>q. Inr (scast q))
      = Inr (word_of_int (s32 (isa_divu (uint a mod 2 ^ 32) (uint b mod 2 ^ 32))) :: u64)"
    "bindE (c_umod32 (ucast a) (ucast b)) (\<lambda>q. Inr (scast q))
      = Inr (word_of_int (s32 (isa_remu (uint a mod 2 ^ 32) (uint b mod 2 ^ 32))) :: u64)"
    unfolding c_udiv32_def c_umod32_def isa_divu_def isa_remu_def
    by (simp_all only: if_False bindE.simps scast32_int uint_div_distrib uint_mod_distrib uint_low32)
qed

subsection \<open>Immediates\<close>

lemma imm_ops:
  fixes a :: u64 and i :: i32
  shows "a + scast i = word_of_int (uint a + sint i)"
    "a XOR scast i = word_of_int (uint a XOR sint i)" "a OR scast i = word_of_int (uint a OR sint i)"
    "a AND scast i = word_of_int (uint a AND sint i)"
    "sext32 (a + scast i) = word_of_int (s32 (uint a + sint i))"
proof -
  show "a XOR scast i = word_of_int (uint a XOR sint i)" "a OR scast i = word_of_int (uint a OR sint i)"
    "a AND scast i = word_of_int (uint a AND sint i)"
    by (rule bit_word_eqI; simp add: bit_simps bit_sint_iff)+
  show *: "a + scast i = word_of_int (uint a + sint i)" by simp
  show "sext32 (a + scast i) = word_of_int (s32 (uint a + sint i))"
    unfolding * by (rule sext32_word)
qed

lemma uint_scast: "uint (scast (i :: i32) :: u64) = sint i mod 2 ^ 64"
  unfolding scast_word_of_int by (simp only: uint_word_of_int) simp

lemma imm_compare:
  fixes a :: u64 and i :: i32
  shows "sint (scast i :: u64) = sint i" "a < scast i \<longleftrightarrow> uint a < sint i mod 2 ^ 64"
proof -
  show "sint (scast i :: u64) = sint i" by (simp add: sint_up_scast is_up)
  show "a < scast i \<longleftrightarrow> uint a < sint i mod 2 ^ 64" by (simp only: word_less_def uint_scast)
qed

lemma imm_shamt:
  fixes i :: i32
  shows "unat (scast i AND 0x3f :: u64) = nat (sint i mod 64)"
    "unat (scast i AND 0x1f :: u64) = nat (sint i mod 32)"
proof -
  have u: "int (unat (scast i :: u64)) = sint i mod 2 ^ 64"
    by (simp only: uint_scast [symmetric] of_nat_unat)
  have m: "int (unat (scast i :: u64) mod 64) = sint i mod 64"
    "int (unat (scast i :: u64) mod 32) = sint i mod 32"
    unfolding of_nat_mod u by (simp_all add: mod_mod_cancel)
  show "unat (scast i AND 0x3f :: u64) = nat (sint i mod 64)"
    "unat (scast i AND 0x1f :: u64) = nat (sint i mod 32)"
    by (simp_all only: shamt6 shamt5 m [symmetric] nat_int)
qed

section \<open>The handlers\<close>

text \<open>
  A register-register instruction changes nothing but \<open>rd\<close>; a register-immediate one may
  also print the debugging message about \<open>ra\<close>.
\<close>

definition sets_rd :: "cpu_t \<Rightarrow> inst_t \<Rightarrow> u64 \<Rightarrow> (cpu_t \<times> inst_t) res \<Rightarrow> bool" where
  "sets_rd s i v r \<longleftrightarrow> r = Inr (s\<lparr>gp_regs := (gp_regs s)(unat (rd i) := v)\<rparr>, i)"

definition alu_handler_ok :: "(u64 \<Rightarrow> u64 \<Rightarrow> int) \<Rightarrow> func_t \<Rightarrow> bool" where
  "alu_handler_ok f h \<longleftrightarrow> (\<forall>s i. regs_ok i \<longrightarrow>
     sets_rd s i (word_of_int (f (gp_regs s (unat (rs1 i))) (gp_regs s (unat (rs2 i))))) (h s i))"

lemma alu_handlerI:
  "(\<And>a b. e a b = Inr (word_of_int (f a b))) \<Longrightarrow> alu_handler_ok f (FUNC_reg e)"
  by (simp add: alu_handler_ok_def sets_rd_def FUNC_reg_def)

definition imm_handler_ok :: "(u64 \<Rightarrow> int \<Rightarrow> int) \<Rightarrow> func_t \<Rightarrow> bool" where
  "imm_handler_ok f h \<longleftrightarrow> (\<forall>s i. regs_ok i \<longrightarrow> (\<exists>l.
     h s i = Inr (s\<lparr>gp_regs := (gp_regs s)
       (unat (rd i) := word_of_int (f (gp_regs s (unat (rs1 i))) (sint (imm i)))),
       stderr_log := stderr_log s @ l\<rparr>, i)))"

lemma log_same [simp]: "s\<lparr>gp_regs := g, stderr_log := stderr_log s\<rparr> = (s :: cpu_t)\<lparr>gp_regs := g\<rparr>"
  by (cases s) simp

lemma imm_handlerI:
  assumes "\<And>a (i :: i32). e a (scast i) = word_of_int (f a (sint i))"
  shows "imm_handler_ok f (FUNC_imm e)"
  unfolding imm_handler_ok_def
proof (intro allI impI)
  fix s i assume "regs_ok i"
  then show "\<exists>l. FUNC_imm e s i = Inr (s\<lparr>gp_regs := (gp_regs s)
      (unat (rd i) := word_of_int (f (gp_regs s (unat (rs1 i))) (sint (imm i)))),
      stderr_log := stderr_log s @ l\<rparr>, i)"
    by (intro exI [of _ "if rd i = 1 \<and> e (gp_regs s (unat (rs1 i))) (scast (imm i)) = 0
          then [Dbg_ra_alu_0 (pc s)] else []"])
      (simp add: FUNC_imm_def Let_def eprint_def assms)
qed

lemmas expr_int = sext32_word sext32_ops scast_drop32 scast_sdrop32 div_int rem_int divu_int remu_int mulh_int
  mulhsu_int mulhu_int c_bool_int word_less_def shamt6 shamt5 push_bit_int drop_bit_int
  signed_drop_bit_int

lemma isa_r_handlers:
  "list_all2 (\<lambda>(t, f) h. (t, h) \<in> set handler_of \<and> alu_handler_ok f h) isa_r
    [func_add, func_sub, func_sll, func_srl, func_sra, func_slt, func_sltu, func_xor, func_or,
     func_and, func_mul, func_mulh, func_mulhsu, func_mulhu, func_div, func_divu, func_rem,
     func_remu, func_addw, func_subw, func_sllw, func_srlw, func_sraw, func_mulw]"
  unfolding isa_r_def list_all2_Cons list_all2_Nil prod.case
  by (intro conjI refl; (simp add: handler_of_def; fail | simp only: func_defs; rule alu_handlerI;
      (simp only: shamt5 scast_drop32 scast_sdrop32; fail | simp only: expr_int; fail | simp only: word_ops_int bitops_int)))

lemma isa_i_handlers:
  "list_all2 (\<lambda>(t, f) h. (t, h) \<in> set handler_of \<and> imm_handler_ok f h) isa_i
    [func_addi, func_slti, func_sltiu, func_xori, func_ori, func_andi, func_slli, func_srli,
     func_srai, func_addiw, func_slliw, func_srliw, func_sraiw]"
  unfolding isa_i_def list_all2_Cons list_all2_Nil prod.case
  by (intro conjI refl; (simp add: handler_of_def; fail | simp only: func_defs; rule imm_handlerI;
      (simp only: imm_shamt scast_drop32 scast_sdrop32; fail | simp only: imm_ops imm_shamt imm_compare
        c_bool_int push_bit_int drop_bit_int signed_drop_bit_int sext32_word)))

lemma handlers_lookup:
  assumes "list_all2 (\<lambda>(t, f) h. (t, h) \<in> set handler_of \<and> Q f h) tab hs" "(t, f) \<in> set tab"
  obtains h where "(t, h) \<in> set handler_of" "Q f h"
  using assms by (fastforce simp: list_all2_conv_all_nth in_set_conv_nth)

lemma dispatch_isa_r:
  assumes "(itype i, f) \<in> set isa_r" "regs_ok i"
  shows "sets_rd s i (word_of_int (f (gp_regs s (unat (rs1 i))) (gp_regs s (unat (rs2 i))))) (dispatch s i)"
proof -
  obtain h where "(itype i, h) \<in> set handler_of" "alu_handler_ok f h"
    by (rule handlers_lookup [OF isa_r_handlers assms(1)])
  with assms(2) show ?thesis by (simp add: dispatch_handler alu_handler_ok_def)
qed

lemma dispatch_isa_i:
  assumes "(itype i, f) \<in> set isa_i" "regs_ok i"
  shows "\<exists>l. dispatch s i = Inr (s\<lparr>gp_regs := (gp_regs s)
       (unat (rd i) := word_of_int (f (gp_regs s (unat (rs1 i))) (sint (imm i)))),
       stderr_log := stderr_log s @ l\<rparr>, i)"
proof -
  obtain h where "(itype i, h) \<in> set handler_of" "imm_handler_ok f h"
    by (rule handlers_lookup [OF isa_i_handlers assms(1)])
  with assms(2) show ?thesis by (simp add: dispatch_handler imm_handler_ok_def)
qed

text \<open>
  The 32-bit divisions agree with the manual when the divisor register is zero or its low half
  is not; with a zero low half under a non-zero high half the host divides by zero.
\<close>

definition divw_handler_ok :: "(u64 \<Rightarrow> u64 \<Rightarrow> int) \<Rightarrow> func_t \<Rightarrow> bool" where
  "divw_handler_ok f h \<longleftrightarrow> (\<forall>s i. regs_ok i \<longrightarrow>
     (let a = gp_regs s (unat (rs1 i)); b = gp_regs s (unat (rs2 i)) in
      if b = 0 \<or> (ucast b :: u32) \<noteq> 0 then sets_rd s i (word_of_int (f a b)) (h s i)
      else h s i = Inl Div_By_Zero))"

lemma divw_handlerI:
  assumes "\<And>a. e a 0 = Inr (word_of_int (f a 0))"
    and "\<And>a b. b \<noteq> 0 \<Longrightarrow> (ucast b :: u32) \<noteq> 0 \<Longrightarrow> e a b = Inr (word_of_int (f a b))"
    and "\<And>a b. b \<noteq> 0 \<Longrightarrow> (ucast b :: u32) = 0 \<Longrightarrow> e a b = Inl Div_By_Zero"
  shows "divw_handler_ok f (FUNC_reg e)"
proof -
  have "e a b = (if b = 0 \<or> (ucast b :: u32) \<noteq> 0 then Inr (word_of_int (f a b)) else Inl Div_By_Zero)"
    for a b using assms by (cases "b = 0") auto
  then show ?thesis by (simp add: divw_handler_ok_def Let_def FUNC_reg_def sets_rd_def)
qed

lemma s32_s32 [simp]: "s32 (s32 z) = s32 z"
  by (simp add: s32_def)

text \<open>Division of a whole register by zero, and by a register whose low half is zero.\<close>

lemma isa_div_0 [simp]: "isa_div x 0 = - 1" "isa_rem x 0 = x" "isa_divu x 0 = - 1" "isa_remu x 0 = x"
  by (simp_all add: isa_div_def isa_rem_def isa_divu_def isa_remu_def)

lemma div_low_half_0:
  assumes "(ucast b :: u32) = 0"
  shows "c_sdiv a (sext32 b) = Inl Div_By_Zero" "c_smod a (sext32 b) = Inl Div_By_Zero"
    "c_udiv32 c (ucast b) = Inl Div_By_Zero" "c_umod32 c (ucast b) = Inl Div_By_Zero"
  using assms by (simp_all add: sext32_def c_sdiv_def c_smod_def c_udiv32_def c_umod32_def)

lemma isa_divw_handlers:
  "list_all2 (\<lambda>(t, f) h. (t, h) \<in> set handler_of \<and> divw_handler_ok f h) isa_divw
    [func_divw, func_divuw, func_remw, func_remuw]"
  unfolding isa_divw_def list_all2_Cons list_all2_Nil prod.case
  by (intro conjI refl; (simp add: handler_of_def; fail | simp only: func_defs; rule divw_handlerI;
      (simp add: sext32_int s32_mod [simplified]; fail | simp add: divw_int divuw_int; fail |
        simp add: div_low_half_0 c_udiv32_def c_umod32_def)))

lemma dispatch_isa_divw:
  assumes "(itype i, f) \<in> set isa_divw" "regs_ok i"
  shows "let a = gp_regs s (unat (rs1 i)); b = gp_regs s (unat (rs2 i)) in
      if b = 0 \<or> (ucast b :: u32) \<noteq> 0 then sets_rd s i (word_of_int (f a b)) (dispatch s i)
      else dispatch s i = Inl Div_By_Zero"
proof -
  obtain h where h: "(itype i, h) \<in> set handler_of" "divw_handler_ok f h"
    by (rule handlers_lookup [OF isa_divw_handlers assms(1)])
  show ?thesis
    unfolding dispatch_handler [OF h(1)]
    by (rule h(2) [unfolded divw_handler_ok_def, rule_format, OF assms(2)])
qed

end
