(* ===== verification/Isa_Mem.thy ===== *)
theory Isa_Mem
  imports Isa
begin

text \<open>
  Loads and stores: the value a load extends from little-endian bytes, the bytes a store
  leaves in memory, and what a load returns after a store.
\<close>

section \<open>Bytes as integers\<close>

primrec le_int :: "u8 list \<Rightarrow> int" where
  "le_int [] = 0"
| "le_int (b # bs) = uint b + 256 * le_int bs"

lemma byte_or_add: "(ucast (b :: u8) OR push_bit 8 w :: 'a::len word) = ucast b + push_bit 8 w"
  by (rule disjunctive_add [symmetric]) (auto simp: bit_simps dest: bit_imp_le_length)

lemma ucast_word_of_int: "(ucast (w :: 'a::len word) :: 'b::len word) = word_of_int (uint w)"
  by simp

lemma le_word_int: "(le_word bs :: 'a::len word) = word_of_int (le_int bs)"
proof (induction bs)
  case (Cons b bs)
  have "(le_word (b # bs) :: 'a word) = ucast b + push_bit 8 (le_word bs)"
    by (simp add: byte_or_add)
  also have "\<dots> = word_of_int (uint b) + word_of_int (256 * le_int bs)"
    by (simp add: Cons.IH push_bit_eq_mult mult.commute)
  finally show ?case by simp
qed simp

lemma le_int_bounds: "0 \<le> le_int bs \<and> le_int bs < 256 ^ length bs"
proof (induction bs)
  case (Cons b bs)
  have "uint b < 256" using uint_lt2p [of b] by simp
  with Cons show ?case by auto
qed simp

lemma le_int_le_bytes: "le_int (le_bytes n (w :: 'a::len word)) = take_bit (8 * n) (uint w)"
proof (induction n arbitrary: w)
  case (Suc n)
  have "uint (ucast w :: u8) = take_bit 8 (uint w)" by (simp add: unsigned_ucast_eq)
  moreover have "uint (drop_bit 8 w) = drop_bit 8 (uint w)"
    by (simp only: uint_drop_bit) (simp add: drop_bit_eq_div)
  ultimately have "le_int (le_bytes (Suc n) w)
      = take_bit 8 (uint w) + 256 * take_bit (8 * n) (drop_bit 8 (uint w))"
    using Suc.IH [of "drop_bit 8 w"] by simp
  also have "256 * take_bit (8 * n) (drop_bit 8 (uint w)) = push_bit 8 (take_bit (8 * n) (drop_bit 8 (uint w)))"
    by (simp add: push_bit_eq_mult)
  also have "take_bit 8 (uint w) + push_bit 8 (take_bit (8 * n) (drop_bit 8 (uint w)))
      = take_bit 8 (uint w) OR push_bit 8 (take_bit (8 * n) (drop_bit 8 (uint w)))"
    by (rule disjunctive_add) (auto simp: bit_simps)
  also have "\<dots> = take_bit (8 * Suc n) (uint w)"
    by (rule bit_eqI) (auto simp: bit_simps)
  finally show ?case .
qed simp

section \<open>The instruction set\<close>

text \<open>Widths in bytes; a load also extends with the sign or with zeros.\<close>

definition isa_load :: "(inst_type_t \<times> nat \<times> bool) list" where
  "isa_load = [(inst_lb, 1, True), (inst_lh, 2, True), (inst_lw, 4, True), (inst_ld, 8, True),
     (inst_lbu, 1, False), (inst_lhu, 2, False), (inst_lwu, 4, False)]"

definition isa_store :: "(inst_type_t \<times> nat) list" where
  "isa_store = [(inst_sb, 1), (inst_sh, 2), (inst_sw, 4), (inst_sd, 8)]"

definition widen :: "nat \<Rightarrow> bool \<Rightarrow> int \<Rightarrow> u64" where
  "widen n sg z = word_of_int (if sg then signed_take_bit (8 * n - 1) z else take_bit (8 * n) z)"

definition mem_addr :: "cpu_t \<Rightarrow> inst_t \<Rightarrow> u64" where
  "mem_addr s i = TO_HOST (gp_regs s (unat (rs1 i)) + scast (imm i))"

section \<open>The handlers\<close>

definition load_handler_ok :: "nat \<times> bool \<Rightarrow> func_t \<Rightarrow> bool" where
  "load_handler_ok = (\<lambda>(n, sg) h. \<forall>s i. regs_ok i \<longrightarrow> (\<exists>l.
     h s i = bindE (load_bytes n (mem s) (mem_addr s i)) (\<lambda>bs.
       Inr (s\<lparr>gp_regs := (gp_regs s)(unat (rd i) := widen n sg (le_int bs)),
              stderr_log := stderr_log s @ l\<rparr>, i))))"

lemma load_handlerI:
  assumes "\<And>bs. length bs = n \<Longrightarrow> ty bs = widen n sg (le_int bs)"
  shows "load_handler_ok (n, sg) (FUNC_load n ty)"
  unfolding load_handler_ok_def prod.case
proof (intro allI impI)
  fix s i assume regs: "regs_ok i"
  show "\<exists>l. FUNC_load n ty s i = bindE (load_bytes n (mem s) (mem_addr s i)) (\<lambda>bs.
       Inr (s\<lparr>gp_regs := (gp_regs s)(unat (rd i) := widen n sg (le_int bs)),
              stderr_log := stderr_log s @ l\<rparr>, i))"
  proof (cases "load_bytes n (mem s) (mem_addr s i)")
    case (Inl e)
    with regs show ?thesis by (simp add: FUNC_load_def mem_addr_def Let_def)
  next
    case (Inr bs)
    then have "ty bs = widen n sg (le_int bs)" by (intro assms length_load_bytes)
    with regs Inr show ?thesis
      by (intro exI [of _ "if rd i = 1 \<and> ty bs = 0 then
            [Dbg_ra_loaded_0 (gp_regs s (unat (rs1 i)) + scast (imm i)) (pc s)] else []"])
        (simp add: FUNC_load_def mem_addr_def Let_def eprint_def)
  qed
qed

lemma word_of_signed63: "(word_of_int (signed_take_bit 63 z) :: u64) = word_of_int z"
  by (rule word_eq_of_sint [symmetric]) (simp add: sint_sbintrunc')

lemma extend_ints:
  "scast (le_word bs :: 8 word) = widen 1 True (le_int bs)"
  "scast (le_word bs :: 16 word) = widen 2 True (le_int bs)"
  "scast (le_word bs :: 32 word) = widen 4 True (le_int bs)"
  "le_word bs = widen 8 True (le_int bs)"
  "ucast (le_word bs :: 8 word) = widen 1 False (le_int bs)"
  "ucast (le_word bs :: 16 word) = widen 2 False (le_int bs)"
  "ucast (le_word bs :: 32 word) = widen 4 False (le_int bs)"
  unfolding widen_def le_word_int scast_word_of_int ucast_word_of_int
  by (simp_all add: sint_sbintrunc' uint_word_of_int_eq word_of_signed63)

lemma isa_load_handlers:
  "list_all2 (\<lambda>(t, f) h. (t, h) \<in> set handler_of \<and> load_handler_ok f h) isa_load
    [func_lb, func_lh, func_lw, func_ld, func_lbu, func_lhu, func_lwu]"
  unfolding isa_load_def list_all2_Cons list_all2_Nil prod.case
  by (intro conjI refl; (simp add: handler_of_def; fail | simp only: func_defs; rule load_handlerI;
      simp only: extend_ints))

lemma dispatch_isa_load:
  assumes "(itype i, n, sg) \<in> set isa_load" "regs_ok i"
  shows "\<exists>l. dispatch s i = bindE (load_bytes n (mem s) (mem_addr s i)) (\<lambda>bs.
       Inr (s\<lparr>gp_regs := (gp_regs s)(unat (rd i) := widen n sg (le_int bs)),
              stderr_log := stderr_log s @ l\<rparr>, i))"
proof -
  obtain h where h: "(itype i, h) \<in> set handler_of" "load_handler_ok (n, sg) h"
    by (rule handlers_lookup [OF isa_load_handlers assms(1)])
  show ?thesis
    unfolding dispatch_handler [OF h(1)]
    by (rule h(2) [unfolded load_handler_ok_def prod.case, rule_format, OF assms(2)])
qed

definition store_handler_ok :: "nat \<Rightarrow> func_t \<Rightarrow> bool" where
  "store_handler_ok n h \<longleftrightarrow> (\<forall>s i. regs_ok i \<longrightarrow> (\<exists>l.
     h s i = bindE (store_bytes (le_bytes n (gp_regs s (unat (rs2 i)))) (mem s) (mem_addr s i)) (\<lambda>m.
       Inr (s\<lparr>mem := m, stderr_log := stderr_log s @ l\<rparr>, i))))"

lemma log_same_mem [simp]: "s\<lparr>mem := m, stderr_log := stderr_log s\<rparr> = (s :: cpu_t)\<lparr>mem := m\<rparr>"
  by (cases s) simp

lemma store_handler: "store_handler_ok n (FUNC_store n)"
  unfolding store_handler_ok_def
proof (intro allI impI)
  fix s :: cpu_t and i assume regs: "regs_ok i"
  let ?a = "gp_regs s (unat (rs1 i)) + scast (imm i)"
  from regs show "\<exists>l. FUNC_store n s i
    = bindE (store_bytes (le_bytes n (gp_regs s (unat (rs2 i)))) (mem s) (mem_addr s i)) (\<lambda>m.
       Inr (s\<lparr>mem := m, stderr_log := stderr_log s @ l\<rparr>, i))"
    by (intro exI [of _ "if ?a = 0x201bc30 then [Dbg_store ?a (gp_regs s (unat (rs2 i))) (pc s)] else []"])
      (simp add: FUNC_store_def mem_addr_def Let_def eprint_def)
qed

lemma isa_store_handlers:
  "list_all2 (\<lambda>(t, f) h. (t, h) \<in> set handler_of \<and> store_handler_ok f h) isa_store
    [func_sb, func_sh, func_sw, func_sd]"
  unfolding isa_store_def list_all2_Cons list_all2_Nil prod.case
  by (intro conjI refl; (simp add: handler_of_def; fail | simp only: func_defs; rule store_handler))

lemma dispatch_isa_store:
  assumes "(itype i, n) \<in> set isa_store" "regs_ok i"
  shows "\<exists>l. dispatch s i
    = bindE (store_bytes (le_bytes n (gp_regs s (unat (rs2 i)))) (mem s) (mem_addr s i)) (\<lambda>m.
       Inr (s\<lparr>mem := m, stderr_log := stderr_log s @ l\<rparr>, i))"
proof -
  obtain h where h: "(itype i, h) \<in> set handler_of" "store_handler_ok n h"
    by (rule handlers_lookup [OF isa_store_handlers assms(1)])
  show ?thesis
    unfolding dispatch_handler [OF h(1)]
    by (rule h(2) [unfolded store_handler_ok_def, rule_format, OF assms(2)])
qed

lemma dispatch_store_ok:
  assumes "(itype i, n) \<in> set isa_store" "regs_ok i" "dispatch s i = Inr (s1, i1)"
  obtains m l where
    "store_bytes (le_bytes n (gp_regs s (unat (rs2 i)))) (mem s) (mem_addr s i) = Inr m"
    "s1 = s\<lparr>mem := m, stderr_log := stderr_log s @ l\<rparr>"
proof -
  let ?st = "store_bytes (le_bytes n (gp_regs s (unat (rs2 i)))) (mem s) (mem_addr s i)"
  from dispatch_isa_store [OF assms(1,2), of s] obtain l where
    "dispatch s i = bindE ?st (\<lambda>m. Inr (s\<lparr>mem := m, stderr_log := stderr_log s @ l\<rparr>, i))" ..
  with assms(3) have "bindE ?st (\<lambda>m. Inr (s\<lparr>mem := m, stderr_log := stderr_log s @ l\<rparr>, i)) = Inr (s1, i1)"
    by simp
  then obtain m where "?st = Inr m" "s1 = s\<lparr>mem := m, stderr_log := stderr_log s @ l\<rparr>"
    by (auto elim!: bindE_InrE)
  then show thesis by (rule that)
qed

section \<open>A load after a store\<close>

lemma extend_le_bytes:
  assumes "0 < n"
  shows "widen n sg (le_int (le_bytes n (w :: u64))) = widen n sg (uint w)"
proof -
  have "8 * n - 1 < 8 * n" using assms by simp
  then show ?thesis by (simp add: widen_def le_int_le_bytes signed_take_bit_take_bit not_le)
qed

lemma isa_widths: "(t, n) \<in> set isa_store \<Longrightarrow> 0 < n \<and> n \<le> 8"
  by (auto simp: isa_store_def)

lemma store_then_load:
  assumes "(itype i, n) \<in> set isa_store" "regs_ok i" "(itype j, n, sg) \<in> set isa_load" "regs_ok j"
    and "mem_addr s j = mem_addr s i"
    and "\<forall>x. in_region (mem_addr s i) n x \<longrightarrow> readable (mem s) x"
    and "dispatch s i = Inr (s1, i1)"
  shows "\<exists>l. dispatch s1 j = Inr (s1\<lparr>gp_regs := (gp_regs s1)
      (unat (rd j) := widen n sg (uint (gp_regs s (unat (rs2 i))))), stderr_log := stderr_log s1 @ l\<rparr>, j)"
proof -
  let ?v = "gp_regs s (unat (rs2 i))"
  obtain m l where m: "store_bytes (le_bytes n ?v) (mem s) (mem_addr s i) = Inr m"
    and s1: "s1 = s\<lparr>mem := m, stderr_log := stderr_log s @ l\<rparr>"
    by (rule dispatch_store_ok [OF assms(1,2,7)])
  have n: "0 < n" "n \<le> 8" using isa_widths [OF assms(1)] by simp_all
  have "load_bytes (length (le_bytes n ?v)) m (mem_addr s i) = Inr (le_bytes n ?v)"
    using assms(6) n(2) by (intro load_after_store [OF m]) simp_all
  moreover have "mem s1 = m" "mem_addr s1 j = mem_addr s i"
    using s1 assms(5) by (simp_all add: mem_addr_def)
  ultimately have ld: "load_bytes n (mem s1) (mem_addr s1 j) = Inr (le_bytes n ?v)" by simp
  from dispatch_isa_load [OF assms(3,4), of s1] ld extend_le_bytes [OF n(1)] show ?thesis by simp
qed

lemma store_frame:
  assumes "(itype i, n) \<in> set isa_store" "regs_ok i" "dispatch s i = Inr (s1, i1)"
  shows "gp_regs s1 = gp_regs s \<and> fp_regs s1 = fp_regs s \<and>
    (\<forall>x. \<not> in_region (mem_addr s i) n x \<longrightarrow> mem s1 x = mem s x)"
proof -
  obtain m l where
    m: "store_bytes (le_bytes n (gp_regs s (unat (rs2 i)))) (mem s) (mem_addr s i) = Inr m"
    and s1: "s1 = s\<lparr>mem := m, stderr_log := stderr_log s @ l\<rparr>"
    by (rule dispatch_store_ok [OF assms])
  from store_bytes_outside [OF m] s1 show ?thesis by simp
qed

end
