(* ===== verification/Float_Round.thy ===== *)
theory Float_Round
  imports Host_Float Complex_Main
begin

text \<open>
  Rounding. What IEEE 754 asks of an operation is stated over the real numbers: the result is a
  number of the format nearest to the exact one, with an even significand where two are equally
  near. The locale \<open>format\<close> proves it of the arithmetic of \<open>Host_Float\<close> for every format; it is
  interpreted at the two formats of the emulator.
\<close>

section \<open>Values\<close>

text \<open>
  The value of a bit pattern. Infinity has the value the next exponent would give, which is how
  rounding treats it: what is nearer to it than to the largest finite number overflows.
\<close>

definition f_val :: "nat \<Rightarrow> nat \<Rightarrow> nat \<Rightarrow> real" where
  "f_val eb fb x = real_of_int (f_int eb fb x) / real (f_one eb fb)"

definition f_finite :: "nat \<Rightarrow> nat \<Rightarrow> nat \<Rightarrow> bool" where
  "f_finite eb fb x \<longleftrightarrow> f_mag eb fb x < f_inf eb fb"

text \<open>\<open>v\<close> is \<open>r\<close> rounded to nearest, ties to even, with the sign \<open>s\<close>.\<close>

definition nearest_even :: "nat \<Rightarrow> nat \<Rightarrow> real \<Rightarrow> nat \<Rightarrow> bool" where
  "nearest_even eb fb r v \<longleftrightarrow> \<not> f_is_nan eb fb v \<and> (\<forall>w. \<not> f_is_nan eb fb w \<longrightarrow>
     \<bar>f_val eb fb v - r\<bar> \<le> \<bar>f_val eb fb w - r\<bar> \<and>
     (\<bar>f_val eb fb v - r\<bar> = \<bar>f_val eb fb w - r\<bar> \<and> f_val eb fb w \<noteq> f_val eb fb v \<longrightarrow> even v))"

definition rounded :: "nat \<Rightarrow> nat \<Rightarrow> bool \<Rightarrow> real \<Rightarrow> nat \<Rightarrow> bool" where
  "rounded eb fb s r v \<longleftrightarrow>
     v < 2 ^ Suc (eb + fb) \<and> f_sign eb fb v = s \<and> nearest_even eb fb r v"

section \<open>Logarithms\<close>

lemma floor_log2_bounds: "0 < n \<Longrightarrow> 2 ^ floor_log2 n \<le> n \<and> n < 2 * 2 ^ floor_log2 n"
proof (induction n rule: floor_log2.induct)
  case (1 n)
  show ?case
  proof (cases "n < 2")
    case True
    with 1(2) show ?thesis by (simp add: floor_log2.simps [of n])
  next
    case False
    with 1(1) have "2 ^ floor_log2 (n div 2) \<le> n div 2" "n div 2 < 2 * 2 ^ floor_log2 (n div 2)" by simp_all
    then have "2 * 2 ^ floor_log2 (n div 2) \<le> n \<and> n < 4 * 2 ^ floor_log2 (n div 2)" by linarith
    with False show ?thesis by (simp add: floor_log2.simps [of n])
  qed
qed

lemma floor_log2_less: "n < 2 * 2 ^ floor_log2 n"
  using floor_log2_bounds [of n] by (cases "n = 0") (simp_all add: floor_log2.simps [of 0])

section \<open>The magnitudes in order\<close>

text \<open>\<open>f_units\<close> of a magnitude, without an upper end of the exponents.\<close>

definition mag_units :: "nat \<Rightarrow> nat \<Rightarrow> nat" where
  "mag_units fb m = (if m div 2 ^ fb = 0 then m else (2 ^ fb + m mod 2 ^ fb) * 2 ^ (m div 2 ^ fb - 1))"

lemma f_units_mag: "f_units eb fb x = mag_units fb (f_mag eb fb x)"
proof -
  have "f_frac fb x = f_mag eb fb x mod 2 ^ fb"
    by (simp add: f_frac_def f_mag_def power_add mod_mod_cancel)
  moreover have "f_mag eb fb x div 2 ^ fb = 0 \<Longrightarrow> f_mag eb fb x mod 2 ^ fb = f_mag eb fb x"
    by (simp add: mod_eq_self_iff_div_eq_0)
  ultimately show ?thesis by (simp add: f_units_def mag_units_def f_exp_def)
qed

text \<open>A significand \<open>t\<close> with \<open>k\<close> zeros behind it; one that carries into the next exponent included.\<close>

lemma mag_units_bits:
  assumes "t \<le> 2 * 2 ^ fb" "k = 0 \<or> 2 ^ fb \<le> t"
  shows "mag_units fb (k * 2 ^ fb + t) = t * 2 ^ k"
proof -
  consider "t < 2 ^ fb" | "2 ^ fb \<le> t" "t < 2 * 2 ^ fb" | "t = 2 * 2 ^ fb" using assms(1) by linarith
  then show ?thesis
  proof cases
    case 1
    with assms(2) show ?thesis by (auto simp: mag_units_def)
  next
    case 2
    then have t: "t div 2 ^ fb = 1" by (intro div_nat_eqI) simp_all
    then have "2 ^ fb + t mod 2 ^ fb = t" using div_mult_mod_eq [of t "2 ^ fb"] by simp
    with t show ?thesis by (simp add: mag_units_def)
  next
    case 3
    then show ?thesis by (simp add: mag_units_def)
  qed
qed

lemma mag_split:
  fixes m :: nat
  obtains k t :: nat where "m = k * 2 ^ fb + t" "t < 2 * 2 ^ fb" "k = 0 \<or> 2 ^ fb \<le> t"
proof -
  let ?e = "m div 2 ^ fb"
  have m: "m = ?e * 2 ^ fb + m mod 2 ^ fb" by (rule div_mult_mod_eq [symmetric])
  show thesis
  proof (cases "?e = 0")
    case True
    then have "m < 2 ^ fb" by (simp add: div_eq_0_iff)
    then show thesis by (intro that [of 0 m]) simp_all
  next
    case False
    then obtain e where e: "?e = Suc e" by (cases ?e) simp_all
    have "m = (?e - 1) * 2 ^ fb + (2 ^ fb + m mod 2 ^ fb)" by (subst m) (simp only: e, simp)
    with that [of "?e - 1" "2 ^ fb + m mod 2 ^ fb"] show thesis by simp
  qed
qed

lemma mag_units_strict: "strict_mono (mag_units fb)"
  unfolding strict_mono_Suc_iff
proof
  fix m
  obtain k t :: nat where m: "m = k * 2 ^ fb + t" "t < 2 * 2 ^ fb" "k = 0 \<or> 2 ^ fb \<le> t" by (rule mag_split)
  then show "mag_units fb m < mag_units fb (Suc m)"
    using mag_units_bits [of t fb k] mag_units_bits [of "Suc t" fb k] by auto
qed

lemma mag_units_less: "mag_units fb m < mag_units fb n \<longleftrightarrow> m < n"
  using mag_units_strict by (rule strict_mono_less)

lemma mag_units_eq: "mag_units fb m = mag_units fb n \<longleftrightarrow> m = n"
  using mag_units_strict by (rule strict_mono_eq)

lemma mag_units_le: "mag_units fb m \<le> mag_units fb n \<longleftrightarrow> m \<le> n"
  using mag_units_strict by (rule strict_mono_less_eq)

text \<open>Signed numbers are ordered alike when their magnitudes are.\<close>

lemma signed_order:
  fixes m n M N :: nat
  assumes "m < n \<longleftrightarrow> M < N" "n < m \<longleftrightarrow> N < M" "m = 0 \<longleftrightarrow> M = 0" "n = 0 \<longleftrightarrow> N = 0"
  shows "(if s then - int m else int m) < (if t then - int n else int n) \<longleftrightarrow>
      (if s then - 1 else 1) * real M < (if t then - 1 else 1) * real N"
    "(if s then - int m else int m) = (if t then - int n else int n) \<longleftrightarrow>
      (if s then - 1 else 1) * real M = (if t then - 1 else 1) * real N"
proof -
  have eq: "m = n \<longleftrightarrow> M = N" using assms(1,2) by (metis less_irrefl linorder_less_linear)
  have neg: "- int k < int l \<longleftrightarrow> \<not> (k = 0 \<and> l = 0)" "\<not> int k < - int l" "- int k = int l \<longleftrightarrow> k = 0 \<and> l = 0"
    "int k = - int l \<longleftrightarrow> k = 0 \<and> l = 0" for k l by linarith+
  have negr: "- real k < real l \<longleftrightarrow> \<not> (k = 0 \<and> l = 0)" "\<not> real k < - real l" "- real k = real l \<longleftrightarrow> k = 0 \<and> l = 0"
    "real k = - real l \<longleftrightarrow> k = 0 \<and> l = 0" for k l by linarith+
  show "(if s then - int m else int m) < (if t then - int n else int n) \<longleftrightarrow>
      (if s then - 1 else 1) * real M < (if t then - 1 else 1) * real N"
    by (cases s; cases t; simp only: if_True if_False mult_minus1 mult_1 neg_less_iff_less of_nat_less_iff neg negr assms)
  show "(if s then - int m else int m) = (if t then - int n else int n) \<longleftrightarrow>
      (if s then - 1 else 1) * real M = (if t then - 1 else 1) * real N"
    by (cases s; cases t; simp only: if_True if_False mult_minus1 mult_1 neg_equal_iff_equal of_nat_eq_iff neg negr assms eq)
qed

section \<open>The nearest magnitude\<close>

lemma nearest_mag:
  fixes x :: real
  assumes fb: "0 < fb"
    and t: "\<bar>real t - x / 2 ^ k\<bar> \<le> 1 / 2" "\<bar>real t - x / 2 ^ k\<bar> = 1 / 2 \<Longrightarrow> even t"
    and k: "k = 0 \<or> 2 ^ fb \<le> x / 2 ^ k" "x / 2 ^ k < 2 * 2 ^ fb"
    and m: "m = k * 2 ^ fb + t"
  shows "\<bar>real (mag_units fb m) - x\<bar> \<le> \<bar>real (mag_units fb m') - x\<bar> \<and>
    (\<bar>real (mag_units fb m) - x\<bar> = \<bar>real (mag_units fb m') - x\<bar> \<and> m' \<noteq> m \<longrightarrow> even m)"
proof -
  let ?U = "\<lambda>m. real (mag_units fb m)" and ?P = "2 ^ fb :: nat" and ?y = "x / 2 ^ k"
  have P: "real ?P = 2 ^ fb" "2 \<le> ?P" using fb self_le_power [of "2 :: nat" fb] by simp_all
  have ty: "real t \<le> ?y + 1 / 2" "?y \<le> real t + 1 / 2" using t(1) by linarith+
  have "real t < real (2 * ?P) + 1" using ty(1) k(2) by simp
  then have t_le: "t \<le> 2 * ?P" by linarith
  have t_ge: "k = 0 \<or> ?P \<le> t"
  proof (cases "k = 0")
    case False
    with k(1) ty(2) have "real ?P < real t + 1" by simp
    then show ?thesis by linarith
  qed simp
  have Um: "?U m = real t * 2 ^ k" using mag_units_bits [OF t_le t_ge] m by simp
  have x: "x = ?y * 2 ^ k" by simp
  have even_m: "even m \<longleftrightarrow> even t" using fb m by simp
  have "?U m - x = (real t - ?y) * 2 ^ k" unfolding Um by (simp add: left_diff_distrib)
  then have dist: "\<bar>?U m - x\<bar> = \<bar>real t - ?y\<bar> * 2 ^ k" by (simp add: abs_mult)
  have half: "\<bar>?U m - x\<bar> \<le> 2 ^ k / 2" unfolding dist using t(1) by simp
  have tie: "even m" if "\<bar>?U m - x\<bar> = 2 ^ k / 2"
    using that t(2) unfolding dist even_m by simp
  consider "m' = m" | "m' < m" | "m < m'" by linarith
  then show ?thesis
  proof cases
    case 2
    then have less: "?U m' < ?U m" by (simp add: mag_units_less)
    show ?thesis
    proof (cases "?U m \<le> x")
      case False
      then have yt: "?y < real t" unfolding Um by (simp add: field_simps)
      have t1: "0 < t" using 2 False x k(2) m yt t(1)
        by (cases "t = 0") (use t_ge P in \<open>auto simp: Um\<close>)
      have "k = 0 \<or> ?P \<le> t - 1"
      proof (cases "k = 0")
        case False
        with k(1) have "2 ^ fb \<le> ?y" by simp
        then have "2 ^ fb < real t" using yt by (rule le_less_trans)
        then have "real ?P < real t" by (simp only: P(1))
        then show ?thesis by linarith
      qed simp
      then have "mag_units fb (k * 2 ^ fb + (t - 1)) = (t - 1) * 2 ^ k"
        using t_le by (intro mag_units_bits) simp_all
      moreover have "mag_units fb m' \<le> mag_units fb (k * 2 ^ fb + (t - 1))"
        unfolding mag_units_le using 2 m t1 by simp
      ultimately have "mag_units fb m' \<le> (t - 1) * 2 ^ k" by simp
      then have "?U m' \<le> real ((t - 1) * 2 ^ k)" by (simp only: of_nat_le_iff)
      then have U: "?U m' \<le> (real t - 1) * 2 ^ k" using t1 by (simp add: of_nat_diff)
      have "(real t - ?y) * 2 ^ k \<le> 1 / 2 * 2 ^ k"
        using ty(1) by (intro mult_right_mono) simp_all
      then have "?U m - x \<le> 2 ^ k / 2" unfolding Um by (simp add: left_diff_distrib)
      with U False half tie show ?thesis unfolding Um by (simp add: algebra_simps abs_if)
    qed (use less in auto)
  next
    case 3
    then have less: "?U m < ?U m'" by (simp add: mag_units_less)
    show ?thesis
    proof (cases "x \<le> ?U m")
      case False
      have "(t + 1) * 2 ^ k \<le> mag_units fb (m + 1)"
      proof (cases "t = 2 * ?P")
        case True
        have "mag_units fb ((k + 1) * 2 ^ fb + (?P + 1)) = (?P + 1) * 2 ^ (k + 1)"
          using P(2) by (intro mag_units_bits) simp_all
        moreover have "(k + 1) * 2 ^ fb + (?P + 1) = m + 1" using True m by simp
        moreover have "(t + 1) * 2 ^ k \<le> (?P + 1) * 2 ^ (k + 1)" using True by simp
        ultimately show ?thesis by simp
      next
        case False
        with t_le t_ge m show ?thesis using mag_units_bits [of "t + 1" fb k] by auto
      qed
      moreover have "mag_units fb (m + 1) \<le> mag_units fb m'" unfolding mag_units_le using 3 by simp
      ultimately have "(t + 1) * 2 ^ k \<le> mag_units fb m'" by (rule order_trans)
      then have "real ((t + 1) * 2 ^ k) \<le> ?U m'" by (simp only: of_nat_le_iff)
      then have U: "(real t + 1) * 2 ^ k \<le> ?U m'" by (simp add: algebra_simps)
      with False half tie show ?thesis unfolding Um by (simp add: algebra_simps abs_if)
    qed (use less in auto)
  qed simp
qed

lemma round_div_real:
  assumes "0 < den"
  shows "\<bar>real (round_div num den) - real num / real den\<bar> \<le> 1 / 2"
    "\<bar>real (round_div num den) - real num / real den\<bar> = 1 / 2 \<Longrightarrow> even (round_div num den)"
proof -
  let ?t = "num div den" and ?r = "num mod den"
  have "real num = real ?t * real den + real ?r"
    by (metis div_mult_mod_eq of_nat_add of_nat_mult)
  then have q: "real num / real den = real ?t + real ?r / real den" using assms by (simp add: field_simps)
  have r: "?r < den" using assms by simp
  define f where "f = real ?r / real den"
  have "f \<le> 1 / 2 \<longleftrightarrow> real (2 * ?r) \<le> real den" "f = 1 / 2 \<longleftrightarrow> real (2 * ?r) = real den"
    using assms by (auto simp: f_def field_simps)
  then have two: "f \<le> 1 / 2 \<longleftrightarrow> 2 * ?r \<le> den" "f = 1 / 2 \<longleftrightarrow> 2 * ?r = den"
    by (simp_all only: of_nat_le_iff of_nat_eq_iff)
  have f: "f < 1" "0 \<le> f" using r assms by (simp_all add: f_def)
  have cases: "2 * ?r < den \<or> 2 * ?r = den \<or> den < 2 * ?r" by linarith
  show "\<bar>real (round_div num den) - real num / real den\<bar> \<le> 1 / 2"
    "\<bar>real (round_div num den) - real num / real den\<bar> = 1 / 2 \<Longrightarrow> even (round_div num den)"
    unfolding q round_div_def Let_def f_def [symmetric]
    using cases two f by (elim disjE; cases "odd ?t"; simp)+
qed

text \<open>The nearest magnitude of a format that ends at infinity.\<close>

definition mag_near :: "nat \<Rightarrow> nat \<Rightarrow> real \<Rightarrow> nat \<Rightarrow> bool" where
  "mag_near eb fb x m \<longleftrightarrow> m \<le> f_inf eb fb \<and> (\<forall>m' \<le> f_inf eb fb.
     \<bar>real (mag_units fb m) - x\<bar> \<le> \<bar>real (mag_units fb m') - x\<bar> \<and>
     (\<bar>real (mag_units fb m) - x\<bar> = \<bar>real (mag_units fb m') - x\<bar> \<and> m' \<noteq> m \<longrightarrow> even m))"

lemma mag_near_min:
  assumes "\<And>m'. \<bar>real (mag_units fb m) - x\<bar> \<le> \<bar>real (mag_units fb m') - x\<bar> \<and>
    (\<bar>real (mag_units fb m) - x\<bar> = \<bar>real (mag_units fb m') - x\<bar> \<and> m' \<noteq> m \<longrightarrow> even m)"
  shows "mag_near eb fb x (min m (f_inf eb fb))"
proof (cases "m \<le> f_inf eb fb")
  case True
  with assms show ?thesis by (auto simp only: mag_near_def min_def if_True)
next
  case False
  let ?U = "\<lambda>m. real (mag_units fb m)" and ?i = "f_inf eb fb"
  from False have "?U ?i < ?U m" by (simp add: mag_units_less)
  with assms [of ?i] have x: "?U ?i < x" by (auto simp: abs_if split: if_splits)
  have "\<bar>?U ?i - x\<bar> < \<bar>?U m' - x\<bar>" if "m' < ?i" for m'
  proof -
    have "?U m' < ?U ?i" using that by (simp add: mag_units_less)
    with x show ?thesis by simp
  qed
  then have "\<bar>?U ?i - x\<bar> < \<bar>?U m' - x\<bar> \<or> m' = ?i" if "m' \<le> ?i" for m'
    using that by (cases "m' = ?i") simp_all
  with False show ?thesis by (fastforce simp: mag_near_def min_def)
qed

lemma f_round_near:
  assumes "0 < fb" "0 < den"
  shows "mag_near eb fb (real num / real den) (f_round eb fb num den)"
proof -
  let ?q = "num div den" and ?x = "real num / real den"
  define k where "k = floor_log2 ?q - fb"
  define t where "t = round_div num (den * 2 ^ k)"
  have x: "real num / real (den * 2 ^ k) = ?x / 2 ^ k" by simp
  have den: "0 < den * 2 ^ k" using assms(2) by simp
  have "num < (?q + 1) * den" using assms(2) dividend_less_div_times [of den num] by simp
  then have "real num < real ((?q + 1) * den)" by (simp only: of_nat_less_iff)
  then have up: "?x < real (?q + 1)" using assms(2) by (simp add: field_simps)
  have "?q + 1 \<le> 2 * 2 ^ floor_log2 ?q" using floor_log2_less [of ?q] by simp
  also have "\<dots> \<le> 2 * 2 ^ (fb + k)" unfolding k_def by (intro mult_left_mono power_increasing) simp_all
  finally have "real (?q + 1) \<le> real (2 * 2 ^ (fb + k))" by (simp only: of_nat_le_iff)
  with up have "?x < 2 * 2 ^ fb * 2 ^ k" by (simp add: power_add)
  then have hi: "?x / 2 ^ k < 2 * 2 ^ fb" by (simp only: pos_divide_less_eq zero_less_power zero_less_numeral)
  have lo: "k = 0 \<or> 2 ^ fb \<le> ?x / 2 ^ k"
  proof (cases "k = 0")
    case False
    then have L: "floor_log2 ?q = fb + k" by (simp add: k_def)
    with False have "0 < ?q" by (intro Nat.gr0I) (simp add: floor_log2.simps [of 0])
    from floor_log2_bounds [OF this] L have "2 ^ (fb + k) \<le> ?q" by simp
    then have "2 ^ (fb + k) * den \<le> num" using assms(2) by (simp add: less_eq_div_iff_mult_less_eq)
    then have "real (2 ^ (fb + k) * den) \<le> real num" by (simp only: of_nat_le_iff)
    with assms(2) show ?thesis by (simp add: field_simps power_add)
  qed simp
  note near = nearest_mag [OF assms(1) _ _ lo hi refl, of t]
  have "f_round eb fb num den = min (k * 2 ^ fb + t) (f_inf eb fb)"
    by (simp add: f_round_def k_def t_def Let_def)
  moreover have "mag_near eb fb ?x (min (k * 2 ^ fb + t) (f_inf eb fb))"
    by (rule mag_near_min, rule near) (use round_div_real [OF den, of num] in \<open>simp_all only: t_def x\<close>)
  ultimately show ?thesis by simp
qed

lemma signed_fields:
  assumes "m < 2 ^ (eb + fb)"
  shows "f_sign eb fb (f_signed eb fb s m) = s" "f_mag eb fb (f_signed eb fb s m) = m"
    "f_signed eb fb s m < 2 ^ Suc (eb + fb)"
proof -
  have "(2 ^ (eb + fb) + m) div 2 ^ (eb + fb) = 1" using assms by (intro div_nat_eqI) simp_all
  then show "f_sign eb fb (f_signed eb fb s m) = s" using assms by (simp add: f_sign_def f_signed_def)
qed (use assms in \<open>simp_all add: f_mag_def f_signed_def\<close>)

lemma f_signed_of: "x < 2 ^ Suc (eb + fb) \<Longrightarrow> f_signed eb fb (f_sign eb fb x) (f_mag eb fb x) = x"
proof -
  assume "x < 2 ^ Suc (eb + fb)"
  then have "x div 2 ^ (eb + fb) < 2" by (simp add: less_mult_imp_div_less)
  then have "x div 2 ^ (eb + fb) = (if f_sign eb fb x then 1 else 0)" by (auto simp: f_sign_def odd_iff_mod_2_eq_one)
  moreover have "x = x div 2 ^ (eb + fb) * 2 ^ (eb + fb) + f_mag eb fb x"
    unfolding f_mag_def by (rule div_mult_mod_eq [symmetric])
  ultimately show ?thesis by (simp add: f_signed_def split: if_splits)
qed

lemma floor_sqrt_bounds: "floor_sqrt n * floor_sqrt n \<le> n \<and> n < (floor_sqrt n + 1) * (floor_sqrt n + 1)"
proof (induction n rule: floor_sqrt.induct)
  case (1 n)
  show ?case
  proof (cases "n = 0")
    case False
    let ?r = "floor_sqrt (n div 4)"
    from False 1 have "?r * ?r \<le> n div 4" "n div 4 < (?r + 1) * (?r + 1)" by simp_all
    then have "4 * (?r * ?r) \<le> n" "n < 4 * ((?r + 1) * (?r + 1))" by linarith+
    with False show ?thesis by (simp add: floor_sqrt.simps [of n] Let_def algebra_simps)
  qed (simp add: floor_sqrt.simps [of 0])
qed

text \<open>
  The root of \<open>n\<close> and the half-integer that stands for it lie on the same side of every integer,
  and so on the same side of the middle between two neighbouring significands.
\<close>

lemma sticky:
  fixes n b :: nat
  defines "r \<equiv> floor_sqrt n"
  defines "x \<equiv> real (2 * r + (if r * r = n then 0 else 1)) / 2"
  shows "x \<le> real b \<longleftrightarrow> sqrt (real n) \<le> real b" "real b \<le> x \<longleftrightarrow> real b \<le> sqrt (real n)"
proof -
  have r: "r * r \<le> n" "n < (r + 1) * (r + 1)" using floor_sqrt_bounds [of n] by (simp_all add: r_def)
  have sq: "k * k \<le> l * l \<longleftrightarrow> k \<le> l" "k * k < l * l \<longleftrightarrow> k < l" for k l :: nat
    by (simp_all add: power2_nat_le_eq_le flip: power2_eq_square not_le)
  have "real b = sqrt (real (b * b))" by simp
  then have root: "sqrt (real n) \<le> real b \<longleftrightarrow> n \<le> b * b" "real b \<le> sqrt (real n) \<longleftrightarrow> b * b \<le> n"
    by (simp_all only: real_sqrt_le_iff of_nat_le_iff)
  have x: "x \<le> real b \<longleftrightarrow> (if r * r = n then r \<le> b else r < b)" "real b \<le> x \<longleftrightarrow> b \<le> r"
    unfolding x_def by (auto simp: field_simps)
  show "x \<le> real b \<longleftrightarrow> sqrt (real n) \<le> real b"
  proof (cases "r * r = n")
    case True
    then show ?thesis using x root sq(1) [of r b] by simp
  next
    case False
    with r have "n \<le> b * b \<longleftrightarrow> r < b"
      using sq(1) [of "r + 1" b] sq(2) [of r b] by linarith
    with False x root show ?thesis by simp
  qed
  show "real b \<le> x \<longleftrightarrow> real b \<le> sqrt (real n)"
    using r x(2) root(2) sq(1) [of b r] sq(2) [of b "r + 1"] by linarith
qed

lemma sqrt_near:
  assumes fb: "0 < fb" and n: "2 ^ (2 * fb + 2) \<le> n"
  defines "r \<equiv> floor_sqrt n"
  shows "mag_near eb fb (sqrt (real n)) (f_round eb fb (2 * r + (if r * r = n then 0 else 1)) 2)"
proof -
  define num where "num = 2 * r + (if r * r = n then 0 else 1)"
  let ?x = "real num / 2" and ?s = "sqrt (real n)"
  define k where "k = floor_log2 r - fb"
  define t where "t = round_div num (2 * 2 ^ k)"
  have num: "num div 2 = r" by (simp add: num_def)
  have side: "?x \<le> real b \<longleftrightarrow> ?s \<le> real b" "real b \<le> ?x \<longleftrightarrow> real b \<le> ?s" for b
    using sticky(1) [of n b] sticky(2) [where n = n and b = b] by (simp_all only: num_def r_def)
  have "2 ^ (2 * fb + 2) = (2 ^ (fb + 1)) * (2 ^ (fb + 1) :: nat)" by (simp only: power_add [symmetric]) simp
  then have "(2 ^ (fb + 1)) * (2 ^ (fb + 1)) \<le> n" using n by (simp only:)
  then have "(2 ^ (fb + 1)) * (2 ^ (fb + 1)) < (r + 1) * (r + 1)" using floor_sqrt_bounds [of n] by (simp add: r_def)
  then have r: "2 ^ (fb + 1) \<le> r" by (simp only: flip: power2_eq_square) (metis Suc_eq_plus1 less_Suc_eq_le power2_less_imp_less zero_le)
  then have r0: "0 < r" by (rule less_le_trans [rotated]) simp
  note L = floor_log2_bounds [OF r0]
  have "(2 :: nat) ^ (fb + 1) < 2 ^ Suc (floor_log2 r)" using r L unfolding power_Suc by linarith
  then have "fb + 1 < Suc (floor_log2 r)" by (rule power_less_imp_less_exp [rotated]) simp
  then have "fb < floor_log2 r" by simp
  then obtain j where "floor_log2 r = Suc (fb + j)" using less_imp_Suc_add by blast
  then have j: "k = Suc j" "floor_log2 r = fb + k" by (simp_all add: k_def)
  have two: "(2 :: real) ^ k = 2 * 2 ^ j" using j(1) by simp
  have near: "\<bar>real t - ?x / 2 ^ k\<bar> \<le> 1 / 2" "\<bar>real t - ?x / 2 ^ k\<bar> = 1 / 2 \<Longrightarrow> even t"
    using round_div_real [of "2 * 2 ^ k" num] by (simp_all add: t_def)
  have scaled: "z / 2 ^ k \<le> real c / 2 \<longleftrightarrow> z \<le> real (c * 2 ^ j)" "real c / 2 \<le> z / 2 ^ k \<longleftrightarrow> real (c * 2 ^ j) \<le> z"
    for z c by (simp_all add: two field_simps)
  have same: "?x / 2 ^ k \<le> real c / 2 \<longleftrightarrow> ?s / 2 ^ k \<le> real c / 2"
    "real c / 2 \<le> ?x / 2 ^ k \<longleftrightarrow> real c / 2 \<le> ?s / 2 ^ k" for c
    unfolding scaled side by simp_all
  have lo: "real (2 * 2 ^ fb) / 2 \<le> ?x / 2 ^ k"
  proof -
    have "2 * 2 ^ fb * 2 ^ j \<le> r" using L j by (simp add: power_add)
    then have "real (2 * 2 ^ fb * 2 ^ j) \<le> real r" by (simp only: of_nat_le_iff)
    then show ?thesis unfolding scaled num_def by simp
  qed
  have hi: "\<not> real (4 * 2 ^ fb) / 2 \<le> ?s / 2 ^ k"
  proof -
    have "r + 1 \<le> 4 * 2 ^ fb * 2 ^ j" using L j by (simp add: power_add)
    then have "2 * r + 1 < 2 * (4 * 2 ^ fb * 2 ^ j)" by linarith
    then have "num < 2 * (4 * 2 ^ fb * 2 ^ j)" by (simp add: num_def split: if_splits)
    then have "real num < real (2 * (4 * 2 ^ fb * 2 ^ j))" by (simp only: of_nat_less_iff)
    then have "\<not> real (4 * 2 ^ fb) / 2 \<le> ?x / 2 ^ k" unfolding scaled by simp
    then show ?thesis unfolding same .
  qed
  have t1: "1 \<le> t"
  proof (rule ccontr)
    assume "\<not> 1 \<le> t"
    then have "real t = 0" by simp
    with near(1) have "?x / 2 ^ k \<le> 1 / 2" by linarith
    with lo have "real (2 * 2 ^ fb) / 2 \<le> 1 / 2" by (rule order_trans)
    then have "real (2 * 2 ^ fb) \<le> real 1" by simp
    then have "2 * 2 ^ fb \<le> (1 :: nat)" by (simp only: of_nat_le_iff)
    moreover have "(0 :: nat) < 2 ^ fb" by simp
    ultimately show False by linarith
  qed
  have c: "real (2 * t + 1) / 2 = real t + 1 / 2" "real (2 * t - 1) / 2 = real t - 1 / 2"
    using t1 by (simp_all add: of_nat_diff diff_divide_distrib)
  have up: "?x / 2 ^ k \<le> real t + 1 / 2" "real t - 1 / 2 \<le> ?x / 2 ^ k" using near(1) by linarith+
  then have "?s / 2 ^ k \<le> real t + 1 / 2" "real t - 1 / 2 \<le> ?s / 2 ^ k" unfolding c [symmetric] same by simp_all
  then have near': "\<bar>real t - ?s / 2 ^ k\<bar> \<le> 1 / 2" by linarith
  have tie': "even t" if "\<bar>real t - ?s / 2 ^ k\<bar> = 1 / 2"
  proof -
    from that have "real t + 1 / 2 \<le> ?s / 2 ^ k \<or> ?s / 2 ^ k \<le> real t - 1 / 2" by linarith
    then have "real t + 1 / 2 \<le> ?x / 2 ^ k \<or> ?x / 2 ^ k \<le> real t - 1 / 2" unfolding c [symmetric] same .
    with up have "\<bar>real t - ?x / 2 ^ k\<bar> = 1 / 2" by linarith
    then show ?thesis by (rule near(2))
  qed
  have "f_round eb fb num 2 = min (k * 2 ^ fb + t) (f_inf eb fb)"
    unfolding f_round_def num Let_def k_def t_def ..
  moreover have "mag_near eb fb ?s (min (k * 2 ^ fb + t) (f_inf eb fb))"
  proof (rule mag_near_min, rule nearest_mag [OF fb near' tie' _ _ refl])
    show "k = 0 \<or> 2 ^ fb \<le> ?s / 2 ^ k" using lo unfolding same by simp
    show "?s / 2 ^ k < 2 * 2 ^ fb" using hi by simp
  qed
  ultimately show ?thesis by (simp add: num_def)
qed

section \<open>Formats\<close>

locale format =
  fixes eb fb :: nat
  assumes fraction_bits: "0 < fb" and range: "fb + 4 \<le> 2 ^ (eb - 1)"
begin

lemma inf_bound: "m \<le> f_inf eb fb \<Longrightarrow> m < 2 ^ (eb + fb)"
proof -
  have "f_inf eb fb < 2 ^ eb * 2 ^ fb" unfolding f_inf_def by simp
  then show "m \<le> f_inf eb fb \<Longrightarrow> ?thesis" by (simp add: power_add)
qed

lemma even_parts: "even (f_signed eb fb s m) = even m" "even (f_mag eb fb x) = even x"
proof -
  have e: "even (2 ^ (eb + fb) :: nat)" using fraction_bits by simp
  then show "even (f_signed eb fb s m) = even m" by (simp add: f_signed_def)
  from e have "(2 :: nat) dvd 2 ^ (eb + fb)" .
  then show "even (f_mag eb fb x) = even x" by (simp add: f_mag_def dvd_mod_iff)
qed

lemma one_pos: "0 < real (f_one eb fb)"
  by (simp add: f_one_def)

lemma nan_mag: "f_is_nan eb fb x \<longleftrightarrow> \<not> f_mag eb fb x \<le> f_inf eb fb"
  by (simp add: f_is_nan_def not_le)

lemma nan_signed: "m \<le> f_inf eb fb \<Longrightarrow> \<not> f_is_nan eb fb (f_signed eb fb s m)"
  using signed_fields [OF inf_bound] by (simp add: nan_mag)

lemma f_val_mag: "f_val eb fb x = (if f_sign eb fb x then - 1 else 1) * real (mag_units fb (f_mag eb fb x)) / real (f_one eb fb)"
  by (simp add: f_val_def f_int_def f_units_mag)

lemma abs_f_val: "\<bar>f_val eb fb x\<bar> = real (mag_units fb (f_mag eb fb x)) / real (f_one eb fb)"
  using one_pos by (simp add: f_val_mag abs_mult)

text \<open>Rounding the magnitude rounds the number.\<close>

lemma rounded_signed:
  assumes "mag_near eb fb (\<bar>r\<bar> * real (f_one eb fb)) m" "r = 0 \<or> s = (r < 0)"
  shows "rounded eb fb s r (f_signed eb fb s m)"
proof -
  let ?one = "real (f_one eb fb)" and ?v = "f_signed eb fb s m" and ?U = "\<lambda>m. real (mag_units fb m)"
  have m: "m \<le> f_inf eb fb" using assms(1) by (simp add: mag_near_def)
  note v = signed_fields [OF inf_bound [OF m]]
  have dist: "\<bar>f_val eb fb ?v - r\<bar> = \<bar>?U m - \<bar>r\<bar> * ?one\<bar> / ?one"
  proof -
    have "f_val eb fb ?v - r = (if r < 0 then - 1 else 1) * (?U m - \<bar>r\<bar> * ?one) / ?one \<or>
        f_val eb fb ?v - r = - (?U m - \<bar>r\<bar> * ?one) / ?one \<and> r = 0"
      using assms(2) one_pos by (auto simp: f_val_mag v field_simps)
    then show ?thesis using one_pos by (auto simp: abs_mult)
  qed
  have "\<bar>f_val eb fb ?v - r\<bar> \<le> \<bar>f_val eb fb w - r\<bar> \<and>
     (\<bar>f_val eb fb ?v - r\<bar> = \<bar>f_val eb fb w - r\<bar> \<and> f_val eb fb w \<noteq> f_val eb fb ?v \<longrightarrow> even ?v)"
    if "\<not> f_is_nan eb fb w" for w
  proof -
    let ?n = "f_mag eb fb w"
    have n: "?n \<le> f_inf eb fb" using that by (simp add: nan_mag)
    have far: "\<bar>?U ?n - \<bar>r\<bar> * ?one\<bar> / ?one \<le> \<bar>f_val eb fb w - r\<bar>"
    proof -
      have "\<bar>?U ?n - \<bar>r\<bar> * ?one\<bar> / ?one = \<bar>(?U ?n - \<bar>r\<bar> * ?one) / ?one\<bar>" using one_pos by simp
      also have "(?U ?n - \<bar>r\<bar> * ?one) / ?one = \<bar>f_val eb fb w\<bar> - \<bar>r\<bar>"
        using one_pos by (simp add: abs_f_val diff_divide_distrib)
      finally show ?thesis by (simp add: abs_triangle_ineq3)
    qed
    have near: "\<bar>?U m - \<bar>r\<bar> * ?one\<bar> \<le> \<bar>?U ?n - \<bar>r\<bar> * ?one\<bar>"
      and tie: "\<bar>?U m - \<bar>r\<bar> * ?one\<bar> = \<bar>?U ?n - \<bar>r\<bar> * ?one\<bar> \<Longrightarrow> ?n \<noteq> m \<Longrightarrow> even m"
      using assms(1) n by (auto simp: mag_near_def)
    then have le: "\<bar>f_val eb fb ?v - r\<bar> \<le> \<bar>?U ?n - \<bar>r\<bar> * ?one\<bar> / ?one"
      unfolding dist using one_pos by (simp add: divide_right_mono)
    have "even ?v" if eq: "\<bar>f_val eb fb ?v - r\<bar> = \<bar>f_val eb fb w - r\<bar>" and ne: "f_val eb fb w \<noteq> f_val eb fb ?v"
    proof (cases "?n = m")
      case False
      have "\<bar>?U m - \<bar>r\<bar> * ?one\<bar> / ?one = \<bar>?U ?n - \<bar>r\<bar> * ?one\<bar> / ?one"
        using eq far le dist by linarith
      with False tie one_pos show ?thesis by (simp add: even_parts)
    next
      case True
      then have w: "f_val eb fb w = - f_val eb fb ?v" using ne by (auto simp: f_val_mag v split: if_splits)
      with eq ne have "r = 0" by (auto simp: abs_if split: if_splits)
      with near [of ] assms(1) have "\<bar>?U m\<bar> \<le> \<bar>?U 0\<bar>" unfolding mag_near_def by force
      then have "m = 0" by (simp add: mag_units_eq [of fb m 0, symmetric] mag_units_def [of fb 0])
      then show ?thesis by (simp add: even_parts)
    qed
    with le far show ?thesis by (meson order_trans)
  qed
  with v nan_signed [OF m] show ?thesis by (simp add: rounded_def nearest_even_def)
qed

text \<open>A number is determined by its sign and its value, and so is the result of rounding.\<close>

lemma f_val_less:
  assumes "f_sign eb fb v = s" "f_sign eb fb w = s"
  shows "f_val eb fb v < f_val eb fb w \<longleftrightarrow>
    (if s then f_mag eb fb w < f_mag eb fb v else f_mag eb fb v < f_mag eb fb w)"
  using assms one_pos by (simp add: f_val_mag divide_less_cancel mag_units_less)

lemma f_val_eq:
  assumes "f_sign eb fb v = f_sign eb fb w"
  shows "f_val eb fb v = f_val eb fb w \<longleftrightarrow> f_mag eb fb v = f_mag eb fb w"
  using assms one_pos by (simp add: f_val_mag mag_units_eq)

lemma between:
  assumes "f_val eb fb v < f_val eb fb w" "f_sign eb fb v = s" "f_sign eb fb w = s" "even v" "even w"
    and "\<not> f_is_nan eb fb v" "\<not> f_is_nan eb fb w"
  obtains u where "f_val eb fb v < f_val eb fb u" "f_val eb fb u < f_val eb fb w" "\<not> f_is_nan eb fb u"
proof -
  define lo where "lo = min (f_mag eb fb v) (f_mag eb fb w)"
  define hi where "hi = max (f_mag eb fb v) (f_mag eb fb w)"
  let ?u = "f_signed eb fb s (Suc lo)"
  have ord: "if s then f_mag eb fb w = lo \<and> f_mag eb fb v = hi else f_mag eb fb v = lo \<and> f_mag eb fb w = hi"
    and less: "lo < hi"
    using assms(1) f_val_less [OF assms(2,3)] by (auto simp: lo_def hi_def min_def max_def split: if_splits)
  have "even lo" "even hi" using ord assms(4,5) even_parts(2) [of v] even_parts(2) [of w] by (auto split: if_splits)
  then have "Suc lo \<noteq> hi" by (metis even_Suc)
  with less have gap: "Suc lo < hi" by simp
  moreover have "hi \<le> f_inf eb fb" using assms(6,7) by (simp add: nan_mag hi_def)
  ultimately have le: "Suc lo \<le> f_inf eb fb" by linarith
  note u = signed_fields [OF inf_bound [OF le], of s]
  have "f_val eb fb v < f_val eb fb ?u" "f_val eb fb ?u < f_val eb fb w"
    using ord gap f_val_less [OF assms(2) u(1)] f_val_less [OF u(1) assms(3)] u(2) by (auto split: if_splits)
  then show thesis using that nan_signed [OF le] by blast
qed

lemma rounded_less:
  assumes "rounded eb fb s r v" "rounded eb fb s r w"
  shows "\<not> f_val eb fb v < f_val eb fb w"
proof
  assume less: "f_val eb fb v < f_val eb fb w"
  have eq: "\<bar>f_val eb fb v - r\<bar> = \<bar>f_val eb fb w - r\<bar>"
    using assms by (auto simp: rounded_def nearest_even_def intro: antisym)
  moreover from eq less have "even v" "even w"
    using assms unfolding rounded_def nearest_even_def by (metis less_irrefl)+
  ultimately obtain u where u: "f_val eb fb v < f_val eb fb u" "f_val eb fb u < f_val eb fb w" "\<not> f_is_nan eb fb u"
    using between [OF less] assms by (auto simp: rounded_def nearest_even_def)
  then have "\<bar>f_val eb fb u - r\<bar> < \<bar>f_val eb fb v - r\<bar>" using eq less by (auto simp: abs_if split: if_splits)
  with assms(1) u(3) show False by (auto simp: rounded_def nearest_even_def)
qed

lemma rounded_unique:
  assumes "rounded eb fb s r v" "rounded eb fb s r w"
  shows "v = w"
proof -
  have s: "f_sign eb fb v = s" "f_sign eb fb w = s" "v < 2 ^ Suc (eb + fb)" "w < 2 ^ Suc (eb + fb)"
    using assms by (simp_all add: rounded_def)
  have "f_val eb fb v = f_val eb fb w" using rounded_less [OF assms] rounded_less [OF assms(2,1)] by linarith
  then have "f_mag eb fb v = f_mag eb fb w" using f_val_eq [of v w] s by simp
  with f_signed_of [OF s(3)] f_signed_of [OF s(4)] s show ?thesis by simp
qed

section \<open>The operations\<close>

lemma near_int: "mag_near eb fb (real n) (f_round eb fb n 1)"
  using f_round_near [OF fraction_bits, where den = 1 and num = n] by simp

lemma near_zero: "mag_near eb fb 0 0"
  by (simp add: mag_near_def mag_units_def [of fb 0])

lemma finite_not_nan: "f_finite eb fb a \<Longrightarrow> \<not> f_is_nan eb fb a \<and> \<not> f_is_inf eb fb a"
  by (simp add: f_finite_def f_is_nan_def f_is_inf_def)

lemma int_val: "real_of_int (f_int eb fb a) = f_val eb fb a * real (f_one eb fb)"
  using one_pos by (simp add: f_val_def)

text \<open>Units of the smallest subnormal, rounded.\<close>

lemma f_of_int_rounded:
  assumes "real_of_int z = r * real (f_one eb fb)"
  shows "rounded eb fb (r < 0) r (f_of_int eb fb z)"
proof -
  have "\<bar>r\<bar> * real (f_one eb fb) = \<bar>r * real (f_one eb fb)\<bar>" by (simp add: abs_mult)
  then have "\<bar>r\<bar> * real (f_one eb fb) = real (nat \<bar>z\<bar>)" unfolding assms [symmetric] by simp
  moreover have "z < 0 \<longleftrightarrow> r < 0"
    using one_pos assms by (metis mult_less_0_iff not_less_iff_gr_or_eq of_int_less_0_iff)
  ultimately show ?thesis
    using rounded_signed [of r "f_round eb fb (nat \<bar>z\<bar>) 1" "r < 0"] near_int [of "nat \<bar>z\<bar>"]
    by (simp add: f_of_int_def)
qed

lemma f_add_rounded:
  assumes "f_finite eb fb a" "f_finite eb fb b"
  defines "r \<equiv> f_val eb fb a + f_val eb fb b"
  shows "rounded eb fb (if r = 0 then f_sign eb fb a \<and> f_sign eb fb b else r < 0) r (f_add eb fb a b)"
proof -
  let ?z = "f_int eb fb a + f_int eb fb b"
  have z: "real_of_int ?z = r * real (f_one eb fb)" by (simp add: r_def int_val algebra_simps)
  have r0: "r = 0 \<longleftrightarrow> ?z = 0" using z one_pos by (metis mult_eq_0_iff less_irrefl of_int_eq_0_iff)
  have "f_add eb fb a b = (if ?z = 0 then f_signed eb fb (f_sign eb fb a \<and> f_sign eb fb b) 0 else f_of_int eb fb ?z)"
    using finite_not_nan [OF assms(1)] finite_not_nan [OF assms(2)] by (simp add: f_add_def f_nan2_def Let_def)
  moreover have "rounded eb fb s 0 (f_signed eb fb s 0)" for s
    using near_zero by (intro rounded_signed) simp_all
  ultimately show ?thesis using f_of_int_rounded [OF z] r0 by auto
qed

lemma f_neg_simps:
  "f_mag eb fb (f_neg eb fb b) = f_mag eb fb b" "f_sign eb fb (f_neg eb fb b) = (\<not> f_sign eb fb b)"
proof -
  have "f_mag eb fb b < 2 ^ (eb + fb)" by (simp add: f_mag_def)
  note signed_fields [OF this, of "\<not> f_sign eb fb b"]
  then show "f_mag eb fb (f_neg eb fb b) = f_mag eb fb b" "f_sign eb fb (f_neg eb fb b) = (\<not> f_sign eb fb b)"
    by (simp_all add: f_neg_def)
qed

lemma f_neg_val: "f_val eb fb (f_neg eb fb b) = - f_val eb fb b"
  by (simp add: f_val_mag f_neg_simps)

lemma f_sub_rounded:
  assumes "f_finite eb fb a" "f_finite eb fb b"
  defines "r \<equiv> f_val eb fb a - f_val eb fb b"
  shows "rounded eb fb (if r = 0 then f_sign eb fb a \<and> \<not> f_sign eb fb b else r < 0) r (f_sub eb fb a b)"
proof -
  have "f_finite eb fb (f_neg eb fb b)" using assms(2) by (simp add: f_finite_def f_neg_simps)
  from f_add_rounded [OF assms(1) this] finite_not_nan [OF assms(1)] finite_not_nan [OF assms(2)] show ?thesis
    by (simp add: r_def f_sub_def f_nan2_def f_neg_val f_neg_simps cong: if_cong)
qed

lemma sign_val:
  "f_val eb fb a < 0 \<longleftrightarrow> f_sign eb fb a \<and> f_val eb fb a \<noteq> 0"
  "0 < f_val eb fb a \<longleftrightarrow> \<not> f_sign eb fb a \<and> f_val eb fb a \<noteq> 0"
  using one_pos by (auto simp: f_val_mag divide_less_0_iff zero_less_divide_iff)

lemma units_val: "real (f_units eb fb a) = \<bar>f_val eb fb a\<bar> * real (f_one eb fb)"
  using one_pos by (simp add: abs_f_val f_units_mag)

lemma f_mul_rounded:
  assumes "f_finite eb fb a" "f_finite eb fb b"
  defines "r \<equiv> f_val eb fb a * f_val eb fb b"
  shows "rounded eb fb (f_sign eb fb a \<noteq> f_sign eb fb b) r (f_mul eb fb a b)"
proof -
  have "real (f_units eb fb a * f_units eb fb b) / real (f_one eb fb) = \<bar>r\<bar> * real (f_one eb fb)"
    using one_pos by (simp add: units_val r_def abs_mult)
  moreover have "0 < f_one eb fb" using one_pos by simp
  ultimately have "mag_near eb fb (\<bar>r\<bar> * real (f_one eb fb))
      (f_round eb fb (f_units eb fb a * f_units eb fb b) (f_one eb fb))"
    using f_round_near [OF fraction_bits] by metis
  then have "rounded eb fb (f_sign eb fb a \<noteq> f_sign eb fb b) r (f_signed eb fb (f_sign eb fb a \<noteq> f_sign eb fb b)
      (f_round eb fb (f_units eb fb a * f_units eb fb b) (f_one eb fb)))"
    by (rule rounded_signed) (auto simp: r_def mult_less_0_iff sign_val)
  then show ?thesis
    using finite_not_nan [OF assms(1)] finite_not_nan [OF assms(2)] by (simp add: f_mul_def f_nan2_def Let_def)
qed

lemma f_div_rounded:
  assumes "f_finite eb fb a" "f_finite eb fb b" "f_val eb fb b \<noteq> 0"
  defines "r \<equiv> f_val eb fb a / f_val eb fb b"
  shows "rounded eb fb (f_sign eb fb a \<noteq> f_sign eb fb b) r (f_div eb fb a b)"
proof -
  have "real (f_units eb fb a * f_one eb fb) / real (f_units eb fb b) = \<bar>r\<bar> * real (f_one eb fb)"
    using one_pos by (simp add: units_val r_def)
  moreover have b: "0 < f_units eb fb b" using assms(3) one_pos units_val [of b] by (intro Nat.gr0I) simp
  ultimately have "mag_near eb fb (\<bar>r\<bar> * real (f_one eb fb))
      (f_round eb fb (f_units eb fb a * f_one eb fb) (f_units eb fb b))"
    using f_round_near [OF fraction_bits] by metis
  then have "rounded eb fb (f_sign eb fb a \<noteq> f_sign eb fb b) r (f_signed eb fb (f_sign eb fb a \<noteq> f_sign eb fb b)
      (f_round eb fb (f_units eb fb a * f_one eb fb) (f_units eb fb b)))"
    by (rule rounded_signed) (auto simp: r_def divide_less_0_iff sign_val)
  then show ?thesis
    using finite_not_nan [OF assms(1)] finite_not_nan [OF assms(2)] b by (simp add: f_div_def f_nan2_def Let_def)
qed

lemma int_to_f_rounded: "rounded eb fb (z < 0) (real_of_int z) (int_to_f eb fb z)"
  using f_of_int_rounded [of "z * int (f_one eb fb)" "real_of_int z"] by (simp add: int_to_f_def)

lemma f_sqrt_rounded:
  assumes "f_finite eb fb a" "f_sign eb fb a \<Longrightarrow> f_val eb fb a = 0" "a < 2 ^ Suc (eb + fb)"
  shows "rounded eb fb (f_sign eb fb a) (sqrt (f_val eb fb a)) (f_sqrt eb fb a)"
proof (cases "f_mag eb fb a = 0")
  case True
  then have "f_val eb fb a = 0" by (simp add: f_val_mag mag_units_def [of fb 0])
  moreover have "f_signed eb fb (f_sign eb fb a) 0 = a" using f_signed_of [OF assms(3)] True by simp
  moreover have "rounded eb fb (f_sign eb fb a) 0 (f_signed eb fb (f_sign eb fb a) 0)"
    using near_zero by (intro rounded_signed) simp_all
  ultimately show ?thesis using True finite_not_nan [OF assms(1)] by (simp add: f_sqrt_def)
next
  case False
  let ?n = "f_units eb fb a * f_one eb fb" and ?r = "sqrt (f_val eb fb a)"
  have nz: "f_units eb fb a \<noteq> 0"
    using False mag_units_eq [of fb "f_mag eb fb a" 0] by (simp add: f_units_mag mag_units_def [of fb 0])
  then have "f_val eb fb a \<noteq> 0" using one_pos by (auto simp: f_val_mag f_units_mag)
  with assms(2) have pos: "\<not> f_sign eb fb a" by blast
  have "f_units eb fb a \<noteq> 0" by (rule nz)
  then have "1 * f_one eb fb \<le> ?n" by (intro mult_le_mono) simp_all
  moreover have "(2 :: nat) ^ (2 * fb + 2) \<le> f_one eb fb"
    unfolding f_one_def using range by (intro power_increasing) simp_all
  ultimately have "2 ^ (2 * fb + 2) \<le> ?n" by (simp only: mult_1)
  note near = sqrt_near [OF fraction_bits this, of eb]
  have "0 \<le> f_val eb fb a" using sign_val [of a] pos by (cases "f_val eb fb a = 0") auto
  then have "real ?n = f_val eb fb a * (real (f_one eb fb) * real (f_one eb fb))" by (simp add: units_val)
  then have "sqrt (real ?n) = ?r * real (f_one eb fb)"
    by (simp only: real_sqrt_mult real_sqrt_mult_self abs_of_nat)
  moreover have "0 \<le> ?r" using \<open>0 \<le> f_val eb fb a\<close> by simp
  ultimately have "mag_near eb fb (\<bar>?r\<bar> * real (f_one eb fb)) (f_round eb fb
      (2 * floor_sqrt ?n + (if floor_sqrt ?n * floor_sqrt ?n = ?n then 0 else 1)) 2)"
    using near by simp
  then have "rounded eb fb False ?r (f_signed eb fb False (f_round eb fb
      (2 * floor_sqrt ?n + (if floor_sqrt ?n * floor_sqrt ?n = ?n then 0 else 1)) 2))"
    using \<open>0 \<le> ?r\<close> by (intro rounded_signed) simp_all
  then show ?thesis
    using finite_not_nan [OF assms(1)] pos False by (simp add: f_sqrt_def Let_def f_signed_def)
qed

section \<open>Comparison\<close>

lemma key_val:
  "f_key eb fb a < f_key eb fb b \<longleftrightarrow> f_val eb fb a < f_val eb fb b"
  "f_key eb fb a = f_key eb fb b \<longleftrightarrow> f_val eb fb a = f_val eb fb b"
proof -
  have zero: "f_mag eb fb x = 0 \<longleftrightarrow> mag_units fb (f_mag eb fb x) = 0" for x
    using mag_units_eq [of fb "f_mag eb fb x" 0] by (simp add: mag_units_def [of fb 0])
  note order = signed_order [OF mag_units_less [symmetric] mag_units_less [symmetric] zero zero]
  have val: "f_val eb fb x * real (f_one eb fb) =
      (if f_sign eb fb x then - 1 else 1) * real (mag_units fb (f_mag eb fb x))" for x
    using one_pos by (simp add: f_val_mag)
  have "f_val eb fb a < f_val eb fb b \<longleftrightarrow> f_val eb fb a * real (f_one eb fb) < f_val eb fb b * real (f_one eb fb)"
    "f_val eb fb a = f_val eb fb b \<longleftrightarrow> f_val eb fb a * real (f_one eb fb) = f_val eb fb b * real (f_one eb fb)"
    using one_pos by simp_all
  then show "f_key eb fb a < f_key eb fb b \<longleftrightarrow> f_val eb fb a < f_val eb fb b"
    "f_key eb fb a = f_key eb fb b \<longleftrightarrow> f_val eb fb a = f_val eb fb b"
    unfolding val f_key_def by (simp_all only: order)
qed

end

text \<open>Two formats and the conversion between them.\<close>

locale conversion = src: format eb fb + dst: format eb' fb' for eb fb eb' fb' :: nat
begin

lemma f_convert_rounded:
  assumes "f_finite eb fb a"
  shows "rounded eb' fb' (f_sign eb fb a) (f_val eb fb a) (f_convert eb fb eb' fb' a)"
proof -
  let ?r = "f_val eb fb a"
  have "real (f_units eb fb a * f_one eb' fb') / real (f_one eb fb) = \<bar>?r\<bar> * real (f_one eb' fb')"
    using src.one_pos by (simp add: src.units_val)
  moreover have "0 < f_one eb fb" using src.one_pos by simp
  ultimately have "mag_near eb' fb' (\<bar>?r\<bar> * real (f_one eb' fb'))
      (f_round eb' fb' (f_units eb fb a * f_one eb' fb') (f_one eb fb))"
    using f_round_near [OF dst.fraction_bits] by metis
  then have "rounded eb' fb' (f_sign eb fb a) ?r
      (f_signed eb' fb' (f_sign eb fb a) (f_round eb' fb' (f_units eb fb a * f_one eb' fb') (f_one eb fb)))"
    by (rule dst.rounded_signed) (auto simp: src.sign_val)
  with src.finite_not_nan [OF assms] show ?thesis by (simp add: f_convert_def)
qed

end

interpretation double: format 11 52 by unfold_locales simp_all

interpretation single: format 8 23 by unfold_locales simp_all

interpretation widen_f: conversion 8 23 11 52 ..

interpretation narrow: conversion 11 52 8 23 ..

end
