(* ===== verification/Float_Conv.thy ===== *)
theory Float_Conv
  imports Handlers Float_Round
begin

text \<open>
  Integers in the floating-point registers: an integer that fits the significand is converted
  exactly, and converted back to itself.
\<close>

section \<open>The format holds what fits its significand\<close>

lemma floor_log2_le: "0 < n \<Longrightarrow> n < 2 ^ Suc b \<Longrightarrow> floor_log2 n \<le> b"
  using floor_log2_bounds [of n] power_increasing [of "Suc b" "floor_log2 n" "2 :: nat"]
  by (meson less_Suc_eq_le leI le_less_trans not_le one_le_numeral order_trans)

lemma floor_log2_unique: "2 ^ b \<le> n \<Longrightarrow> n < 2 ^ Suc b \<Longrightarrow> floor_log2 n = b"
proof -
  assume n: "2 ^ b \<le> n" "n < 2 ^ Suc b"
  then have "0 < n" by (meson less_le_trans zero_less_numeral zero_less_power)
  note L = floor_log2_bounds [OF this]
  have "(2 :: nat) ^ floor_log2 n < 2 ^ Suc b" "(2 :: nat) ^ b < 2 ^ Suc (floor_log2 n)"
    using L n by simp_all
  then show ?thesis by (simp add: power_strict_increasing_iff del: power_Suc)
qed

text \<open>The value of a significand \<open>t\<close> with \<open>k\<close> more zeros behind it.\<close>

lemma units_of_bits:
  assumes "t < 2 ^ Suc fb" "k = 0 \<or> 2 ^ fb \<le> t" "k * 2 ^ fb + t < 2 ^ (eb + fb)"
  shows "f_units eb fb (f_signed eb fb s (k * 2 ^ fb + t)) = t * 2 ^ k"
proof -
  let ?m = "k * 2 ^ fb + t"
  have frac: "f_frac fb (f_signed eb fb s ?m) = t mod 2 ^ fb"
    by (simp add: f_frac_def f_signed_def power_add)
  have "f_mag eb fb (f_signed eb fb s ?m) = ?m" using assms(3) by (simp add: f_mag_def f_signed_def)
  then have exp: "f_exp eb fb (f_signed eb fb s ?m) = k + t div 2 ^ fb" by (simp add: f_exp_def)
  show ?thesis
  proof (cases "t < 2 ^ fb")
    case True
    with assms(2) have "k = 0" by auto
    with True frac exp show ?thesis by (simp add: f_units_def)
  next
    case False
    with assms(1) have t: "t div 2 ^ fb = 1" by (intro div_nat_eqI) simp_all
    then have "2 ^ fb + t mod 2 ^ fb = t" using div_mult_mod_eq [of t "2 ^ fb"] by simp
    with t frac exp show ?thesis by (simp add: f_units_def)
  qed
qed

lemma round_exact: "round_div (n * d) d = n" if "0 < d"
  using that by (simp add: round_div_def)

lemma f_round_exact:
  assumes "t < 2 ^ Suc fb" "k = 0 \<or> 2 ^ fb \<le> t" "k * 2 ^ fb + t \<le> f_inf eb fb"
  shows "f_round eb fb (t * 2 ^ k) 1 = k * 2 ^ fb + t"
proof -
  have "floor_log2 (t * 2 ^ k) - fb = k"
  proof (cases "k = 0")
    case True
    then show ?thesis
      using assms(1) floor_log2_le [of t fb] by (cases "t = 0") (simp_all add: floor_log2.simps [of 0])
  next
    case False
    with assms have "2 ^ (fb + k) \<le> t * 2 ^ k" "t * 2 ^ k < 2 ^ Suc (fb + k)" by (simp_all add: power_add)
    from floor_log2_unique [OF this] show ?thesis by simp
  qed
  with assms(3) show ?thesis by (simp add: f_round_def round_exact Let_def)
qed

text \<open>\<open>a\<close> shifted to the top of a significand, with the exponent that makes up for it.\<close>

lemma normalised:
  fixes a :: nat
  assumes "0 < a" "a < 2 ^ Suc fb" "fb \<le> b"
  obtains t k where "2 ^ fb \<le> t" "t < 2 ^ Suc fb" "k \<le> b" "a * 2 ^ b = t * 2 ^ k"
proof -
  let ?L = "floor_log2 a"
  have L: "2 ^ ?L \<le> a" "a < 2 * 2 ^ ?L" "?L \<le> fb"
    using floor_log2_bounds [OF assms(1)] floor_log2_le [OF assms(1,2)] by simp_all
  then have e: "(2 :: nat) ^ fb = 2 ^ ?L * 2 ^ (fb - ?L)" by (simp add: power_add [symmetric])
  have "(2 :: nat) ^ b = 2 ^ (fb - ?L) * 2 ^ (b - (fb - ?L))"
    using assms(3) by (simp add: power_add [symmetric])
  then show thesis using L by (intro that [of "a * 2 ^ (fb - ?L)" "b - (fb - ?L)"]) (simp_all add: e)
qed

section \<open>Doubles\<close>

lemma f_one_double: "f_one 11 52 = 2 ^ 1074"
  by (simp add: f_one_def)

lemma int_to_f64_units:
  assumes "\<bar>z\<bar> < 2 ^ 53"
  obtains m where "int_to_f 11 52 z = f_signed 11 52 (z < 0) m" "m < f_inf 11 52"
    "f_units 11 52 (f_signed 11 52 (z < 0) m) = nat \<bar>z\<bar> * 2 ^ 1074"
proof (cases "z = 0")
  case True
  show thesis
  proof (rule that [of 0])
    show "int_to_f 11 52 z = f_signed 11 52 (z < 0) 0"
      using True f_round_exact [of 0 52 0 11] by (simp add: int_to_f_def f_of_int_def)
  qed (use True units_of_bits [of 0 52 0 11 False] in \<open>simp_all add: f_inf_def\<close>)
next
  case False
  then have a: "0 < nat \<bar>z\<bar>" "nat \<bar>z\<bar> < 2 ^ Suc 52" using assms by simp_all
  obtain t k where t: "2 ^ 52 \<le> t" "t < 2 ^ Suc 52" "k \<le> 1074" "nat \<bar>z\<bar> * 2 ^ 1074 = t * 2 ^ k"
    by (rule normalised [OF a, of 1074]) simp
  have inf: "k * 2 ^ 52 + t < f_inf 11 52" using t(2,3) by (simp add: f_inf_def)
  have "nat \<bar>z * int (f_one 11 52)\<bar> = t * 2 ^ k"
    unfolding f_one_double abs_mult t(4) [symmetric] by (simp add: nat_mult_distrib)
  moreover have "z * int (f_one 11 52) < 0 \<longleftrightarrow> z < 0" by (simp add: f_one_double mult_less_0_iff)
  ultimately have "int_to_f 11 52 z = f_signed 11 52 (z < 0) (k * 2 ^ 52 + t)"
    using f_round_exact [of t 52 k 11] t inf by (simp add: int_to_f_def f_of_int_def)
  moreover have "f_units 11 52 (f_signed 11 52 (z < 0) (k * 2 ^ 52 + t)) = nat \<bar>z\<bar> * 2 ^ 1074"
    unfolding t(4) using t inf by (intro units_of_bits) (simp_all add: f_inf_def)
  ultimately show thesis using that inf by blast
qed

lemma llrint_int_to_f64:
  assumes "\<bar>z\<bar> < 2 ^ 53"
  shows "llrint (int_to_f64 z) = word_of_int z"
proof -
  obtain m where m: "int_to_f 11 52 z = f_signed 11 52 (z < 0) m" "m < f_inf 11 52"
    "f_units 11 52 (f_signed 11 52 (z < 0) m) = nat \<bar>z\<bar> * 2 ^ 1074"
    by (rule int_to_f64_units [OF assms])
  let ?x = "f_signed 11 52 (z < 0) m"
  have "m < 2 ^ 63" using m(2) by (simp add: f_inf_def)
  then have "?x < 2 ^ 64" "f_sign 11 52 ?x \<longleftrightarrow> z < 0" "f_mag 11 52 ?x = m"
    using signed_fields [of m 11 52] by simp_all
  moreover from this(1) have "unat (int_to_f64 z) = ?x"
    by (simp add: int_to_f64_def m(1) unsigned_of_nat take_bit_nat_eq_self)
  moreover have "round_div (nat \<bar>z\<bar> * 2 ^ 1074) (2 ^ 1074) = nat \<bar>z\<bar>" by (rule round_exact) simp
  moreover have "\<not> z < - (2 ^ 63)" "\<not> 2 ^ 63 \<le> z" using assms by simp_all
  ultimately show ?thesis
    using m(2,3) by (simp add: llrint_def f_llrint_def f_one_double Let_def)
qed

section \<open>The instructions\<close>

lemma dispatch_fcvt:
  assumes "regs_ok i"
  shows "itype i = inst_fcvt_d_l \<Longrightarrow> dispatch s i = Inr (s\<lparr>fp_regs := (fp_regs s)
      (unat (rd i) := int_to_f64 (sint (gp_regs s (unat (rs1 i)))))\<rparr>, i)"
    "itype i = inst_fcvt_l_d \<Longrightarrow> dispatch s i = Inr (s\<lparr>gp_regs := (gp_regs s)
      (unat (rd i) := llrint (fp_regs s (unat (rs1 i))))\<rparr>, i)"
    "itype i = inst_fcvt_d_w \<Longrightarrow> dispatch s i = Inr (s\<lparr>fp_regs := (fp_regs s)
      (unat (rd i) := int_to_f64 (sint (ucast (gp_regs s (unat (rs1 i))) :: i32)))\<rparr>, i)"
    "itype i = inst_fcvt_w_d \<Longrightarrow> dispatch s i = Inr (s\<lparr>gp_regs := (gp_regs s)
      (unat (rd i) := sext32 (llrint (fp_regs s (unat (rs1 i)))))\<rparr>, i)"
proof -
  have r: "unat (rd i) < 32" "unat (rs1 i) < 32" using assms by (simp_all add: regs_ok_def)
  have d: "itype i = t \<Longrightarrow> (t, f) \<in> set handler_of \<Longrightarrow> dispatch s i = f s i" for t f
    using dispatch_handler by blast
  have "(inst_fcvt_d_l, func_fcvt_d_l) \<in> set handler_of" "(inst_fcvt_l_d, func_fcvt_l_d) \<in> set handler_of"
    "(inst_fcvt_d_w, func_fcvt_d_w) \<in> set handler_of" "(inst_fcvt_w_d, func_fcvt_w_d) \<in> set handler_of"
    by (simp_all add: handler_of_def)
  note h = this [THEN d [rotated]]
  show "itype i = inst_fcvt_d_l \<Longrightarrow> dispatch s i = Inr (s\<lparr>fp_regs := (fp_regs s)
      (unat (rd i) := int_to_f64 (sint (gp_regs s (unat (rs1 i)))))\<rparr>, i)"
    "itype i = inst_fcvt_l_d \<Longrightarrow> dispatch s i = Inr (s\<lparr>gp_regs := (gp_regs s)
      (unat (rd i) := llrint (fp_regs s (unat (rs1 i))))\<rparr>, i)"
    "itype i = inst_fcvt_d_w \<Longrightarrow> dispatch s i = Inr (s\<lparr>fp_regs := (fp_regs s)
      (unat (rd i) := int_to_f64 (sint (ucast (gp_regs s (unat (rs1 i))) :: i32)))\<rparr>, i)"
    "itype i = inst_fcvt_w_d \<Longrightarrow> dispatch s i = Inr (s\<lparr>gp_regs := (gp_regs s)
      (unat (rd i) := sext32 (llrint (fp_regs s (unat (rs1 i)))))\<rparr>, i)"
    using h r by (simp_all add: func_defs x_to_d_def d_to_x_def put_fp64_def put_gp_def)
qed

lemma word_roundtrip: "sext32 (llrint (int_to_f64 (sint (w :: i32)))) = scast w"
proof -
  have "\<bar>sint w\<bar> < 2 ^ 53" using sint_ge [of w] sint_lt [of w] by simp
  moreover have "(ucast (scast w :: u64) :: i32) = w" by (rule bit_word_eqI) (auto simp: bit_simps)
  ultimately show ?thesis by (simp add: llrint_int_to_f64 sext32_def)
qed

text \<open>There and back again.\<close>

lemma fcvt_roundtrip:
  assumes "regs_ok i" "regs_ok j" "rs1 j = rd i"
  shows "itype i = inst_fcvt_d_w \<Longrightarrow> itype j = inst_fcvt_w_d \<Longrightarrow>
      \<exists>s'. dispatch s i = Inr (s', i) \<and> dispatch s' j = Inr (s'\<lparr>gp_regs := (gp_regs s)
        (unat (rd j) := scast (ucast (gp_regs s (unat (rs1 i))) :: i32))\<rparr>, j)"
    "itype i = inst_fcvt_d_l \<Longrightarrow> itype j = inst_fcvt_l_d \<Longrightarrow> \<bar>sint (gp_regs s (unat (rs1 i)))\<bar> < 2 ^ 53 \<Longrightarrow>
      \<exists>s'. dispatch s i = Inr (s', i) \<and> dispatch s' j = Inr (s'\<lparr>gp_regs := (gp_regs s)
        (unat (rd j) := gp_regs s (unat (rs1 i)))\<rparr>, j)"
  using assms by (simp_all add: dispatch_fcvt llrint_int_to_f64 word_roundtrip)

end
