(* ===== verification/Isa_Fp.thy ===== *)
theory Isa_Fp
  imports Isa_Mem Float_Conv
begin

text \<open>
  The floating-point instructions as the ISA manual defines them, on values and bit patterns, and
  that the handlers compute that. Where the emulator is known to differ (results that are NaNs,
  infinite operands, operands or destinations that are not NaN-boxed) an instruction has a domain.
\<close>

section \<open>Numbers in registers\<close>

definition d_val :: "u64 \<Rightarrow> real" where "d_val a = f_val 11 52 (unat a)"

definition d_nan :: "u64 \<Rightarrow> bool" where "d_nan a = f_is_nan 11 52 (unat a)"

definition d_finite :: "u64 \<Rightarrow> bool" where "d_finite a = f_finite 11 52 (unat a)"

definition d_sign :: "u64 \<Rightarrow> bool" where "d_sign a = f_sign 11 52 (unat a)"

definition d_rounded :: "bool \<Rightarrow> real \<Rightarrow> u64 \<Rightarrow> bool" where
  "d_rounded s r v = rounded 11 52 s r (unat v)"

definition s_val :: "u32 \<Rightarrow> real" where "s_val a = f_val 8 23 (unat a)"

definition s_nan :: "u32 \<Rightarrow> bool" where "s_nan a = f_is_nan 8 23 (unat a)"

definition s_finite :: "u32 \<Rightarrow> bool" where "s_finite a = f_finite 8 23 (unat a)"

definition s_sign :: "u32 \<Rightarrow> bool" where "s_sign a = f_sign 8 23 (unat a)"

definition s_rounded :: "bool \<Rightarrow> real \<Rightarrow> u32 \<Rightarrow> bool" where
  "s_rounded s r v = rounded 8 23 s r (unat v)"

text \<open>A single-precision number in a register: the upper half is all ones.\<close>

definition boxed :: "u64 \<Rightarrow> bool" where
  "boxed a \<longleftrightarrow> drop_bit 32 a = mask 32"

lemmas number_defs = d_val_def d_nan_def d_finite_def d_sign_def d_rounded_def
  s_val_def s_nan_def s_finite_def s_sign_def s_rounded_def

lemma sign_bits: "d_sign a = bit a 63" "s_sign b = bit b 31"
proof -
  have "bit (unat a) 63 = bit a 63" "bit (unat b) 31 = bit b 31" by (simp_all add: bit_unsigned_iff)
  then show "d_sign a = bit a 63" "s_sign b = bit b 31"
    by (simp_all add: number_defs f_sign_def bit_iff_odd [of "unat _"])
qed

lemma rounded_word:
  "rounded 11 52 s r n \<Longrightarrow> d_rounded s r (word_of_nat n)" "rounded 8 23 s r n \<Longrightarrow> s_rounded s r (word_of_nat n)"
  by (simp_all add: d_rounded_def s_rounded_def unsigned_of_nat take_bit_nat_eq_self rounded_def)

lemma d_rounded_unique: "d_rounded s r v \<Longrightarrow> d_rounded s r w \<Longrightarrow> v = w"
  unfolding d_rounded_def by (drule (1) double.rounded_unique) (simp add: word_unat_eq_iff)

lemma s_rounded_unique: "s_rounded s r v \<Longrightarrow> s_rounded s r w \<Longrightarrow> v = w"
  unfolding s_rounded_def by (drule (1) single.rounded_unique) (simp add: word_unat_eq_iff)

lemma unat_bounds: "unat (a :: u64) < 2 ^ Suc (11 + 52)" "unat (b :: u32) < 2 ^ Suc (8 + 23)"
  using unsigned_less [of a, where ?'a = nat] unsigned_less [of b, where ?'a = nat] by simp_all

section \<open>Arithmetic\<close>

text \<open>
  An operation of the ISA: the exact result, the sign of the rounded one, where it is defined
  (by the sign of the first operand and the values of both), and whether it has a second operand.
\<close>

type_synonym exact =
  "(real \<Rightarrow> real \<Rightarrow> real) \<times> (bool \<Rightarrow> bool \<Rightarrow> real \<Rightarrow> bool) \<times> (bool \<Rightarrow> real \<Rightarrow> real \<Rightarrow> bool) \<times> bool"

definition x_add :: exact where
  "x_add = (\<lambda>a b. a + b, \<lambda>s t r. if r = 0 then s \<and> t else r < 0, \<lambda>s a b. True, True)"

definition x_sub :: exact where
  "x_sub = (\<lambda>a b. a - b, \<lambda>s t r. if r = 0 then s \<and> \<not> t else r < 0, \<lambda>s a b. True, True)"

definition x_mul :: exact where
  "x_mul = (\<lambda>a b. a * b, \<lambda>s t r. s \<noteq> t, \<lambda>s a b. True, True)"

definition x_div :: exact where
  "x_div = (\<lambda>a b. a / b, \<lambda>s t r. s \<noteq> t, \<lambda>s a b. b \<noteq> 0, True)"

definition x_sqrt :: exact where
  "x_sqrt = (\<lambda>a b. sqrt a, \<lambda>s t r. s, \<lambda>s a b. s \<longrightarrow> a = 0, False)"

definition isa_fp_s :: "(inst_type_t \<times> exact) list" where
  "isa_fp_s = [(inst_fadd_s, x_add), (inst_fsub_s, x_sub), (inst_fmul_s, x_mul), (inst_fdiv_s, x_div),
     (inst_fsqrt_s, x_sqrt)]"

definition isa_fp_d :: "(inst_type_t \<times> exact) list" where
  "isa_fp_d = [(inst_fadd_d, x_add), (inst_fsub_d, x_sub), (inst_fmul_d, x_mul), (inst_fdiv_d, x_div),
     (inst_fsqrt_d, x_sqrt)]"

definition s_result :: "exact \<Rightarrow> u32 \<Rightarrow> u32 \<Rightarrow> u32 \<Rightarrow> bool" where
  "s_result = (\<lambda>(f, sg, dom, two) a b v. let r = f (s_val a) (s_val b) in s_rounded (sg (s_sign a) (s_sign b) r) r v)"

definition d_result :: "exact \<Rightarrow> u64 \<Rightarrow> u64 \<Rightarrow> u64 \<Rightarrow> bool" where
  "d_result = (\<lambda>(f, sg, dom, two) a b v. let r = f (d_val a) (d_val b) in d_rounded (sg (d_sign a) (d_sign b) r) r v)"

definition s_defined :: "exact \<Rightarrow> u32 \<Rightarrow> u32 \<Rightarrow> bool" where
  "s_defined = (\<lambda>(f, sg, dom, two) a b. s_finite a \<and> (two \<longrightarrow> s_finite b) \<and> dom (s_sign a) (s_val a) (s_val b))"

definition d_defined :: "exact \<Rightarrow> u64 \<Rightarrow> u64 \<Rightarrow> bool" where
  "d_defined = (\<lambda>(f, sg, dom, two) a b. d_finite a \<and> (two \<longrightarrow> d_finite b) \<and> dom (d_sign a) (d_val a) (d_val b))"

text \<open>The operation of a format against it.\<close>

definition op_ok :: "nat \<Rightarrow> nat \<Rightarrow> exact \<Rightarrow> (nat \<Rightarrow> nat \<Rightarrow> nat \<Rightarrow> nat \<Rightarrow> nat) \<Rightarrow> bool" where
  "op_ok eb fb = (\<lambda>(f, sg, dom, two) e. \<forall>a b.
     a < 2 ^ Suc (eb + fb) \<and> f_finite eb fb a \<and> (two \<longrightarrow> f_finite eb fb b) \<and>
       dom (f_sign eb fb a) (f_val eb fb a) (f_val eb fb b) \<longrightarrow>
     (let r = f (f_val eb fb a) (f_val eb fb b)
      in rounded eb fb (sg (f_sign eb fb a) (f_sign eb fb b) r) r (e eb fb a b)))"

definition sqrt2 :: "nat \<Rightarrow> nat \<Rightarrow> nat \<Rightarrow> nat \<Rightarrow> nat" where
  "sqrt2 eb fb a b = f_sqrt eb fb a"

context format begin

lemma ops_ok:
  "op_ok eb fb x_add f_add" "op_ok eb fb x_sub f_sub" "op_ok eb fb x_mul f_mul" "op_ok eb fb x_div f_div"
  "op_ok eb fb x_sqrt sqrt2"
  using f_add_rounded f_sub_rounded f_mul_rounded f_div_rounded f_sqrt_rounded
  by (simp_all add: op_ok_def x_add_def x_sub_def x_mul_def x_div_def x_sqrt_def sqrt2_def Let_def)

end

lemma op_ok_word:
  "op_ok 8 23 x f \<Longrightarrow> s_defined x a b \<Longrightarrow> s_result x a b (f32_op2 f a b)"
  "op_ok 11 52 x f \<Longrightarrow> d_defined x c d \<Longrightarrow> d_result x c d (f64_op2 f c d)"
  using unat_bounds(1) [of c] unat_bounds(2) [of a]
  by (auto simp: op_ok_def s_defined_def d_defined_def s_result_def d_result_def f32_op2_def f64_op2_def number_defs
      Let_def simp del: power_Suc simp flip: s_rounded_def d_rounded_def intro!: rounded_word split: prod.splits)

lemma result_unique:
  "s_result x a b v \<Longrightarrow> s_result x a b w \<Longrightarrow> v = w" "d_result x c d y \<Longrightarrow> d_result x c d z \<Longrightarrow> y = z"
  by (auto simp: s_result_def d_result_def Let_def split: prod.splits intro: s_rounded_unique d_rounded_unique)

definition s_handler_ok :: "exact \<Rightarrow> func_t \<Rightarrow> bool" where
  "s_handler_ok x h \<longleftrightarrow> (\<exists>f. h = FUNC_fp_s (f32_op2 f) \<and> op_ok 8 23 x f)"

definition d_handler_ok :: "exact \<Rightarrow> func_t \<Rightarrow> bool" where
  "d_handler_ok x h \<longleftrightarrow> (\<exists>f. h = FUNC_fp_d (f64_op2 f) \<and> op_ok 11 52 x f)"

lemma sqrt_ops: "(\<lambda>a b. sqrtf a) = f32_op2 sqrt2" "(\<lambda>a b. sqrt_d a) = f64_op2 sqrt2"
  by (simp_all add: sqrtf_def sqrt_d_def f32_op2_def f64_op2_def sqrt2_def fun_eq_iff)

lemma fp_handlersI:
  "op_ok 8 23 x f \<Longrightarrow> s_handler_ok x (FUNC_fp_s (f32_op2 f))" "op_ok 11 52 x f \<Longrightarrow> d_handler_ok x (FUNC_fp_d (f64_op2 f))"
  "s_handler_ok x_sqrt (FUNC_fp_s (\<lambda>a b. sqrtf a))" "d_handler_ok x_sqrt (FUNC_fp_d (\<lambda>a b. sqrt_d a))"
  using single.ops_ok(5) double.ops_ok(5) unfolding s_handler_ok_def d_handler_ok_def sqrt_ops by blast+

lemma isa_fp_handlers:
  "list_all2 (\<lambda>(t, x) h. (t, h) \<in> set handler_of \<and> s_handler_ok x h) isa_fp_s
    [func_fadd_s, func_fsub_s, func_fmul_s, func_fdiv_s, func_fsqrt_s]"
  "list_all2 (\<lambda>(t, x) h. (t, h) \<in> set handler_of \<and> d_handler_ok x h) isa_fp_d
    [func_fadd_d, func_fsub_d, func_fmul_d, func_fdiv_d, func_fsqrt_d]"
  unfolding isa_fp_s_def isa_fp_d_def list_all2_Cons list_all2_Nil prod.case
  by (intro conjI refl; (simp add: handler_of_def; fail | simp only: func_defs; rule fp_handlersI;
      rule single.ops_ok double.ops_ok | simp only: func_defs; rule fp_handlersI))+

lemma dispatch_fp_s:
  fixes s :: cpu_t
  assumes "(itype i, x) \<in> set isa_fp_s" "regs_ok i"
  defines "a \<equiv> fp_get_w (fp_regs s (unat (rs1 i)))" and "b \<equiv> fp_get_w (fp_regs s (unat (rs2 i)))"
  assumes "s_defined x a b"
  shows "\<exists>v. s_result x a b v \<and> dispatch s i = Inr (s\<lparr>fp_regs := (fp_regs s)
    (unat (rd i) := fp_set_w (fp_regs s (unat (rd i))) v)\<rparr>, i)"
proof -
  obtain h where h: "(itype i, h) \<in> set handler_of" "s_handler_ok x h"
    by (rule handlers_lookup [OF isa_fp_handlers(1) assms(1)])
  then obtain f where f: "h = FUNC_fp_s (f32_op2 f)" "op_ok 8 23 x f" by (auto simp: s_handler_ok_def)
  with h(1) assms(2) op_ok_word(1) [OF f(2) assms(5)] show ?thesis
    by (auto simp: dispatch_handler FUNC_fp_s_def a_def b_def)
qed

lemma dispatch_fp_d:
  fixes s :: cpu_t
  assumes "(itype i, x) \<in> set isa_fp_d" "regs_ok i"
  defines "a \<equiv> fp_regs s (unat (rs1 i))" and "b \<equiv> fp_regs s (unat (rs2 i))"
  assumes "d_defined x a b"
  shows "\<exists>v. d_result x a b v \<and> dispatch s i = Inr (s\<lparr>fp_regs := (fp_regs s)(unat (rd i) := v)\<rparr>, i)"
proof -
  obtain h where h: "(itype i, h) \<in> set handler_of" "d_handler_ok x h"
    by (rule handlers_lookup [OF isa_fp_handlers(2) assms(1)])
  then obtain f where f: "h = FUNC_fp_d (f64_op2 f)" "op_ok 11 52 x f" by (auto simp: d_handler_ok_def)
  with h(1) assms(2) op_ok_word(2) [OF f(2) assms(5)] show ?thesis
    by (auto simp: dispatch_handler FUNC_fp_d_def a_def b_def)
qed

section \<open>Instructions on the floating-point registers\<close>

text \<open>What an instruction makes of its operands: the tables are relations between operands and result.\<close>

definition with_sign :: "nat \<Rightarrow> bool \<Rightarrow> u64 \<Rightarrow> u64" where
  "with_sign n s a = (if s then set_bit n a else unset_bit n a)"

definition fp_spec :: "exact \<Rightarrow> u64 \<Rightarrow> u64 \<Rightarrow> u64 \<Rightarrow> bool" where
  "fp_spec x a b v \<longleftrightarrow> d_defined x a b \<and> d_result x a b v"

definition sgnj_d :: "(bool \<Rightarrow> bool \<Rightarrow> bool) \<Rightarrow> u64 \<Rightarrow> u64 \<Rightarrow> u64 \<Rightarrow> bool" where
  "sgnj_d f a b v \<longleftrightarrow> v = with_sign 63 (f (bit a 63) (bit b 63)) a"

definition sgnj_s :: "(bool \<Rightarrow> bool \<Rightarrow> bool) \<Rightarrow> u64 \<Rightarrow> u64 \<Rightarrow> u64 \<Rightarrow> bool" where
  "sgnj_s f a b v \<longleftrightarrow> boxed a \<and> boxed b \<and> v = with_sign 31 (f (bit a 31) (bit b 31)) a"

text \<open>The smaller of two numbers, where they are not both zeros (of which the ISA prefers one).\<close>

definition select_d :: "(real \<Rightarrow> real \<Rightarrow> bool) \<Rightarrow> u64 \<Rightarrow> u64 \<Rightarrow> u64 \<Rightarrow> bool" where
  "select_d first a b v \<longleftrightarrow> \<not> d_nan a \<and> \<not> d_nan b \<and> \<not> (d_val a = 0 \<and> d_val b = 0) \<and>
     v = (if first (d_val a) (d_val b) then a else b)"

definition widen_s :: "u64 \<Rightarrow> u64 \<Rightarrow> u64 \<Rightarrow> bool" where
  "widen_s a b v \<longleftrightarrow> boxed a \<and> s_finite (ucast a) \<and> d_rounded (s_sign (ucast a)) (s_val (ucast a)) v"

definition isa_ff :: "(inst_type_t \<times> (u64 \<Rightarrow> u64 \<Rightarrow> u64 \<Rightarrow> bool)) list" where
  "isa_ff = [
     (inst_fadd_d, fp_spec x_add), (inst_fsub_d, fp_spec x_sub), (inst_fmul_d, fp_spec x_mul),
     (inst_fdiv_d, fp_spec x_div), (inst_fsqrt_d, fp_spec x_sqrt),
     (inst_fsgnj_d, sgnj_d (\<lambda>s t. t)), (inst_fsgnjn_d, sgnj_d (\<lambda>s t. \<not> t)), (inst_fsgnjx_d, sgnj_d (\<noteq>)),
     (inst_fsgnj_s, sgnj_s (\<lambda>s t. t)), (inst_fsgnjn_s, sgnj_s (\<lambda>s t. \<not> t)), (inst_fsgnjx_s, sgnj_s (\<noteq>)),
     (inst_fmin_d, select_d (<)), (inst_fmax_d, select_d (>)), (inst_fcvt_d_s, widen_s)]"

definition truth :: "bool \<Rightarrow> u64" where
  "truth b = (if b then 1 else 0)"

definition cmp_d :: "(real \<Rightarrow> real \<Rightarrow> bool) \<Rightarrow> u64 \<Rightarrow> u64 \<Rightarrow> u64 \<Rightarrow> bool" where
  "cmp_d f a b v \<longleftrightarrow> v = truth (\<not> d_nan a \<and> \<not> d_nan b \<and> f (d_val a) (d_val b))"

definition cmp_s :: "(real \<Rightarrow> real \<Rightarrow> bool) \<Rightarrow> u64 \<Rightarrow> u64 \<Rightarrow> u64 \<Rightarrow> bool" where
  "cmp_s f a b v \<longleftrightarrow> boxed a \<and> boxed b \<and>
     v = truth (\<not> s_nan (ucast a) \<and> \<not> s_nan (ucast b) \<and> f (s_val (ucast a)) (s_val (ucast b)))"

definition isa_fx :: "(inst_type_t \<times> (u64 \<Rightarrow> u64 \<Rightarrow> u64 \<Rightarrow> bool)) list" where
  "isa_fx = [
     (inst_feq_d, cmp_d (=)), (inst_flt_d, cmp_d (<)), (inst_fle_d, cmp_d (\<le>)),
     (inst_feq_s, cmp_s (=)), (inst_flt_s, cmp_s (<)), (inst_fle_s, cmp_s (\<le>)),
     (inst_fclass_d, \<lambda>a b v. v = 2 ^ f64_class_bit a),
     (inst_fclass_s, \<lambda>a b v. boxed a \<and> v = 2 ^ f32_class_bit (ucast a)),
     (inst_fmv_x_d, \<lambda>a b v. v = a), (inst_fmv_x_w, \<lambda>a b v. v = scast (ucast a :: i32))]"

definition of_integer :: "(u64 \<Rightarrow> int) \<Rightarrow> u64 \<Rightarrow> u64 \<Rightarrow> bool" where
  "of_integer f x v \<longleftrightarrow> d_rounded (f x < 0) (real_of_int (f x)) v"

definition isa_xf :: "(inst_type_t \<times> (u64 \<Rightarrow> u64 \<Rightarrow> bool)) list" where
  "isa_xf = [
     (inst_fcvt_d_w, of_integer (\<lambda>x. sint (ucast x :: i32))), (inst_fcvt_d_wu, of_integer (\<lambda>x. uint (ucast x :: u32))),
     (inst_fcvt_d_l, of_integer sint), (inst_fcvt_d_lu, of_integer uint), (inst_fmv_d_x, \<lambda>x v. v = x)]"

definition ff_ok :: "(u64 \<Rightarrow> u64 \<Rightarrow> u64 \<Rightarrow> bool) \<Rightarrow> func_t \<Rightarrow> bool" where
  "ff_ok S h \<longleftrightarrow> (\<forall>s i v. regs_ok i \<and> S (fp_regs s (unat (rs1 i))) (fp_regs s (unat (rs2 i))) v \<longrightarrow>
     h s i = Inr (s\<lparr>fp_regs := (fp_regs s)(unat (rd i) := v)\<rparr>, i))"

definition fx_ok :: "(u64 \<Rightarrow> u64 \<Rightarrow> u64 \<Rightarrow> bool) \<Rightarrow> func_t \<Rightarrow> bool" where
  "fx_ok S h \<longleftrightarrow> (\<forall>s i v. regs_ok i \<and> S (fp_regs s (unat (rs1 i))) (fp_regs s (unat (rs2 i))) v \<longrightarrow>
     h s i = Inr (s\<lparr>gp_regs := (gp_regs s)(unat (rd i) := v)\<rparr>, i))"

definition xf_ok :: "(u64 \<Rightarrow> u64 \<Rightarrow> bool) \<Rightarrow> func_t \<Rightarrow> bool" where
  "xf_ok S h \<longleftrightarrow> (\<forall>s i v. regs_ok i \<and> S (gp_regs s (unat (rs1 i))) v \<longrightarrow>
     h s i = Inr (s\<lparr>fp_regs := (fp_regs s)(unat (rd i) := v)\<rparr>, i))"

lemma ff_handlers:
  "(\<And>a b v. S a b v \<Longrightarrow> e a b = v) \<Longrightarrow> ff_ok S (FUNC_fp_d e)"
  "(\<And>a b v. S a b v \<Longrightarrow> fsgnj64 a b n x = v) \<Longrightarrow> ff_ok S (FUNC_fsgnj_d n x)"
  "(\<And>a b v. S a b v \<Longrightarrow> nan_box (fsgnj32 (ucast a) (ucast b) n x) = v) \<Longrightarrow> ff_ok S (FUNC_fsgnj_s n x)"
  "(\<And>a b v. S a b v \<Longrightarrow> f32_to_f64 (ucast a) = v) \<Longrightarrow> ff_ok S func_fcvt_d_s"
  by (auto simp: ff_ok_def FUNC_fp_d_def FUNC_fsgnj_d_def FUNC_fsgnj_s_def func_fcvt_d_s_def fp_get_w_def)

lemma fx_handlers:
  "(\<And>a b v. S a b v \<Longrightarrow> c_bool (e a b) = v) \<Longrightarrow> fx_ok S (FUNC_fcmp_d e)"
  "(\<And>a b v. S a b v \<Longrightarrow> c_bool (e' (ucast a) (ucast b)) = v) \<Longrightarrow> fx_ok S (FUNC_fcmp_s e')"
  "(\<And>a b v. S a b v \<Longrightarrow> g a = v) \<Longrightarrow> fx_ok S (d_to_x g)"
  "(\<And>a b v. S a b v \<Longrightarrow> g' (ucast a) = v) \<Longrightarrow> fx_ok S (s_to_x g')"
  by (auto simp: fx_ok_def FUNC_fcmp_d_def FUNC_fcmp_s_def d_to_x_def s_to_x_def fp_get_w_def)

lemma xf_handlers: "(\<And>a v. R a v \<Longrightarrow> g a = v) \<Longrightarrow> xf_ok R (x_to_d g)"
  by (auto simp: xf_ok_def x_to_d_def)

lemma fp_spec_word: "op_ok 11 52 x f \<Longrightarrow> fp_spec x a b v \<Longrightarrow> f64_op2 f a b = v"
  using op_ok_word(2) result_unique(2) unfolding fp_spec_def by blast

lemma sqrt_spec_word: "fp_spec x_sqrt a b v \<Longrightarrow> sqrt_d a = v"
  using fp_spec_word [OF double.ops_ok(5)] by (simp flip: sqrt_ops(2))

lemma sgnj_bits:
  "fsgnj64 a b n x = with_sign 63 (if x then bit a 63 \<noteq> bit b 63 else bit b 63 \<noteq> n) a"
  "boxed c \<Longrightarrow> nan_box (fsgnj32 (ucast c) (ucast d) n x) =
    with_sign 31 (if x then bit c 31 \<noteq> bit d 31 else bit d 31 \<noteq> n) c"
proof -
  show "fsgnj64 a b n x = with_sign 63 (if x then bit a 63 \<noteq> bit b 63 else bit b 63 \<noteq> n) a"
    by (rule bit_word_eqI) (auto simp: bit_fsgnj64 with_sign_def bit_set_bit_iff bit_unset_bit_iff)
  assume "boxed c"
  then have "bit (drop_bit 32 c) l = bit (mask 32 :: u64) l" for l by (simp add: boxed_def)
  then have "bit c (32 + l)" if "l < 32" for l using that by (simp add: bit_drop_bit_eq bit_mask_iff)
  note above = this
  have up: "bit c k" if "32 \<le> k" "k < 64" for k using above [of "k - 32"] that by simp
  show "nan_box (fsgnj32 (ucast c) (ucast d) n x) =
    with_sign 31 (if x then bit c 31 \<noteq> bit d 31 else bit d 31 \<noteq> n) c"
  proof (rule bit_word_eqI)
    fix k :: nat
    assume "k < LENGTH(64)"
    then show "bit (nan_box (fsgnj32 (ucast c) (ucast d) n x)) k =
        bit (with_sign 31 (if x then bit c 31 \<noteq> bit d 31 else bit d 31 \<noteq> n) c) k"
      using up [of k] by (cases "k < 32")
        (auto simp: nan_box_def bit_fsgnj32 with_sign_def bit_set_bit_iff bit_unset_bit_iff bit_simps
          dest: bit_imp_le_length)
  qed
qed

lemma sgnj_word:
  "sgnj_d (\<lambda>s t. t) a b v \<Longrightarrow> fsgnj64 a b False False = v" "sgnj_d (\<lambda>s t. \<not> t) a b v \<Longrightarrow> fsgnj64 a b True False = v"
  "sgnj_d (\<noteq>) a b v \<Longrightarrow> fsgnj64 a b False True = v"
  "sgnj_s (\<lambda>s t. t) a b v \<Longrightarrow> nan_box (fsgnj32 (ucast a) (ucast b) False False) = v"
  "sgnj_s (\<lambda>s t. \<not> t) a b v \<Longrightarrow> nan_box (fsgnj32 (ucast a) (ucast b) True False) = v"
  "sgnj_s (\<noteq>) a b v \<Longrightarrow> nan_box (fsgnj32 (ucast a) (ucast b) False True) = v"
  by (simp_all add: sgnj_d_def sgnj_s_def sgnj_bits)

lemma compare_word:
  "f64_lt a b \<longleftrightarrow> \<not> d_nan a \<and> \<not> d_nan b \<and> d_val a < d_val b"
  "f64_eq a b \<longleftrightarrow> \<not> d_nan a \<and> \<not> d_nan b \<and> d_val a = d_val b"
  "f32_lt c d \<longleftrightarrow> \<not> s_nan c \<and> \<not> s_nan d \<and> s_val c < s_val d"
  "f32_eq c d \<longleftrightarrow> \<not> s_nan c \<and> \<not> s_nan d \<and> s_val c = s_val d"
  by (simp_all add: f64_lt_def f64_eq_def f32_lt_def f32_eq_def f_lt_def f_eq_def number_defs
      double.key_val single.key_val)

lemma cmp_word:
  "cmp_d (=) a b v \<Longrightarrow> c_bool (f64_eq a b) = v" "cmp_d (<) a b v \<Longrightarrow> c_bool (f64_lt a b) = v"
  "cmp_d (\<le>) a b v \<Longrightarrow> c_bool (f64_lt a b \<or> f64_eq a b) = v"
  "cmp_s (=) a b v \<Longrightarrow> c_bool (f32_eq (ucast a) (ucast b)) = v"
  "cmp_s (<) a b v \<Longrightarrow> c_bool (f32_lt (ucast a) (ucast b)) = v"
  "cmp_s (\<le>) a b v \<Longrightarrow> c_bool (f32_lt (ucast a) (ucast b) \<or> f32_eq (ucast a) (ucast b)) = v"
  by (auto simp: cmp_d_def cmp_s_def truth_def c_bool_def compare_word)

lemma select_word:
  "select_d (<) a b v \<Longrightarrow> (if f64_lt a b then a else b) = v" "select_d (>) a b v \<Longrightarrow> (if f64_lt b a then a else b) = v"
  by (auto simp: select_d_def compare_word)

lemma convert_word:
  "widen_s a b v \<Longrightarrow> f32_to_f64 (ucast a) = v"
  "of_integer f x v \<Longrightarrow> int_to_f64 (f x) = v"
proof -
  assume "widen_s a b v"
  then have "s_finite (ucast a)" and v: "d_rounded (s_sign (ucast a)) (s_val (ucast a)) v" by (simp_all add: widen_s_def)
  then have "d_rounded (s_sign (ucast a)) (s_val (ucast a)) (f32_to_f64 (ucast a))"
    unfolding f32_to_f64_def s_finite_def s_sign_def s_val_def by (intro rounded_word widen_f.f_convert_rounded)
  then show "f32_to_f64 (ucast a) = v" using v by (rule d_rounded_unique)
next
  assume "of_integer f x v"
  moreover have "d_rounded (f x < 0) (real_of_int (f x)) (int_to_f64 (f x))"
    unfolding int_to_f64_def by (intro rounded_word double.int_to_f_rounded)
  ultimately show "int_to_f64 (f x) = v" unfolding of_integer_def by (blast intro: d_rounded_unique)
qed

lemma class_word: "ucast (f64_classify a) = (2 ^ f64_class_bit a :: u64)" "ucast (f32_classify b) = (2 ^ f32_class_bit b :: u64)"
proof -
  have small: "f64_class_bit a < 10" "f32_class_bit b < 10" by (simp_all add: f64_class_bit_def f32_class_bit_def Let_def)
  have "ucast (push_bit n 1 :: u16) = (2 ^ n :: u64)" if "n < 10" for n
    by (rule bit_word_eqI) (use that in \<open>auto simp: bit_simps\<close>)
  with small show "ucast (f64_classify a) = (2 ^ f64_class_bit a :: u64)" "ucast (f32_classify b) = (2 ^ f32_class_bit b :: u64)"
    by (simp_all add: f64_classify_bit f32_classify_bit del: push_bit_of_1)
qed

lemma isa_ff_handlers:
  "list_all2 (\<lambda>(t, S) h. (t, h) \<in> set handler_of \<and> ff_ok S h) isa_ff
    [func_fadd_d, func_fsub_d, func_fmul_d, func_fdiv_d, func_fsqrt_d, func_fsgnj_d, func_fsgnjn_d, func_fsgnjx_d,
     func_fsgnj_s, func_fsgnjn_s, func_fsgnjx_s, func_fmin_d, func_fmax_d, func_fcvt_d_s]"
  unfolding isa_ff_def list_all2_Cons list_all2_Nil prod.case
  by (intro conjI refl; (simp add: handler_of_def; fail | (simp only: func_defs)?; rule ff_handlers;
      (rule fp_spec_word, rule double.ops_ok, assumption | rule sqrt_spec_word sgnj_word select_word convert_word,
       assumption)))

lemma isa_fx_handlers:
  "list_all2 (\<lambda>(t, S) h. (t, h) \<in> set handler_of \<and> fx_ok S h) isa_fx
    [func_feq_d, func_flt_d, func_fle_d, func_feq_s, func_flt_s, func_fle_s, func_fclass_d, func_fclass_s,
     func_fmv_x_d, func_fmv_x_w]"
  unfolding isa_fx_def list_all2_Cons list_all2_Nil prod.case
  by (intro conjI refl; (simp add: handler_of_def; fail | simp only: func_defs; rule fx_handlers;
      (rule cmp_word, assumption | simp add: class_word)))

lemma isa_xf_handlers:
  "list_all2 (\<lambda>(t, S) h. (t, h) \<in> set handler_of \<and> xf_ok S h) isa_xf
    [func_fcvt_d_w, func_fcvt_d_wu, func_fcvt_d_l, func_fcvt_d_lu, func_fmv_d_x]"
  unfolding isa_xf_def list_all2_Cons list_all2_Nil prod.case
  by (intro conjI refl; (simp add: handler_of_def; fail | simp only: func_defs; rule xf_handlers;
      (rule convert_word(2), assumption | simp)))

section \<open>Loads and stores\<close>

definition isa_fload :: "(inst_type_t \<times> nat \<times> (int \<Rightarrow> int)) list" where
  "isa_fload = [(inst_flw, 4, \<lambda>z. z + (2 ^ 32 - 1) * 2 ^ 32), (inst_fld, 8, \<lambda>z. z)]"

definition isa_fstore :: "(inst_type_t \<times> nat) list" where
  "isa_fstore = [(inst_fsw, 4), (inst_fsd, 8)]"

definition fload_ok :: "nat \<times> (int \<Rightarrow> int) \<Rightarrow> func_t \<Rightarrow> bool" where
  "fload_ok = (\<lambda>(n, f) h. \<forall>s i. regs_ok i \<longrightarrow>
     h s i = bindE (load_bytes n (mem s) (mem_addr s i)) (\<lambda>bs.
       Inr (s\<lparr>fp_regs := (fp_regs s)(unat (rd i) := word_of_int (f (le_int bs)))\<rparr>, i)))"

definition fstore_ok :: "nat \<Rightarrow> func_t \<Rightarrow> bool" where
  "fstore_ok n h \<longleftrightarrow> (\<forall>s i. regs_ok i \<longrightarrow>
     h s i = bindE (store_bytes (le_bytes n (fp_regs s (unat (rs2 i)))) (mem s) (mem_addr s i)) (\<lambda>m.
       Inr (s\<lparr>mem := m\<rparr>, i)))"

lemma bindE_cong_load:
  "(\<And>bs. length bs = n \<Longrightarrow> f bs = g bs) \<Longrightarrow> bindE (load_bytes n m a) f = bindE (load_bytes n m a) g"
  by (cases "load_bytes n m a") (auto dest: length_load_bytes)

lemma nan_box_int:
  assumes "length bs = 4"
  shows "nan_box (le_word bs) = word_of_int (le_int bs + (2 ^ 32 - 1) * 2 ^ 32)"
proof -
  have "nan_box w = ucast w + push_bit 32 (- 1)" for w
    unfolding nan_box_def by (rule disjunctive_add [symmetric]) (auto simp: bit_simps dest: bit_imp_le_length)
  moreover have "uint (le_word bs :: u32) = le_int bs"
    using le_int_bounds [of bs] assms by (simp add: le_word_int uint_word_of_int_eq take_bit_int_eq_self)
  then have "(ucast (le_word bs :: u32) :: u64) = word_of_int (le_int bs)" by (simp add: ucast_word_of_int)
  ultimately show ?thesis by (simp add: push_bit_eq_mult)
qed

lemma isa_fload_handlers:
  "list_all2 (\<lambda>(t, f) h. (t, h) \<in> set handler_of \<and> fload_ok f h) isa_fload [func_flw, func_fld]"
  unfolding isa_fload_def list_all2_Cons list_all2_Nil prod.case
proof (intro conjI refl)
  show "fload_ok (4, \<lambda>z. z + (2 ^ 32 - 1) * 2 ^ 32) func_flw"
    unfolding fload_ok_def by (auto simp: func_flw_def mem_addr_def nan_box_int simp del: nan_box_def intro!: bindE_cong_load)
  show "fload_ok (8, \<lambda>z. z) func_fld"
    unfolding fload_ok_def by (auto simp: func_fld_def mem_addr_def le_word_int intro!: bindE_cong_load)
qed (simp_all add: handler_of_def)

lemma isa_fstore_handlers:
  "list_all2 (\<lambda>(t, n) h. (t, h) \<in> set handler_of \<and> fstore_ok n h) isa_fstore [func_fsw, func_fsd]"
  unfolding isa_fstore_def list_all2_Cons list_all2_Nil prod.case
  by (simp add: handler_of_def func_defs fstore_ok_def FUNC_fstore_def mem_addr_def)

section \<open>Dispatch\<close>

lemma dispatch_ff:
  assumes "(itype i, S) \<in> set isa_ff" "regs_ok i" "S (fp_regs s (unat (rs1 i))) (fp_regs s (unat (rs2 i))) v"
  shows "dispatch s i = Inr (s\<lparr>fp_regs := (fp_regs s)(unat (rd i) := v)\<rparr>, i)"
proof -
  obtain h where "(itype i, h) \<in> set handler_of" "ff_ok S h" by (rule handlers_lookup [OF isa_ff_handlers assms(1)])
  with assms(2,3) show ?thesis by (simp add: dispatch_handler ff_ok_def)
qed

lemma dispatch_fx:
  assumes "(itype i, S) \<in> set isa_fx" "regs_ok i" "S (fp_regs s (unat (rs1 i))) (fp_regs s (unat (rs2 i))) v"
  shows "dispatch s i = Inr (s\<lparr>gp_regs := (gp_regs s)(unat (rd i) := v)\<rparr>, i)"
proof -
  obtain h where "(itype i, h) \<in> set handler_of" "fx_ok S h" by (rule handlers_lookup [OF isa_fx_handlers assms(1)])
  with assms(2,3) show ?thesis by (simp add: dispatch_handler fx_ok_def)
qed

lemma dispatch_xf:
  assumes "(itype i, S) \<in> set isa_xf" "regs_ok i" "S (gp_regs s (unat (rs1 i))) v"
  shows "dispatch s i = Inr (s\<lparr>fp_regs := (fp_regs s)(unat (rd i) := v)\<rparr>, i)"
proof -
  obtain h where "(itype i, h) \<in> set handler_of" "xf_ok S h" by (rule handlers_lookup [OF isa_xf_handlers assms(1)])
  with assms(2,3) show ?thesis by (simp add: dispatch_handler xf_ok_def)
qed

lemma dispatch_fload:
  assumes "(itype i, n, f) \<in> set isa_fload" "regs_ok i"
  shows "dispatch s i = bindE (load_bytes n (mem s) (mem_addr s i)) (\<lambda>bs.
    Inr (s\<lparr>fp_regs := (fp_regs s)(unat (rd i) := word_of_int (f (le_int bs)))\<rparr>, i))"
proof -
  obtain h where "(itype i, h) \<in> set handler_of" "fload_ok (n, f) h"
    by (rule handlers_lookup [OF isa_fload_handlers assms(1)])
  with assms(2) show ?thesis by (simp add: dispatch_handler fload_ok_def)
qed

lemma dispatch_fstore:
  assumes "(itype i, n) \<in> set isa_fstore" "regs_ok i"
  shows "dispatch s i = bindE (store_bytes (le_bytes n (fp_regs s (unat (rs2 i)))) (mem s) (mem_addr s i)) (\<lambda>m.
    Inr (s\<lparr>mem := m\<rparr>, i))"
proof -
  obtain h where "(itype i, h) \<in> set handler_of" "fstore_ok n h"
    by (rule handlers_lookup [OF isa_fstore_handlers assms(1)])
  with assms(2) show ?thesis by (simp add: dispatch_handler fstore_ok_def)
qed

end
