(* ===== verification/Isa_Fp_S.thy ===== *)
theory Isa_Fp_S
  imports Isa_Fp
begin

text \<open>
  The rest of the floating-point instructions: those that write a single-precision number and
  those that convert to an integer. The emulator keeps the upper half of the destination of the former, so
  that the register holds a NaN-boxed number only when it held one before.
\<close>

section \<open>Rounding to an integer\<close>

definition round_int :: "real \<Rightarrow> int \<Rightarrow> bool" where
  "round_int r z \<longleftrightarrow> \<bar>real_of_int z - r\<bar> < 1 / 2 \<or> \<bar>real_of_int z - r\<bar> = 1 / 2 \<and> even z"

lemma round_int_unique:
  assumes "round_int r y" "round_int r z"
  shows "y = z"
proof (rule ccontr)
  assume "y \<noteq> z"
  then have "1 \<le> \<bar>real_of_int y - real_of_int z\<bar>" by linarith
  moreover have "\<bar>real_of_int y - r\<bar> \<le> 1 / 2" "\<bar>real_of_int z - r\<bar> \<le> 1 / 2"
    using assms by (auto simp: round_int_def)
  ultimately have half: "\<bar>real_of_int y - r\<bar> = 1 / 2" "\<bar>real_of_int z - r\<bar> = 1 / 2"
    and one: "\<bar>real_of_int y - real_of_int z\<bar> = 1" by linarith+
  from one have "y = z + 1 \<or> z = y + 1" by linarith
  moreover have "even y" "even z" using assms half by (auto simp: round_int_def)
  ultimately show False by auto
qed

context format begin

lemma f_llrint_rounds:
  assumes "f_finite eb fb x" "round_int (f_val eb fb x) z" "- (2 ^ 63) \<le> z" "z < 2 ^ 63"
  shows "f_llrint eb fb x = word_of_int z"
proof -
  define n where "n = round_div (f_units eb fb x) (f_one eb fb)"
  define y where "y = (if f_sign eb fb x then - int n else int n)"
  have den: "0 < f_one eb fb" by (simp add: f_one_def)
  have "real (f_units eb fb x) / real (f_one eb fb) = \<bar>f_val eb fb x\<bar>" using one_pos by (simp add: units_val)
  with round_div_real [OF den, of "f_units eb fb x"]
  have n: "\<bar>real n - \<bar>f_val eb fb x\<bar>\<bar> \<le> 1 / 2" "\<bar>real n - \<bar>f_val eb fb x\<bar>\<bar> = 1 / 2 \<Longrightarrow> even n"
    by (simp_all add: n_def)
  have val: "f_val eb fb x = (if f_sign eb fb x then - \<bar>f_val eb fb x\<bar> else \<bar>f_val eb fb x\<bar>)"
    using sign_val [of x] by auto
  have dist: "\<bar>real_of_int y - f_val eb fb x\<bar> = \<bar>real n - \<bar>f_val eb fb x\<bar>\<bar>"
    by (subst val) (simp add: y_def abs_minus_commute)
  have ev: "even y = even n" by (simp add: y_def)
  have "round_int (f_val eb fb x) y"
    unfolding round_int_def dist ev using n by argo
  then have "z = y" using assms(2) round_int_unique by blast
  moreover have "\<not> f_inf eb fb \<le> f_mag eb fb x" using assms(1) by (simp add: f_finite_def)
  ultimately show ?thesis
    using assms(3,4) by (simp add: f_llrint_def Let_def flip: n_def y_def)
qed

end

text \<open>
  \<open>to_integer fin val lo hi res\<close>: the operand is finite and rounds to an integer from \<open>lo\<close> up to but not
  including \<open>hi\<close>; the result is \<open>res\<close> of it.
\<close>

definition to_integer :: "int \<Rightarrow> int \<Rightarrow> (int \<Rightarrow> u64) \<Rightarrow> bool \<Rightarrow> real \<Rightarrow> u64 \<Rightarrow> bool" where
  "to_integer lo hi res fin r v \<longleftrightarrow> fin \<and> (\<exists>z. round_int r z \<and> lo \<le> z \<and> z < hi \<and> v = res z)"

definition of_d :: "(bool \<Rightarrow> real \<Rightarrow> u64 \<Rightarrow> bool) \<Rightarrow> u64 \<Rightarrow> u64 \<Rightarrow> u64 \<Rightarrow> bool" where
  "of_d P a b v \<longleftrightarrow> P (d_finite a) (d_val a) v"

definition of_s :: "(bool \<Rightarrow> real \<Rightarrow> u64 \<Rightarrow> bool) \<Rightarrow> u64 \<Rightarrow> u64 \<Rightarrow> u64 \<Rightarrow> bool" where
  "of_s P a b v \<longleftrightarrow> boxed a \<and> P (s_finite (ucast a)) (s_val (ucast a)) v"

definition to_w :: "bool \<Rightarrow> real \<Rightarrow> u64 \<Rightarrow> bool" where
  "to_w = to_integer (- (2 ^ 31)) (2 ^ 31) word_of_int"

definition to_wu :: "bool \<Rightarrow> real \<Rightarrow> u64 \<Rightarrow> bool" where
  "to_wu = to_integer 0 (2 ^ 32) (\<lambda>z. scast (word_of_int z :: i32))"

definition to_l :: "bool \<Rightarrow> real \<Rightarrow> u64 \<Rightarrow> bool" where
  "to_l = to_integer (- (2 ^ 63)) (2 ^ 63) word_of_int"

text \<open>An unsigned result that fits a signed one.\<close>

definition to_lu :: "bool \<Rightarrow> real \<Rightarrow> u64 \<Rightarrow> bool" where
  "to_lu = to_integer 0 (2 ^ 63) word_of_int"

definition isa_fi :: "(inst_type_t \<times> (u64 \<Rightarrow> u64 \<Rightarrow> u64 \<Rightarrow> bool)) list" where
  "isa_fi = [(inst_fcvt_w_d, of_d to_w), (inst_fcvt_wu_d, of_d to_wu), (inst_fcvt_l_d, of_d to_l),
     (inst_fcvt_lu_d, of_d to_lu), (inst_fcvt_w_s, of_s to_w), (inst_fcvt_wu_s, of_s to_wu),
     (inst_fcvt_l_s, of_s to_l), (inst_fcvt_lu_s, of_s to_lu)]"

lemma sext32_of_int:
  "- (2 ^ 31) \<le> z \<Longrightarrow> z < 2 ^ 31 \<Longrightarrow> sext32 (word_of_int z) = word_of_int z"
  "sext32 (word_of_int z) = scast (word_of_int z :: i32)"
proof -
  have low: "(ucast (word_of_int z :: u64) :: i32) = word_of_int z"
    by (rule bit_word_eqI) (auto simp: bit_simps)
  then show "sext32 (word_of_int z) = scast (word_of_int z :: i32)" by (simp add: sext32_def)
  assume "- (2 ^ 31) \<le> z" "z < 2 ^ 31"
  then have "sint (word_of_int z :: i32) = z"
    using signed_take_bit_int_eq_self [of 31 z] by (simp add: signed_of_int)
  then show "sext32 (word_of_int z) = word_of_int z" unfolding sext32_def low scast_eq by simp
qed

lemma llrint_word:
  "of_d (to_integer lo hi res) a b v \<Longrightarrow> - (2 ^ 63) \<le> lo \<Longrightarrow> hi \<le> 2 ^ 63 \<Longrightarrow>
     (\<And>z. lo \<le> z \<Longrightarrow> z < hi \<Longrightarrow> g (word_of_int z) = res z) \<Longrightarrow> g (llrint a) = v"
  "of_s (to_integer lo hi res) a b v \<Longrightarrow> - (2 ^ 63) \<le> lo \<Longrightarrow> hi \<le> 2 ^ 63 \<Longrightarrow>
     (\<And>z. lo \<le> z \<Longrightarrow> z < hi \<Longrightarrow> g (word_of_int z) = res z) \<Longrightarrow> g (llrintf (ucast a)) = v"
  using double.f_llrint_rounds [of "unat a"] single.f_llrint_rounds [of "unat (ucast a :: u32)"]
  by (auto simp: of_d_def of_s_def to_integer_def llrint_def llrintf_def number_defs)

lemma isa_fi_handlers:
  "list_all2 (\<lambda>(t, S) h. (t, h) \<in> set handler_of \<and> fx_ok S h) isa_fi
    [func_fcvt_w_d, func_fcvt_wu_d, func_fcvt_l_d, func_fcvt_lu_d, func_fcvt_w_s, func_fcvt_wu_s,
     func_fcvt_l_s, func_fcvt_lu_s]"
  unfolding isa_fi_def list_all2_Cons list_all2_Nil prod.case to_w_def to_wu_def to_l_def to_lu_def
  by (intro conjI refl; (simp add: handler_of_def; fail | simp only: func_defs; rule fx_handlers;
      (erule llrint_word [where g = "\<lambda>w. sext32 w"] | erule llrint_word [where g = "\<lambda>w. w"]);
      (rule sext32_of_int, assumption, assumption | rule sext32_of_int(2) | simp)))

section \<open>Single-precision results\<close>

text \<open>Relations between two floating-point operands, an integer one and a single-precision result.\<close>

definition binary :: "exact \<Rightarrow> bool" where
  "binary = (\<lambda>(f, sg, dom, two). two)"

definition sp_spec :: "exact \<Rightarrow> u64 \<Rightarrow> u64 \<Rightarrow> u64 \<Rightarrow> u32 \<Rightarrow> bool" where
  "sp_spec x a b c v \<longleftrightarrow> boxed a \<and> (binary x \<longrightarrow> boxed b) \<and> s_defined x (ucast a) (ucast b) \<and> s_result x (ucast a) (ucast b) v"

definition select_s :: "(real \<Rightarrow> real \<Rightarrow> bool) \<Rightarrow> u64 \<Rightarrow> u64 \<Rightarrow> u64 \<Rightarrow> u32 \<Rightarrow> bool" where
  "select_s first a b c v \<longleftrightarrow> boxed a \<and> boxed b \<and> \<not> s_nan (ucast a) \<and> \<not> s_nan (ucast b) \<and>
     \<not> (s_val (ucast a) = 0 \<and> s_val (ucast b) = 0) \<and>
     v = (if first (s_val (ucast a)) (s_val (ucast b)) then ucast a else ucast b)"

definition narrow_d :: "u64 \<Rightarrow> u64 \<Rightarrow> u64 \<Rightarrow> u32 \<Rightarrow> bool" where
  "narrow_d a b c v \<longleftrightarrow> d_finite a \<and> s_rounded (d_sign a) (d_val a) v"

definition s_of_integer :: "(u64 \<Rightarrow> int) \<Rightarrow> u64 \<Rightarrow> u64 \<Rightarrow> u64 \<Rightarrow> u32 \<Rightarrow> bool" where
  "s_of_integer f a b c v \<longleftrightarrow> s_rounded (f c < 0) (real_of_int (f c)) v"

definition isa_fs :: "(inst_type_t \<times> (u64 \<Rightarrow> u64 \<Rightarrow> u64 \<Rightarrow> u32 \<Rightarrow> bool)) list" where
  "isa_fs = [
     (inst_fadd_s, sp_spec x_add), (inst_fsub_s, sp_spec x_sub), (inst_fmul_s, sp_spec x_mul),
     (inst_fdiv_s, sp_spec x_div), (inst_fsqrt_s, sp_spec x_sqrt), (inst_fmin_s, select_s (<)),
     (inst_fmax_s, select_s (>)), (inst_fcvt_s_d, narrow_d),
     (inst_fcvt_s_w, s_of_integer (\<lambda>x. sint (ucast x :: i32))),
     (inst_fcvt_s_wu, s_of_integer (\<lambda>x. uint (ucast x :: u32))),
     (inst_fcvt_s_l, s_of_integer sint), (inst_fcvt_s_lu, s_of_integer uint),
     (inst_fmv_w_x, \<lambda>a b c v. v = ucast c)]"

definition fs_ok :: "(u64 \<Rightarrow> u64 \<Rightarrow> u64 \<Rightarrow> u32 \<Rightarrow> bool) \<Rightarrow> func_t \<Rightarrow> bool" where
  "fs_ok S h \<longleftrightarrow> (\<forall>s i v. regs_ok i \<and>
     S (fp_regs s (unat (rs1 i))) (fp_regs s (unat (rs2 i))) (gp_regs s (unat (rs1 i))) v \<longrightarrow>
     h s i = Inr (s\<lparr>fp_regs := (fp_regs s)(unat (rd i) := fp_set_w (fp_regs s (unat (rd i))) v)\<rparr>, i))"

lemma fs_handlers:
  "(\<And>a b c v. S a b c v \<Longrightarrow> e (ucast a) (ucast b) = v) \<Longrightarrow> fs_ok S (FUNC_fp_s e)"
  "(\<And>a b c v. S a b c v \<Longrightarrow> f64_to_f32 a = v) \<Longrightarrow> fs_ok S func_fcvt_s_d"
  "(\<And>a b c v. S a b c v \<Longrightarrow> g c = v) \<Longrightarrow> fs_ok S (x_to_s g)"
  by (auto simp: fs_ok_def FUNC_fp_s_def func_fcvt_s_d_def x_to_s_def fp_get_w_def)

lemma sp_spec_word: "op_ok 8 23 x f \<Longrightarrow> sp_spec x a b c v \<Longrightarrow> f32_op2 f (ucast a) (ucast b) = v"
  using op_ok_word(1) result_unique(1) unfolding sp_spec_def by blast

lemma sp_sqrt_word: "sp_spec x_sqrt a b c v \<Longrightarrow> sqrtf (ucast a) = v"
  using sp_spec_word [OF single.ops_ok(5)] sqrt_ops(1) by metis

lemma select_s_word:
  "select_s (<) a b c v \<Longrightarrow> (if f32_lt (ucast a) (ucast b) then ucast a else ucast b) = v"
  "select_s (>) a b c v \<Longrightarrow> (if f32_lt (ucast b) (ucast a) then ucast a else ucast b) = v"
  by (auto simp: select_s_def compare_word)

lemma narrow_word: "narrow_d a b c v \<Longrightarrow> f64_to_f32 a = v"
proof -
  assume "narrow_d a b c v"
  then have "d_finite a" and v: "s_rounded (d_sign a) (d_val a) v" by (simp_all add: narrow_d_def)
  then have "s_rounded (d_sign a) (d_val a) (f64_to_f32 a)"
    unfolding f64_to_f32_def d_finite_def d_sign_def d_val_def by (intro rounded_word narrow.f_convert_rounded)
  then show "f64_to_f32 a = v" using v by (rule s_rounded_unique)
qed

lemma s_of_integer_word: "s_of_integer f a b c v \<Longrightarrow> int_to_f32 (f c) = v"
proof -
  assume "s_of_integer f a b c v"
  moreover have "s_rounded (f c < 0) (real_of_int (f c)) (int_to_f32 (f c))"
    unfolding int_to_f32_def by (intro rounded_word single.int_to_f_rounded)
  ultimately show "int_to_f32 (f c) = v" unfolding s_of_integer_def by (blast intro: s_rounded_unique)
qed

lemma isa_fs_handlers:
  "list_all2 (\<lambda>(t, S) h. (t, h) \<in> set handler_of \<and> fs_ok S h) isa_fs
    [func_fadd_s, func_fsub_s, func_fmul_s, func_fdiv_s, func_fsqrt_s, func_fmin_s, func_fmax_s, func_fcvt_s_d,
     func_fcvt_s_w, func_fcvt_s_wu, func_fcvt_s_l, func_fcvt_s_lu, func_fmv_w_x]"
  unfolding isa_fs_def list_all2_Cons list_all2_Nil prod.case
  by (intro conjI refl; (simp add: handler_of_def; fail | (simp only: func_defs)?; rule fs_handlers;
      (rule sp_spec_word, rule single.ops_ok, assumption | rule sp_sqrt_word select_s_word narrow_word s_of_integer_word,
       assumption | simp)))

section \<open>Dispatch\<close>

lemma dispatch_fi:
  assumes "(itype i, S) \<in> set isa_fi" "regs_ok i" "S (fp_regs s (unat (rs1 i))) (fp_regs s (unat (rs2 i))) v"
  shows "dispatch s i = Inr (s\<lparr>gp_regs := (gp_regs s)(unat (rd i) := v)\<rparr>, i)"
proof -
  obtain h where "(itype i, h) \<in> set handler_of" "fx_ok S h" by (rule handlers_lookup [OF isa_fi_handlers assms(1)])
  with assms(2,3) show ?thesis by (simp add: dispatch_handler fx_ok_def)
qed

lemma dispatch_fs:
  assumes "(itype i, S) \<in> set isa_fs" "regs_ok i"
    and "S (fp_regs s (unat (rs1 i))) (fp_regs s (unat (rs2 i))) (gp_regs s (unat (rs1 i))) v"
  shows "dispatch s i = Inr (s\<lparr>fp_regs := (fp_regs s)(unat (rd i) := fp_set_w (fp_regs s (unat (rd i))) v)\<rparr>, i)"
proof -
  obtain h where "(itype i, h) \<in> set handler_of" "fs_ok S h" by (rule handlers_lookup [OF isa_fs_handlers assms(1)])
  with assms(2,3) show ?thesis by (simp add: dispatch_handler fs_ok_def)
qed

text \<open>A result that is written over a NaN-boxed number is NaN-boxed.\<close>

lemma box_over: "boxed r \<Longrightarrow> fp_set_w r v = nan_box v"
proof -
  assume "boxed r"
  then have "push_bit 32 (drop_bit 32 r) = push_bit 32 (mask 32)" by (simp only: boxed_def)
  also have "\<dots> = (push_bit 32 (- 1) :: u64)" by (rule bit_word_eqI) (auto simp: bit_simps)
  finally show ?thesis by (simp add: fp_set_w_def nan_box_def or.commute)
qed

end
