(* ===== verification/Isa_Step.thy ===== *)
theory Isa_Step
  imports Decode_Roundtrip Rvc_Exec Isa_Mem Isa_Fp_S Machine
begin

text \<open>
  RV64IMFDC as a reference machine: a state is a program
  counter, 32 integer registers, a memory and 32 floating-point registers, an instruction in
  memory is one of the encodings of \<open>Encode\<close> or a compressed one that expands to it, and a step
  is what the ISA manual says of the instruction. The emulator follows every run of this machine
  up to its next system call.
\<close>

section \<open>Encodings\<close>

text \<open>\<open>encodes w j\<close>: the 32-bit word \<open>w\<close> is the encoding of the instruction \<open>j\<close>.\<close>

inductive encodes :: "u32 \<Rightarrow> inst_t \<Rightarrow> bool" where
  enc_reg: "(t, f7, f3, op) \<in> set r_table \<Longrightarrow> encodes (enc_r f7 r2 r1 f3 r op)
    (inst_zero\<lparr>rd := ucast r, rs1 := ucast r1, rs2 := ucast r2, itype := t\<rparr>)"
| enc_frm: "(t, f7) \<in> set frm_table \<Longrightarrow> encodes (enc_r f7 r2 r1 rm r 0x53)
    (inst_zero\<lparr>rd := ucast r, rs1 := ucast r1, rs2 := ucast r2, itype := t\<rparr>)"
| enc_fcvt: "(t, f7, r2) \<in> set fcvt_table \<Longrightarrow> encodes (enc_r f7 r2 r1 rm r 0x53)
    (inst_zero\<lparr>rd := ucast r, rs1 := ucast r1, rs2 := ucast r2, itype := t\<rparr>)"
| enc_fmv: "(t, f7, f3) \<in> set fmv_table \<Longrightarrow> encodes (enc_r f7 0 r1 f3 r 0x53)
    (inst_zero\<lparr>rd := ucast r, rs1 := ucast r1, itype := t\<rparr>)"
| enc_fma: "(t, f2, op) \<in> set fma_table \<Longrightarrow> encodes (enc_r4 r3 f2 r2 r1 rm r op)
    (inst_zero\<lparr>rd := ucast r, rs1 := ucast r1, rs2 := ucast r2, rs3 := ucast r3, itype := t\<rparr>)"
| enc_imm: "(t, f3, op) \<in> set i_table \<Longrightarrow> encodes (enc_i i r1 f3 r op)
    (inst_zero\<lparr>rd := ucast r, rs1 := ucast r1, imm := scast i, itype := t\<rparr>)"
| enc_shift: "(t, h, f3) \<in> set shift_table \<Longrightarrow> encodes (enc_i (shift_imm h shamt) r1 f3 r 0x13)
    (inst_zero\<lparr>rd := ucast r, rs1 := ucast r1, imm := scast (shift_imm h shamt), itype := t\<rparr>)"
| enc_shiftw: "(t, f7, f3) \<in> set shiftw_table \<Longrightarrow> encodes (enc_i (shiftw_imm f7 k) r1 f3 r 0x1b)
    (inst_zero\<lparr>rd := ucast r, rs1 := ucast r1, imm := scast (shiftw_imm f7 k), itype := t\<rparr>)"
| enc_store: "(t, f3, op) \<in> set s_table \<Longrightarrow> encodes (enc_s i r2 r1 f3 op)
    (inst_zero\<lparr>rs1 := ucast r1, rs2 := ucast r2, imm := scast i, itype := t\<rparr>)"
| enc_branch: "(t, f3) \<in> set b_table \<Longrightarrow> encodes (enc_b i r2 r1 f3 0x63)
    (inst_zero\<lparr>rs1 := ucast r1, rs2 := ucast r2, imm := push_bit 1 (scast i), itype := t\<rparr>)"
| enc_lui: "encodes (enc_u u r 0x37)
    (inst_zero\<lparr>rd := ucast r, imm := push_bit 12 (ucast u), itype := inst_lui\<rparr>)"
| enc_auipc: "encodes (enc_u u r 0x17)
    (inst_zero\<lparr>rd := ucast r, imm := push_bit 12 (ucast u), itype := inst_auipc\<rparr>)"
| enc_fence: "(t, f3) \<in> {(inst_fence, 0), (inst_fence_i, 1)} \<Longrightarrow> encodes (enc_i i r1 f3 r 0x0f)
    (inst_zero\<lparr>itype := t\<rparr>)"
| enc_csr: "(t, f3) \<in> set csr_table \<Longrightarrow> encodes (enc_i c r1 f3 r 0x73)
    (inst_zero\<lparr>rd := ucast r, rs1 := ucast r1, csr := ucast c, itype := t\<rparr>)"
| enc_jal: "encodes (enc_j v r 0x6f)
    (inst_zero\<lparr>rd := ucast r, imm := push_bit 1 (scast v), itype := inst_jal, continue_exec := True\<rparr>)"
| enc_jalr: "encodes (enc_i i r1 f3 r 0x67)
    (inst_zero\<lparr>rd := ucast r, rs1 := ucast r1, imm := scast i, itype := inst_jalr,
      continue_exec := True\<rparr>)"

lemma list_all_case2: "list_all (\<lambda>(a, b). P a b) xs \<Longrightarrow> (a, b) \<in> set xs \<Longrightarrow> P a b"
  by (auto simp: list_all_iff)

lemma list_all_case3: "list_all (\<lambda>(a, b, c). P a b c) xs \<Longrightarrow> (a, b, c) \<in> set xs \<Longrightarrow> P a b c"
  by (auto simp: list_all_iff)

lemma list_all_case4:
  "list_all (\<lambda>(a, b, c, d). P a b c d) xs \<Longrightarrow> (a, b, c, d) \<in> set xs \<Longrightarrow> P a b c d"
  by (auto simp: list_all_iff)

lemma decode_encodes: "encodes w j \<Longrightarrow> decode_inst p w = Inr j"
proof (induction rule: encodes.induct)
  case enc_reg
  then show ?case by (rule list_all_case4 [OF decode_rows_r])
next
  case enc_frm
  then show ?case by (rule list_all_case2 [OF decode_rows_frm])
next
  case enc_fcvt
  then show ?case by (rule list_all_case3 [OF decode_rows_fcvt])
next
  case enc_fmv
  then show ?case by (rule list_all_case3 [OF decode_rows_fmv])
next
  case enc_fma
  then show ?case by (rule list_all_case3 [OF decode_rows_fma])
next
  case enc_imm
  then show ?case by (rule list_all_case3 [OF decode_rows_i])
next
  case enc_shift
  then show ?case by (rule list_all_case3 [OF decode_rows_shift])
next
  case enc_shiftw
  then show ?case by (rule list_all_case3 [OF decode_rows_shiftw])
next
  case enc_store
  then show ?case by (rule list_all_case3 [OF decode_rows_s])
next
  case enc_branch
  then show ?case by (rule list_all_case2 [OF decode_rows_b])
next
  case enc_fence
  then show ?case by (rule decode_enc_fence)
next
  case enc_csr
  then show ?case by (rule list_all_case2 [OF decode_rows_csr])
qed (simp_all add: decode_enc_jumps decode_enc_upper)

text \<open>Every type of instruction but \<open>ecall\<close> has an encoding.\<close>

lemma encodes_every_type:
  assumes "t < num_insns" "t \<noteq> inst_ecall"
  shows "\<exists>w j. encodes w j \<and> itype j = t"
proof -
  let ?R = "map fst r_table" and ?M = "map fst frm_table" and ?C = "map fst fcvt_table" and ?V = "map fst fmv_table"
    and ?A = "map fst fma_table" and ?I = "map fst i_table" and ?H = "map fst shift_table"
    and ?W = "map fst shiftw_table" and ?S = "map fst s_table" and ?B = "map fst b_table" and ?Z = "map fst csr_table"
    and ?L = "[inst_lui, inst_auipc, inst_fence, inst_fence_i, inst_jal, inst_jalr]"
  have "list_all (\<lambda>t. t = inst_ecall \<or> t \<in> set (?R @ ?M @ ?C @ ?V @ ?A @ ?I @ ?H @ ?W @ ?S @ ?B @ ?Z @ ?L))
    [0..<num_insns]"
    unfolding r_table_def frm_table_def fcvt_table_def fmv_table_def fma_table_def i_table_def shift_table_def
      shiftw_table_def s_table_def b_table_def csr_table_def list.map fst_conv append.simps
    by (simp add: rv_enum) code_simp
  then have "t = inst_ecall \<or> t \<in> set (?R @ ?M @ ?C @ ?V @ ?A @ ?I @ ?H @ ?W @ ?S @ ?B @ ?Z @ ?L)"
    unfolding list_all_iff by (rule bspec) (use assms(1) in simp)
  with assms(2) have "t \<in> set (?R @ ?M @ ?C @ ?V @ ?A @ ?I @ ?H @ ?W @ ?S @ ?B @ ?Z @ ?L)" by blast
  then consider "t \<in> set ?R" | "t \<in> set ?M" | "t \<in> set ?C" | "t \<in> set ?V" | "t \<in> set ?A" | "t \<in> set ?I" |
    "t \<in> set ?H" | "t \<in> set ?W" | "t \<in> set ?S" | "t \<in> set ?B" | "t \<in> set ?Z" | "t \<in> set ?L"
    unfolding set_append Un_iff by blast
  then show ?thesis
  proof cases
    case 1 then show ?thesis using enc_reg by fastforce
  next
    case 2 then show ?thesis using enc_frm by fastforce
  next
    case 3 then show ?thesis using enc_fcvt by fastforce
  next
    case 4 then show ?thesis using enc_fmv by fastforce
  next
    case 5 then show ?thesis using enc_fma by fastforce
  next
    case 6 then show ?thesis using enc_imm by fastforce
  next
    case 7 then show ?thesis using enc_shift by fastforce
  next
    case 8 then show ?thesis using enc_shiftw by fastforce
  next
    case 9 then show ?thesis using enc_store by fastforce
  next
    case 10 then show ?thesis using enc_branch by fastforce
  next
    case 11 then show ?thesis using enc_csr by fastforce
  next
    case 12
    then show ?thesis using enc_lui enc_auipc enc_fence [of inst_fence 0] enc_fence [of inst_fence_i 1] enc_jal enc_jalr
      by fastforce
  qed
qed

section \<open>What instructions do\<close>

type_synonym core = "u64 \<times> (nat \<Rightarrow> u64) \<times> mem_t"
type_synonym arch = "core \<times> (nat \<Rightarrow> u64)"

text \<open>Writing a register; \<open>x0\<close> stays zero.\<close>

definition wr :: "(nat \<Rightarrow> u64) \<Rightarrow> i8 \<Rightarrow> u64 \<Rightarrow> nat \<Rightarrow> u64" where
  "wr g r v = (g(unat r := v))(reg_zero := 0)"

definition isa_branch :: "(inst_type_t \<times> (u64 \<Rightarrow> u64 \<Rightarrow> bool)) list" where
  "isa_branch = [(inst_beq, \<lambda>a b. a = b), (inst_bne, \<lambda>a b. a \<noteq> b),
     (inst_blt, \<lambda>a b. sint a < sint b), (inst_bge, \<lambda>a b. sint b \<le> sint a),
     (inst_bltu, \<lambda>a b. uint a < uint b), (inst_bgeu, \<lambda>a b. uint b \<le> uint a)]"

text \<open>
  \<open>isa_exec j n c c'\<close>: the integer instruction \<open>j\<close>, of \<open>n\<close> bytes, takes \<open>c\<close> to \<open>c'\<close>.
\<close>

inductive isa_exec :: "inst_t \<Rightarrow> u64 \<Rightarrow> core \<Rightarrow> core \<Rightarrow> bool" where
  exec_r: "(itype j, f) \<in> set isa_r \<Longrightarrow>
    isa_exec j n (p, g, m)
      (p + n, wr g (rd j) (word_of_int (f (g (unat (rs1 j))) (g (unat (rs2 j))))), m)"
| exec_divw: "(itype j, f) \<in> set isa_divw \<Longrightarrow>
    g (unat (rs2 j)) = 0 \<or> (ucast (g (unat (rs2 j))) :: u32) \<noteq> 0 \<Longrightarrow>
    isa_exec j n (p, g, m)
      (p + n, wr g (rd j) (word_of_int (f (g (unat (rs1 j))) (g (unat (rs2 j))))), m)"
| exec_i: "(itype j, f) \<in> set isa_i \<Longrightarrow>
    isa_exec j n (p, g, m) (p + n, wr g (rd j) (word_of_int (f (g (unat (rs1 j))) (sint (imm j)))), m)"
| exec_lui: "itype j = inst_lui \<Longrightarrow>
    isa_exec j n (p, g, m) (p + n, wr g (rd j) (scast (imm j)), m)"
| exec_auipc: "itype j = inst_auipc \<Longrightarrow>
    isa_exec j n (p, g, m) (p + n, wr g (rd j) (p + scast (imm j)), m)"
| exec_fence: "itype j \<in> {inst_fence, inst_fence_i} \<Longrightarrow>
    isa_exec j n (p, g, m) (p + n, g(reg_zero := 0), m)"
| exec_load: "(itype j, k, sg) \<in> set isa_load \<Longrightarrow>
    load_bytes k m (TO_HOST (g (unat (rs1 j)) + scast (imm j))) = Inr bs \<Longrightarrow>
    isa_exec j n (p, g, m) (p + n, wr g (rd j) (widen k sg (le_int bs)), m)"
| exec_store: "(itype j, k) \<in> set isa_store \<Longrightarrow>
    store_bytes (le_bytes k (g (unat (rs2 j)))) m
      (TO_HOST (g (unat (rs1 j)) + scast (imm j))) = Inr m' \<Longrightarrow>
    isa_exec j n (p, g, m) (p + n, g(reg_zero := 0), m')"
| exec_branch: "(itype j, f) \<in> set isa_branch \<Longrightarrow>
    isa_exec j n (p, g, m)
      (if f (g (unat (rs1 j))) (g (unat (rs2 j))) then p + scast (imm j) else p + n,
       g(reg_zero := 0), m)"
| exec_jal: "itype j = inst_jal \<Longrightarrow>
    isa_exec j n (p, g, m) (p + scast (imm j), wr g (rd j) (p + n), m)"
| exec_jalr: "itype j = inst_jalr \<Longrightarrow>
    isa_exec j n (p, g, m)
      ((g (unat (rs1 j)) + scast (imm j)) AND NOT 1, wr g (rd j) (p + n), m)"

text \<open>The same with the floating-point registers.\<close>

inductive isa_fexec :: "inst_t \<Rightarrow> u64 \<Rightarrow> arch \<Rightarrow> arch \<Rightarrow> bool" where
  fexec_int: "isa_exec j n c c' \<Longrightarrow> isa_fexec j n (c, f) (c', f)"
| fexec_ff: "(itype j, S) \<in> set isa_ff \<Longrightarrow> S (f (unat (rs1 j))) (f (unat (rs2 j))) v \<Longrightarrow>
    isa_fexec j n ((p, g, m), f) ((p + n, g(reg_zero := 0), m), f(unat (rd j) := v))"
| fexec_fx: "(itype j, S) \<in> set isa_fx \<Longrightarrow> S (f (unat (rs1 j))) (f (unat (rs2 j))) v \<Longrightarrow>
    isa_fexec j n ((p, g, m), f) ((p + n, wr g (rd j) v, m), f)"
| fexec_fi: "(itype j, S) \<in> set isa_fi \<Longrightarrow> S (f (unat (rs1 j))) (f (unat (rs2 j))) v \<Longrightarrow>
    isa_fexec j n ((p, g, m), f) ((p + n, wr g (rd j) v, m), f)"
| fexec_fs: "(itype j, W) \<in> set isa_fs \<Longrightarrow> boxed (f (unat (rd j))) \<Longrightarrow>
    W (f (unat (rs1 j))) (f (unat (rs2 j))) (g (unat (rs1 j))) u \<Longrightarrow>
    isa_fexec j n ((p, g, m), f) ((p + n, g(reg_zero := 0), m), f(unat (rd j) := nan_box u))"
| fexec_xf: "(itype j, R) \<in> set isa_xf \<Longrightarrow> R (g (unat (rs1 j))) v \<Longrightarrow>
    isa_fexec j n ((p, g, m), f) ((p + n, g(reg_zero := 0), m), f(unat (rd j) := v))"
| fexec_load: "(itype j, k, h) \<in> set isa_fload \<Longrightarrow>
    load_bytes k m (TO_HOST (g (unat (rs1 j)) + scast (imm j))) = Inr bs \<Longrightarrow>
    isa_fexec j n ((p, g, m), f)
      ((p + n, g(reg_zero := 0), m), f(unat (rd j) := word_of_int (h (le_int bs))))"
| fexec_store: "(itype j, k) \<in> set isa_fstore \<Longrightarrow>
    store_bytes (le_bytes k (f (unat (rs2 j)))) m (TO_HOST (g (unat (rs1 j)) + scast (imm j))) = Inr m' \<Longrightarrow>
    isa_fexec j n ((p, g, m), f) ((p + n, g(reg_zero := 0), m'), f)"

definition fetches :: "mem_t \<Rightarrow> u64 \<Rightarrow> u32 \<Rightarrow> bool" where
  "fetches m p w \<longleftrightarrow> load_bytes 4 m (TO_HOST p) = Inr (le_bytes 4 w)"

text \<open>
  Instructions that round do it to nearest: by their rounding mode, or by the dynamic one, which
  nothing in this machine changes.
\<close>

definition rounding :: "inst_type_t list" where
  "rounding = [inst_fadd_d, inst_fsub_d, inst_fmul_d, inst_fdiv_d, inst_fsqrt_d, inst_fcvt_d_l, inst_fcvt_d_lu,
     inst_fadd_s, inst_fsub_s, inst_fmul_s, inst_fdiv_s, inst_fsqrt_s, inst_fcvt_s_d, inst_fcvt_s_w, inst_fcvt_s_wu,
     inst_fcvt_s_l, inst_fcvt_s_lu, inst_fcvt_w_d, inst_fcvt_wu_d, inst_fcvt_l_d, inst_fcvt_lu_d, inst_fcvt_w_s,
     inst_fcvt_wu_s, inst_fcvt_l_s, inst_fcvt_lu_s]"

definition rounds_ok :: "u32 \<Rightarrow> inst_t \<Rightarrow> bool" where
  "rounds_ok w j \<longleftrightarrow> (itype j \<in> set rounding \<longrightarrow> FUNCT3 w \<in> {0, 7})"

text \<open>\<open>executes m p j n\<close>: the instruction at \<open>p\<close> is \<open>j\<close>, in \<open>n\<close> bytes.\<close>

inductive executes :: "mem_t \<Rightarrow> u64 \<Rightarrow> inst_t \<Rightarrow> u64 \<Rightarrow> bool" where
  executes_full: "fetches m p w \<Longrightarrow> encodes w j \<Longrightarrow> rounds_ok w j \<Longrightarrow> executes m p j 4"
| executes_rvc: "fetches m p d \<Longrightarrow> expand_rvc (ucast d) = Some w \<Longrightarrow> encodes w j \<Longrightarrow> executes m p j 2"

inductive isa_step :: "arch \<Rightarrow> arch \<Rightarrow> bool" where
  isa_step: "executes m p j n \<Longrightarrow> isa_fexec j n ((p, g, m), f) c \<Longrightarrow> isa_step ((p, g, m), f) c"

text \<open>
  \<open>isa_faults c x\<close>: the instruction \<open>c\<close> is about to execute touches a byte of the address space,
  \<open>x\<close>, that it may not. The emulator fetches four bytes, also for a compressed instruction.
\<close>

inductive access_fault :: "inst_t \<Rightarrow> (nat \<Rightarrow> u64) \<Rightarrow> mem_t \<Rightarrow> (nat \<Rightarrow> u64) \<Rightarrow> u64 \<Rightarrow> bool" where
  fault_load: "(itype j, k, sg) \<in> set isa_load \<Longrightarrow>
    load_bytes k m (TO_HOST (g (unat (rs1 j)) + scast (imm j))) = Inl (Segv x) \<Longrightarrow> access_fault j g m f x"
| fault_fload: "(itype j, k, h) \<in> set isa_fload \<Longrightarrow>
    load_bytes k m (TO_HOST (g (unat (rs1 j)) + scast (imm j))) = Inl (Segv x) \<Longrightarrow> access_fault j g m f x"
| fault_store: "(itype j, k) \<in> set isa_store \<Longrightarrow>
    store_bytes (le_bytes k (g (unat (rs2 j)))) m (TO_HOST (g (unat (rs1 j)) + scast (imm j))) = Inl (Segv x) \<Longrightarrow>
    access_fault j g m f x"
| fault_fstore: "(itype j, k) \<in> set isa_fstore \<Longrightarrow>
    store_bytes (le_bytes k (f (unat (rs2 j)))) m (TO_HOST (g (unat (rs1 j)) + scast (imm j))) = Inl (Segv x) \<Longrightarrow>
    access_fault j g m f x"

inductive isa_faults :: "arch \<Rightarrow> u64 \<Rightarrow> bool" where
  fault_fetch: "load_bytes 4 m (TO_HOST p) = Inl (Segv x) \<Longrightarrow> isa_faults ((p, g, m), f) x"
| fault_access: "executes m p j n \<Longrightarrow> access_fault j g m f x \<Longrightarrow> isa_faults ((p, g, m), f) x"

inductive_cases isa_execE: "isa_exec j n (p, g, m) c"

section \<open>Handlers of control transfer\<close>

definition branch_handler_ok :: "(u64 \<Rightarrow> u64 \<Rightarrow> bool) \<Rightarrow> func_t \<Rightarrow> bool" where
  "branch_handler_ok f h \<longleftrightarrow> (\<forall>s i. regs_ok i \<longrightarrow> h s i = Inr (
     if f (gp_regs s (unat (rs1 i))) (gp_regs s (unat (rs2 i)))
     then (s\<lparr>pc := pc s + scast (imm i), reenter_pc := pc s + scast (imm i),
             exit_reason := direct_branch\<rparr>, i\<lparr>continue_exec := True\<rparr>)
     else (s, i)))"

lemma branch_handler:
  "(\<And>a b. f a b = f' a b) \<Longrightarrow> branch_handler_ok f (FUNC_branch f')"
  by (simp add: branch_handler_ok_def FUNC_branch_def Let_def)

lemma isa_branch_handlers:
  "list_all2 (\<lambda>(t, f) h. (t, h) \<in> set handler_of \<and> branch_handler_ok f h) isa_branch
    [func_beq, func_bne, func_blt, func_bge, func_bltu, func_bgeu]"
  unfolding isa_branch_def list_all2_Cons list_all2_Nil prod.case
  by (intro conjI refl; (simp add: handler_of_def; fail | simp only: func_defs; rule branch_handler;
      simp only: word_less_def word_le_def))

lemma dispatch_isa_branch:
  assumes "(itype i, f) \<in> set isa_branch" "regs_ok i"
  shows "dispatch s i = Inr (
     if f (gp_regs s (unat (rs1 i))) (gp_regs s (unat (rs2 i)))
     then (s\<lparr>pc := pc s + scast (imm i), reenter_pc := pc s + scast (imm i),
             exit_reason := direct_branch\<rparr>, i\<lparr>continue_exec := True\<rparr>)
     else (s, i))"
proof -
  obtain h where h: "(itype i, h) \<in> set handler_of" "branch_handler_ok f h"
    by (rule handlers_lookup [OF isa_branch_handlers assms(1)])
  show ?thesis
    unfolding dispatch_handler [OF h(1)]
    by (rule h(2) [unfolded branch_handler_ok_def, rule_format, OF assms(2)])
qed

lemma dispatch_jumps:
  assumes "regs_ok i"
  shows "itype i = inst_jal \<Longrightarrow> dispatch s i = Inr (s\<lparr>gp_regs := (gp_regs s)(unat (rd i) := pc s + inst_len i),
      pc := pc s + scast (imm i), reenter_pc := pc s + scast (imm i),
      exit_reason := direct_branch\<rparr>, i)"
    "itype i = inst_jalr \<Longrightarrow> load_bytes 4 (mem s) (TO_HOST (pc s)) = Inr bs \<Longrightarrow>
      \<exists>l. dispatch s i = Inr (s\<lparr>gp_regs := (gp_regs s)(unat (rd i) := pc s + inst_len i),
      exit_reason := indirect_branch, reenter_pc := (gp_regs s (unat (rs1 i)) + scast (imm i)) AND NOT 1,
      stderr_log := stderr_log s @ l\<rparr>, i)"
    "itype i = inst_ecall \<Longrightarrow> dispatch s i = Inr (s\<lparr>exit_reason := ecall, reenter_pc := pc s + 4\<rparr>, i)"
    "itype i = inst_lui \<Longrightarrow> dispatch s i =
      Inr (s\<lparr>gp_regs := (gp_regs s)(unat (rd i) := scast (imm i))\<rparr>, i)"
    "itype i = inst_auipc \<Longrightarrow> dispatch s i =
      Inr (s\<lparr>gp_regs := (gp_regs s)(unat (rd i) := pc s + scast (imm i))\<rparr>, i)"
    "itype i \<in> {inst_fence, inst_fence_i} \<Longrightarrow> dispatch s i = Inr (s, i)"
proof -
  have d: "(t, f) \<in> {(inst_jal, func_jal), (inst_jalr, func_jalr), (inst_ecall, func_ecall), (inst_lui, func_lui),
      (inst_auipc, func_auipc), (inst_fence, func_empty), (inst_fence_i, func_empty)} \<Longrightarrow> itype i = t \<Longrightarrow> dispatch s i = f s i" for t f
    by (rule dispatch_handler) (auto simp: handler_of_def)
  show "dispatch s i = Inr (s\<lparr>gp_regs := (gp_regs s)(unat (rd i) := pc s + inst_len i),
      pc := pc s + scast (imm i), reenter_pc := pc s + scast (imm i),
      exit_reason := direct_branch\<rparr>, i)" if "itype i = inst_jal"
    using d [of _ func_jal, OF _ that] assms by (simp add: func_jal_def Let_def)
  show "\<exists>l. dispatch s i = Inr (s\<lparr>gp_regs := (gp_regs s)(unat (rd i) := pc s + inst_len i),
      exit_reason := indirect_branch, reenter_pc := (gp_regs s (unat (rs1 i)) + scast (imm i)) AND NOT 1,
      stderr_log := stderr_log s @ l\<rparr>, i)"
    if "itype i = inst_jalr" "load_bytes 4 (mem s) (TO_HOST (pc s)) = Inr bs"
  proof (cases "(gp_regs s (unat (rs1 i)) + scast (imm i)) AND NOT 1 = 0")
    case True
    then show ?thesis
      using d [of _ func_jalr, OF _ that(1)] that(2) assms
      by (intro exI [of _ "[Dbg_jalr_0 (pc s) (rs1 i) (gp_regs s (unat (rs1 i))) (imm i)
          (if unat (rd i) = 2 then pc s + inst_len i else gp_regs s 2), Dbg_inst_bytes bs]"])
        (simp add: func_jalr_def Let_def eprint_def)
  next
    case False
    then show ?thesis
      using d [of _ func_jalr, OF _ that(1)] assms by (intro exI [of _ "[]"]) (simp add: func_jalr_def Let_def)
  qed
  show "dispatch s i = Inr (s\<lparr>exit_reason := ecall, reenter_pc := pc s + 4\<rparr>, i)" if "itype i = inst_ecall"
    using d [of _ func_ecall, OF _ that] by (simp add: func_ecall_def)
  show "dispatch s i = Inr (s\<lparr>gp_regs := (gp_regs s)(unat (rd i) := scast (imm i))\<rparr>, i)"
    if "itype i = inst_lui"
    using d [of _ func_lui, OF _ that] assms by (simp add: func_lui_def put_gp_def)
  show "dispatch s i = Inr (s\<lparr>gp_regs := (gp_regs s)(unat (rd i) := pc s + scast (imm i))\<rparr>, i)"
    if "itype i = inst_auipc"
    using d [of _ func_auipc, OF _ that] assms by (simp add: func_auipc_def put_gp_def)
  show "dispatch s i = Inr (s, i)" if "itype i \<in> {inst_fence, inst_fence_i}"
    using d [of _ func_empty] that by (auto simp: func_empty_def)
qed

section \<open>One iteration of the interpreter follows one step\<close>

definition arch_of :: "cpu_t \<Rightarrow> arch" where
  "arch_of s = ((pc s, gp_regs s, mem s), fp_regs s)"

text \<open>
  What an iteration that takes \<open>s\<close> to the architectural state \<open>c\<close> may return: the loop goes
  on from \<open>c\<close>, or the block ends with a branch whose target is the program counter of \<open>c\<close>.
\<close>

definition follows :: "cpu_t \<Rightarrow> arch \<Rightarrow> (cpu_t \<times> inst_t, cpu_t \<times> inst_t) ctl \<Rightarrow> bool" where
  "follows s c r = (case r of
     Next (s', i') \<Rightarrow> regs_ok i' \<and> arch_of s' = c \<and> exit_reason s' = exit_reason s
   | Break (s', i') \<Rightarrow> regs_ok i' \<and> ((reenter_pc s', gp_regs s', mem s'), fp_regs s') = c \<and>
       (exit_reason s' = direct_branch \<or> exit_reason s' = indirect_branch))"

lemma interp_next:
  assumes "fetches (mem s) (pc s) w" "decode_inst i w = Inr j" "dispatch s j = Inr (s1, j)"
    and "\<not> continue_exec j"
  shows "interp_step (s, i) = Inr (Next (s1\<lparr>gp_regs := (gp_regs s1)(reg_zero := 0), pc := pc s1 + inst_len j\<rparr>, j))"
  using assms by (simp add: interp_step_def fetches_def le_bytes_roundtrip Let_def)

lemma interp_break:
  assumes "fetches (mem s) (pc s) w" "decode_inst i w = Inr j" "dispatch s j = Inr (s1, j1)"
    and "continue_exec j1"
  shows "interp_step (s, i) = Inr (Break (s1\<lparr>gp_regs := (gp_regs s1)(reg_zero := 0)\<rparr>, j1))"
  using assms by (simp add: interp_step_def fetches_def le_bytes_roundtrip Let_def)

lemma interp_step_exec:
  assumes fetch: "fetches (mem s) (pc s) w" "decode_inst i w = Inr j" and wf: "wf_inst j"
    and "isa_exec j (inst_len j) (pc s, gp_regs s, mem s) c"
  shows "\<exists>r. interp_step (s, i) = Inr r \<and> follows s (c, fp_regs s) r"
proof -
  have j [simp]: "regs_ok j" and cont: "continue_exec j = is_jump (itype j)"
    using wf by (simp_all add: wf_inst_def)
  from assms(4) show ?thesis
  proof (cases rule: isa_exec.cases)
    case (exec_r f)
    have "\<not> continue_exec j" using exec_r(2) cont by (auto simp: isa_r_def class_defs)
    with dispatch_isa_r [OF exec_r(2) j, of s] interp_next [OF fetch] exec_r(1) show ?thesis
      by (simp add: sets_rd_def follows_def arch_of_def wr_def)
  next
    case (exec_divw f)
    have "\<not> continue_exec j" using exec_divw(2) cont by (auto simp: isa_divw_def class_defs)
    with dispatch_isa_divw [OF exec_divw(2) j, of s] interp_next [OF fetch] exec_divw(1,3) show ?thesis
      by (auto simp: sets_rd_def follows_def arch_of_def wr_def Let_def)
  next
    case (exec_i f)
    have "\<not> continue_exec j" using exec_i(2) cont by (auto simp: isa_i_def class_defs)
    with dispatch_isa_i [OF exec_i(2) j, of s] interp_next [OF fetch] exec_i(1) show ?thesis
      by (auto simp: follows_def arch_of_def wr_def)
  next
    case exec_lui
    then have "\<not> continue_exec j" using cont by (simp add: class_defs)
    with dispatch_jumps(4) [OF j exec_lui(2), of s] interp_next [OF fetch] exec_lui show ?thesis
      by (simp add: follows_def arch_of_def wr_def)
  next
    case exec_auipc
    then have "\<not> continue_exec j" using cont by (simp add: class_defs)
    with dispatch_jumps(5) [OF j exec_auipc(2), of s] interp_next [OF fetch] exec_auipc show ?thesis
      by (simp add: follows_def arch_of_def wr_def)
  next
    case exec_fence
    then have "\<not> continue_exec j" using cont by (auto simp: class_defs)
    with dispatch_jumps(6) [OF j exec_fence(2), of s] interp_next [OF fetch] exec_fence show ?thesis
      by (simp add: follows_def arch_of_def)
  next
    case (exec_load k sg bs)
    have "\<not> continue_exec j" using exec_load(2) cont by (auto simp: isa_load_def class_defs)
    with dispatch_isa_load [OF exec_load(2) j, of s] interp_next [OF fetch] exec_load(1,3) show ?thesis
      by (auto simp: mem_addr_def follows_def arch_of_def wr_def)
  next
    case (exec_store k m')
    have "\<not> continue_exec j" using exec_store(2) cont by (auto simp: isa_store_def class_defs)
    with dispatch_isa_store [OF exec_store(2) j, of s] interp_next [OF fetch] exec_store(1,3) show ?thesis
      by (auto simp: mem_addr_def follows_def arch_of_def)
  next
    case (exec_branch f)
    have "\<not> continue_exec j" using exec_branch(2) cont by (auto simp: isa_branch_def class_defs)
    with dispatch_isa_branch [OF exec_branch(2) j, of s] interp_next [OF fetch] interp_break [OF fetch] exec_branch(1)
    show ?thesis by (auto simp: follows_def arch_of_def split: if_splits)
  next
    case exec_jal
    with cont dispatch_jumps(1) [OF j exec_jal(2), of s] interp_break [OF fetch] show ?thesis
      by (simp add: follows_def wr_def is_jump_def)
  next
    case exec_jalr
    from dispatch_jumps(2) [OF j exec_jalr(2) fetch(1) [unfolded fetches_def]]
    obtain l where "dispatch s j = Inr (s\<lparr>gp_regs := (gp_regs s)(unat (rd j) := pc s + inst_len j),
      exit_reason := indirect_branch, reenter_pc := (gp_regs s (unat (rs1 j)) + scast (imm j)) AND NOT 1,
      stderr_log := stderr_log s @ l\<rparr>, j)" by blast
    with exec_jalr cont interp_break [OF fetch] show ?thesis
      by (simp add: follows_def wr_def is_jump_def)
  qed
qed

lemma interp_step_fexec:
  assumes fetch: "fetches (mem s) (pc s) w" "decode_inst i w = Inr j" and wf: "wf_inst j"
    and "isa_fexec j (inst_len j) (arch_of s) c"
  shows "\<exists>r. interp_step (s, i) = Inr r \<and> follows s c r"
proof -
  have j [simp]: "regs_ok j" and cont: "continue_exec j = is_jump (itype j)"
    using wf by (simp_all add: wf_inst_def)
  note next_step = interp_next [OF fetch]
  from assms(4) [unfolded arch_of_def] show ?thesis
  proof (cases rule: isa_fexec.cases)
    case (fexec_int c')
    with interp_step_exec [OF fetch wf, of c'] show ?thesis by simp
  next
    case (fexec_ff S v)
    have "\<not> continue_exec j" using fexec_ff(2) cont by (auto simp: isa_ff_def class_defs)
    with next_step dispatch_ff [OF fexec_ff(2) j fexec_ff(3)] fexec_ff(1) show ?thesis
      by (simp add: follows_def arch_of_def)
  next
    case (fexec_fx S v)
    have "\<not> continue_exec j" using fexec_fx(2) cont by (auto simp: isa_fx_def class_defs)
    with next_step dispatch_fx [OF fexec_fx(2) j fexec_fx(3)] fexec_fx(1) show ?thesis
      by (simp add: follows_def arch_of_def wr_def)
  next
    case (fexec_fi S v)
    have "\<not> continue_exec j" using fexec_fi(2) cont by (auto simp: isa_fi_def class_defs)
    with next_step dispatch_fi [OF fexec_fi(2) j fexec_fi(3)] fexec_fi(1) show ?thesis
      by (simp add: follows_def arch_of_def wr_def)
  next
    case (fexec_fs W u)
    have "\<not> continue_exec j" using fexec_fs(2) cont by (auto simp: isa_fs_def class_defs)
    with next_step dispatch_fs [OF fexec_fs(2) j fexec_fs(4)] fexec_fs(1) box_over [OF fexec_fs(3)] show ?thesis
      by (simp add: follows_def arch_of_def)
  next
    case (fexec_xf R v)
    have "\<not> continue_exec j" using fexec_xf(2) cont by (auto simp: isa_xf_def class_defs)
    with next_step dispatch_xf [OF fexec_xf(2) j fexec_xf(3)] fexec_xf(1) show ?thesis
      by (simp add: follows_def arch_of_def)
  next
    case (fexec_load k h bs)
    have "\<not> continue_exec j" using fexec_load(2) cont by (auto simp: isa_fload_def class_defs)
    with next_step dispatch_fload [OF fexec_load(2) j, of s] fexec_load(1,3) show ?thesis
      by (simp add: mem_addr_def follows_def arch_of_def)
  next
    case (fexec_store k m')
    have "\<not> continue_exec j" using fexec_store(2) cont by (auto simp: isa_fstore_def class_defs)
    with next_step dispatch_fstore [OF fexec_store(2) j, of s] fexec_store(1,3) show ?thesis
      by (simp add: mem_addr_def follows_def arch_of_def)
  qed
qed

lemma interp_fault:
  assumes "fetches (mem s) (pc s) w" "decode_inst i w = Inr j" "dispatch s j = Inl e"
  shows "interp_step (s, i) = Inl e"
  using assms by (simp add: interp_step_def fetches_def le_bytes_roundtrip Let_def)

lemma interp_step_access_fault:
  assumes "fetches (mem s) (pc s) w" "decode_inst i w = Inr j" "regs_ok j"
    and "access_fault j (gp_regs s) (mem s) (fp_regs s) x"
  shows "interp_step (s, i) = Inl (Segv x)"
proof (rule interp_fault [OF assms(1,2)])
  from assms(4) show "dispatch s j = Inl (Segv x)"
  proof (cases rule: access_fault.cases)
    case (fault_load k sg)
    with dispatch_isa_load [OF fault_load(1) assms(3), of s] show ?thesis by (auto simp: mem_addr_def)
  next
    case (fault_store k)
    with dispatch_isa_store [OF fault_store(1) assms(3), of s] show ?thesis by (auto simp: mem_addr_def)
  next
    case (fault_fload k h)
    with dispatch_fload [OF fault_fload(1) assms(3), of s] show ?thesis by (simp add: mem_addr_def)
  next
    case (fault_fstore k)
    with dispatch_fstore [OF fault_fstore(1) assms(3), of s] show ?thesis by (simp add: mem_addr_def)
  qed
qed

section \<open>Compressed instructions\<close>

lemma low6_eq:
  assumes "k AND 0x3f = (i :: i32) AND 0x3f"
  shows "sint k mod 64 = sint i mod 64"
proof -
  have "unat (scast k AND 0x3f :: u64) = unat (scast i AND 0x3f :: u64)"
    using scast_and_3f [OF assms] by simp
  then have "nat (sint k mod 64) = nat (sint i mod 64)" by (simp only: imm_shamt)
  then show ?thesis by simp
qed

lemma isa_i_low6:
  assumes "(t, f) \<in> set isa_i" "is_shift t" "k AND 0x3f = (i :: i32) AND 0x3f"
  shows "f a (sint k) = f a (sint i)"
  using assms low6_eq [OF assms(3)] by (auto simp: isa_i_def is_shift_def rv_enum)

lemma exec_same_op:
  assumes "same_op i j" "isa_exec j n c c'"
  shows "isa_exec i n c c'"
proof -
  note eq = same_op_fields [OF assms(1)]
  have imm: "\<not> is_shift (itype j) \<Longrightarrow> imm i = imm j" and
    low: "is_shift (itype j) \<Longrightarrow> imm i AND 0x3f = imm j AND 0x3f"
    using assms(1) eq by (auto simp: same_op_def)
  from assms(2) show ?thesis
  proof (cases rule: isa_exec.cases)
    case (exec_i f p g m)
    have "f a (sint (imm i)) = f a (sint (imm j))" for a
      using isa_i_low6 [OF exec_i(3) _ low] imm by (cases "is_shift (itype j)") auto
    with isa_exec.exec_i [of i f n p g m] exec_i eq show ?thesis by simp
  next
    case (exec_r f p g m)
    with isa_exec.exec_r [of i f n p g m] eq show ?thesis by simp
  next
    case (exec_divw f g p m)
    with isa_exec.exec_divw [of i f g n p m] eq show ?thesis by simp
  next
    case (exec_lui p g m)
    with isa_exec.exec_lui [of i n p g m] eq imm show ?thesis by (simp add: is_shift_def rv_enum)
  next
    case (exec_auipc p g m)
    with isa_exec.exec_auipc [of i n p g m] eq imm show ?thesis by (simp add: is_shift_def rv_enum)
  next
    case (exec_fence p g m)
    with isa_exec.exec_fence [of i n p g m] eq show ?thesis by simp
  next
    case (exec_load k sg m g bs p)
    then have "\<not> is_shift (itype j)" by (auto simp: isa_load_def is_shift_def rv_enum)
    with exec_load isa_exec.exec_load [of i k sg m g bs n p] eq imm show ?thesis by simp
  next
    case (exec_store k g m m' p)
    then have "\<not> is_shift (itype j)" by (auto simp: isa_store_def is_shift_def rv_enum)
    with exec_store isa_exec.exec_store [of i k g m m' n p] eq imm show ?thesis by simp
  next
    case (exec_branch f p g m)
    then have "\<not> is_shift (itype j)" by (auto simp: isa_branch_def is_shift_def rv_enum)
    with exec_branch isa_exec.exec_branch [of i f n p g m] eq imm show ?thesis by (simp cong: if_cong)
  next
    case (exec_jal p g m)
    with isa_exec.exec_jal [of i n p g m] eq imm show ?thesis by (simp add: is_shift_def rv_enum)
  next
    case (exec_jalr p g m)
    with isa_exec.exec_jalr [of i n p g m] eq imm show ?thesis by (simp add: is_shift_def rv_enum)
  qed
qed

lemma same_op_imm: "same_op i j \<Longrightarrow> \<not> is_shift (itype j) \<Longrightarrow> imm i = imm j"
  using same_op_fields [of i j] by (auto simp: same_op_def)

lemma not_shift:
  "(t, k, h) \<in> set isa_fload \<Longrightarrow> \<not> is_shift t" "(t, n) \<in> set isa_fstore \<Longrightarrow> \<not> is_shift t"
  "(t, k, sg) \<in> set isa_load \<Longrightarrow> \<not> is_shift t" "(t, n) \<in> set isa_store \<Longrightarrow> \<not> is_shift t"
  by (auto simp: isa_fload_def isa_fstore_def isa_load_def isa_store_def is_shift_def rv_enum)

lemma fexec_same_op:
  assumes "same_op i j" "isa_fexec j n c c'"
  shows "isa_fexec i n c c'"
proof -
  note eq = same_op_fields [OF assms(1)] and imm = same_op_imm [OF assms(1)]
  from assms(2) show ?thesis
  proof (cases rule: isa_fexec.cases)
    case (fexec_int c c' f)
    with exec_same_op [OF assms(1)] isa_fexec.fexec_int [of i] show ?thesis by simp
  next
    case (fexec_ff S f v p g m)
    with isa_fexec.fexec_ff [of i S f v n p g m] eq show ?thesis by simp
  next
    case (fexec_fx S f v p g m)
    with isa_fexec.fexec_fx [of i S f v n p g m] eq show ?thesis by simp
  next
    case (fexec_fi S f v p g m)
    with isa_fexec.fexec_fi [of i S f v n p g m] eq show ?thesis by simp
  next
    case (fexec_fs W f g u p m)
    with isa_fexec.fexec_fs [of i W f g u n p m] eq show ?thesis by simp
  next
    case (fexec_xf R g v p m f)
    with isa_fexec.fexec_xf [of i R g v n p m f] eq show ?thesis by simp
  next
    case (fexec_load k h m g bs p f)
    with isa_fexec.fexec_load [of i k h m g bs n p f] eq imm not_shift(1) show ?thesis by simp
  next
    case (fexec_store k f m g m' p)
    with isa_fexec.fexec_store [of i k f m g m' n p] eq imm not_shift(2) show ?thesis by simp
  qed
qed

lemma access_fault_same_op:
  assumes "same_op i j" "access_fault j g m f x"
  shows "access_fault i g m f x"
  using assms(2) same_op_fields [OF assms(1)] same_op_imm [OF assms(1)] not_shift
  by (cases rule: access_fault.cases) (auto intro: access_fault.intros)

text \<open>What the decoder makes of an instruction in memory.\<close>

lemma executes_decode:
  assumes "executes m p j n" "regs_ok i"
  shows "\<exists>w k. fetches m p w \<and> decode_inst i w = Inr k \<and> wf_inst k \<and> inst_len k = n \<and>
    (\<forall>c c'. isa_fexec j n c c' \<longrightarrow> isa_fexec k n c c') \<and>
    (\<forall>g f x. access_fault j g m f x \<longrightarrow> access_fault k g m f x)"
  using assms(1)
proof (cases rule: executes.cases)
  case (executes_full w)
  have d: "decode_inst i w = Inr j" using executes_full(3) by (rule decode_encodes)
  then have "wf_inst j" using ok_allD [OF decode_inst_wf [OF assms(2)]] by blast
  moreover have "inst_len j = 4"
    using executes_full(3) by (cases rule: encodes.cases) (simp_all add: inst_len_def)
  ultimately show ?thesis using executes_full d by blast
next
  case (executes_rvc d w)
  from expand_rvc_ok(3) [OF executes_rvc(3) decode_encodes [OF executes_rvc(4), of i]] obtain k where
    k: "decode_inst i d = Inr k" "rvc k" "same_op k j" by auto
  have "wf_inst k" using ok_allD [OF decode_inst_wf [OF assms(2)] k(1)] .
  moreover have "inst_len k = 2" using k(2) by (simp add: inst_len_def)
  ultimately show ?thesis
    using executes_rvc k fexec_same_op [OF k(3)] access_fault_same_op [OF k(3)] by blast
qed

lemma interp_step_follows:
  assumes "regs_ok i" "isa_step (arch_of s) c"
  shows "\<exists>r. interp_step (s, i) = Inr r \<and> follows s c r"
  using assms(2)
proof (cases rule: isa_step.cases)
  case (isa_step m p j n g f)
  then have s: "m = mem s" "p = pc s" "arch_of s = ((p, g, m), f)" by (simp_all add: arch_of_def)
  from executes_decode [OF isa_step(2) assms(1)] obtain w k where
    "fetches m p w" "decode_inst i w = Inr k" "wf_inst k" "isa_fexec k (inst_len k) ((p, g, m), f) c"
    using isa_step(3) by blast
  then show ?thesis using interp_step_fexec [of s w i k c] s by simp
qed

lemma interp_step_faults:
  assumes "regs_ok i" "isa_faults (arch_of s) x"
  shows "interp_step (s, i) = Inl (Segv x)"
  using assms(2)
proof (cases rule: isa_faults.cases)
  case (fault_fetch m p g f)
  then show ?thesis by (simp add: interp_step_def arch_of_def)
next
  case (fault_access m p j n g f)
  then have s: "m = mem s" "p = pc s" "g = gp_regs s" "f = fp_regs s" by (simp_all add: arch_of_def)
  from executes_decode [OF fault_access(2) assms(1)] fault_access(3) obtain w k where
    "fetches m p w" "decode_inst i w = Inr k" "wf_inst k" "access_fault k g m f x" by blast
  then show ?thesis using interp_step_access_fault [of s w i k x] s by (simp add: wf_inst_def)
qed

section \<open>Runs of the machine\<close>

lemma c_loop_unfold:
  "body s = Some (Inr (Next s')) \<Longrightarrow> c_loop body s = c_loop body s'"
  "body s = Some (Inr (Break r)) \<Longrightarrow> c_loop body s = Some (Inr r)"
  by (simp_all add: c_loop.simps [of body s])

lemma machine_step_cong:
  "c_loop machine_step_body m = c_loop machine_step_body m' \<Longrightarrow> machine_step m = machine_step m'"
  by (simp add: machine_step_def)

lemma exec_block_break:
  "interp_step (s, i) = Inr (Break r) \<Longrightarrow> exec_block_interp (s, i) = Some (Inr r)"
  unfolding exec_block_interp_def by (rule c_loop_unfold) simp

lemma machine_body_next:
  assumes "interp_step ((state m)\<lparr>exit_reason := none\<rparr>, interp_inst m) = Inr (Next (s', i'))"
    and "exit_reason s' = none"
  shows "machine_step_body m = machine_step_body (m\<lparr>state := s', interp_inst := i'\<rparr>)"
proof -
  have "exec_block_interp ((state m)\<lparr>exit_reason := none\<rparr>, interp_inst m) = exec_block_interp (s', i')"
    unfolding exec_block_interp_def by (rule c_loop_unfold) (simp add: assms(1))
  moreover have "s'\<lparr>exit_reason := none\<rparr> = s'" using assms(2) by (cases s') simp
  ultimately show ?thesis
    by (simp add: machine_step_body_def Let_def split: option.split sum.split)
qed

lemma machine_body_branch:
  assumes "interp_step ((state m)\<lparr>exit_reason := none\<rparr>, interp_inst m) = Inr (Break (s', i'))"
    and "exit_reason s' = direct_branch \<or> exit_reason s' = indirect_branch"
  shows "machine_step_body m =
    Some (Inr (Next (m\<lparr>state := s'\<lparr>pc := reenter_pc s'\<rparr>, interp_inst := i'\<rparr>)))"
  using assms(2) exec_block_break [OF assms(1)] by (auto simp: machine_step_body_def Let_def)

text \<open>
  The loop over blocks follows the steps of the reference machine: a branch ends its iteration, any other
  instruction leaves the machine in the block, \<open>stays_in_block m m'\<close>.
\<close>

definition stays_in_block :: "'w machine_t \<Rightarrow> 'w machine_t \<Rightarrow> bool" where
  "stays_in_block m m' \<longleftrightarrow> (\<exists>s i. interp_step ((state m)\<lparr>exit_reason := none\<rparr>, interp_inst m) = Inr (Next (s, i)) \<and>
     exit_reason s = none \<and> m' = m\<lparr>state := s, interp_inst := i\<rparr>)"

text \<open>The machine stands for an architectural state, and has the host side of the one it comes from.\<close>

definition stands_for :: "'w machine_t \<Rightarrow> 'w machine_t \<Rightarrow> arch \<Rightarrow> bool" where
  "stands_for m0 m c \<longleftrightarrow> arch_of (state m) = c \<and> regs_ok (interp_inst m) \<and> same_host_side m0 m"

lemma stands_for_refl: "regs_ok (interp_inst m) \<Longrightarrow> stands_for m m (arch_of (state m))"
  by (simp add: stands_for_def same_host_side_def)

lemma machine_body_match:
  fixes m :: "'w machine_t"
  assumes "stands_for m0 m c" "isa_step c c'"
  shows "\<exists>m'. stands_for m0 m' c' \<and> (stays_in_block m m' \<or> machine_step_body m = Some (Inr (Next m')))"
proof -
  let ?s = "(state m)\<lparr>exit_reason := none\<rparr>"
  have ok: "regs_ok (interp_inst m)" and c: "c = arch_of ?s" and host: "same_host_side m0 m"
    using assms(1) by (simp_all add: stands_for_def arch_of_def)
  from interp_step_follows [OF ok assms(2) [unfolded c]] obtain r where
    r: "interp_step (?s, interp_inst m) = Inr r" "follows ?s c' r" by blast
  show ?thesis
  proof (cases r)
    case (Next x)
    obtain s' i' where x: "x = (s', i')" by (cases x)
    with r Next host show ?thesis
      by (intro exI [of _ "m\<lparr>state := s', interp_inst := i'\<rparr>"])
        (simp add: follows_def stands_for_def stays_in_block_def same_host_side_def)
  next
    case (Break x)
    obtain s' i' where x: "x = (s', i')" by (cases x)
    with r Break host machine_body_branch [of m s' i'] show ?thesis
      by (intro exI [of _ "m\<lparr>state := s'\<lparr>pc := reenter_pc s'\<rparr>, interp_inst := i'\<rparr>"])
        (auto simp: follows_def stands_for_def same_host_side_def arch_of_def)
  qed
qed

lemma block_forever:
  assumes "\<forall>k. stays_in_block (\<mu> k) (\<mu> (Suc k))"
  shows "machine_step_body (\<mu> 0) = None"
proof -
  let ?\<nu> = "\<lambda>k. ((state (\<mu> k))\<lparr>exit_reason := none\<rparr>, interp_inst (\<mu> k))"
  have "interp_step (?\<nu> k) = Inr (Next (?\<nu> (Suc k)))" for k
  proof -
    from assms obtain s i where si: "interp_step (?\<nu> k) = Inr (Next (s, i))" "exit_reason s = none"
      "\<mu> (Suc k) = (\<mu> k)\<lparr>state := s, interp_inst := i\<rparr>" unfolding stays_in_block_def by blast
    moreover have "s\<lparr>exit_reason := none\<rparr> = s" using si(2) by (cases s) simp
    ultimately show ?thesis by simp
  qed
  with c_loop_forever [of "\<lambda>x. Some (interp_step x)" ?\<nu>] have "exec_block_interp (?\<nu> 0) = None"
    by (simp add: exec_block_interp_def)
  then show ?thesis by (simp add: machine_step_body_def)
qed

interpretation blocks: loop_simulation machine_step_body "stands_for m0" isa_step stays_in_block for m0
proof
  show "machine_step_body m = machine_step_body m'" if "stays_in_block m m'" for m m' :: "'a machine_t"
    using that machine_body_next by (auto simp: stays_in_block_def)
qed (rule block_forever machine_body_match; assumption)+

text \<open>A run of the reference machine keeps what \<open>machine_step\<close> returns.\<close>

lemma machine_runs:
  fixes m :: "'w machine_t"
  assumes "isa_step\<^sup>*\<^sup>* (arch_of (state m)) c" "regs_ok (interp_inst m)"
  shows "\<exists>m'. stands_for m m' c \<and> machine_step m = machine_step m'"
  using blocks.loop_run [OF assms(1) stands_for_refl [OF assms(2)]] machine_step_cong by blast

lemma decode_ecall: "decode_inst i 0x73 = Inr (i\<lparr>itype := inst_ecall, continue_exec := True\<rparr>)"
  by (simp add: decode_inst_def decode_q3_def decode_system_def ret_jump_def field_defs)

lemma interp_ecall:
  assumes "fetches (mem s) (pc s) 0x73" "regs_ok i"
  shows "interp_step (s, i) = Inr (Break (s\<lparr>exit_reason := ecall, reenter_pc := pc s + 4,
    gp_regs := (gp_regs s)(reg_zero := 0)\<rparr>, i\<lparr>itype := inst_ecall, continue_exec := True\<rparr>))"
proof -
  let ?j = "i\<lparr>itype := inst_ecall, continue_exec := True\<rparr>"
  have "regs_ok ?j" using assms(2) by (simp add: regs_ok_def)
  from interp_break [OF assms(1) decode_ecall dispatch_jumps(3) [OF this]] show ?thesis by simp
qed

text \<open>
  Every run of the reference machine to a system call is a call of \<open>machine_step\<close>, which
  returns, with the registers and the memory of that run.
\<close>

lemma machine_step_to_ecall:
  fixes m :: "'w machine_t"
  assumes "isa_step\<^sup>*\<^sup>* (arch_of (state m)) ((p, g, mm), f)" "fetches mm p 0x73" "regs_ok (interp_inst m)"
  shows "\<exists>m'. machine_step m = Some (Inr (m', ecall)) \<and> arch_of (state m') = ((p + 4, g(reg_zero := 0), mm), f) \<and>
    regs_ok (interp_inst m') \<and> same_host_side m m'"
proof -
  from machine_runs [OF assms(1,3)] obtain m1 where
    m1: "stands_for m m1 ((p, g, mm), f)" "machine_step m = machine_step m1" by blast
  let ?s = "(state m1)\<lparr>exit_reason := none\<rparr>"
  have ok: "fetches (mem ?s) (pc ?s) 0x73" "regs_ok (interp_inst m1)"
    using m1 assms(2) by (simp_all add: stands_for_def arch_of_def)
  have "\<exists>m2. machine_step_body m1 = Some (Inr (Break m2)) \<and> exit_reason (state m2) = ecall \<and>
      arch_of ((state m2)\<lparr>pc := reenter_pc (state m2)\<rparr>) = ((p + 4, g(reg_zero := 0), mm), f) \<and>
      regs_ok (interp_inst m2) \<and> same_host_side m1 m2"
    using m1(1) ok(2) exec_block_break [OF interp_ecall [OF ok]]
    by (simp add: machine_step_body_def Let_def stands_for_def arch_of_def same_host_side_def regs_ok_def)
  then obtain m2 where m2: "c_loop machine_step_body m1 = Some (Inr m2)" "exit_reason (state m2) = ecall"
    "arch_of ((state m2)\<lparr>pc := reenter_pc (state m2)\<rparr>) = ((p + 4, g(reg_zero := 0), mm), f)"
    "regs_ok (interp_inst m2)" "same_host_side m1 m2"
    using c_loop_unfold(2) [of machine_step_body m1] by blast
  with m1 show ?thesis
    by (auto simp: machine_step_def [of m1] stands_for_def same_host_side_def Let_def)
qed

text \<open>A run to an access the memory does not allow ends the process at the address of that access.\<close>

lemma machine_step_to_fault:
  fixes m :: "'w machine_t"
  assumes "isa_step\<^sup>*\<^sup>* (arch_of (state m)) c" "isa_faults c x" "regs_ok (interp_inst m)"
  shows "machine_step m = Some (Inl (Segv x))"
proof -
  from machine_runs [OF assms(1,3)] obtain m1 where
    m1: "stands_for m m1 c" "machine_step m = machine_step m1" by blast
  let ?s = "(state m1)\<lparr>exit_reason := none\<rparr>"
  have "regs_ok (interp_inst m1)" "isa_faults (arch_of ?s) x"
    using m1(1) assms(2) by (simp_all add: stands_for_def arch_of_def)
  from interp_step_faults [OF this] have "exec_block_interp (?s, interp_inst m1) = Some (Inl (Segv x))"
    by (simp add: exec_block_interp_def c_loop.simps [of "\<lambda>x. Some (interp_step x)"])
  then have "machine_step_body m1 = Some (Inl (Segv x))" by (simp add: machine_step_body_def)
  then show ?thesis unfolding m1(2) by (simp add: machine_step_def c_loop.simps [of machine_step_body])
qed

text \<open>A run without end never returns from \<open>machine_step\<close>.\<close>

lemma machine_step_diverges:
  fixes m :: "'w machine_t"
  assumes "\<forall>k. isa_step (\<sigma> k) (\<sigma> (Suc k))" "\<sigma> 0 = arch_of (state m)" "regs_ok (interp_inst m)"
  shows "machine_step m = None"
  using blocks.loop_endless [OF assms(1), of m m] stands_for_refl [OF assms(3)] assms(2)
  by (simp add: machine_step_def)

end
