(* ===== verification/Syscall.thy ===== *)
theory Syscall
  imports Machine
begin

text \<open>
  The system calls of \<open>syscall.c\<close> and the loop of \<open>main\<close> in \<open>rvemu.c\<close>. A call the
  emulator passes on to the host is an element of \<open>int_call\<close> or \<open>long_call\<close>, with its
  arguments after the C conversions; what the host does with it is the argument \<open>os\<close> of the
  definitions.
\<close>

section \<open>The host's system calls\<close>

text \<open>Calls that return \<open>int\<close>, and calls that return \<open>ssize_t\<close> or \<open>off_t\<close>.\<close>

datatype int_call =
    Close i32
  | Fstat i32 u64
  | Gettimeofday u64 u64
  | Openat i32 u64 i32 u64
  | Open u64 i32 u32

datatype long_call =
    Write i32 u64 u64
  | Lseek i32 i64 i32
  | Read i32 u64 u64

record 'w os_t =
  int_call :: "int_call \<Rightarrow> mem_t \<Rightarrow> 'w \<Rightarrow> i32 \<times> mem_t \<times> 'w"
  long_call :: "long_call \<Rightarrow> mem_t \<Rightarrow> 'w \<Rightarrow> i64 \<times> mem_t \<times> 'w"

definition do_int_call :: "'w os_t \<Rightarrow> int_call \<Rightarrow> 'w machine_t \<Rightarrow> (u64 \<times> 'w machine_t) res" where
  "do_int_call os c m =
     (let (r, mem', w) = int_call os c (mem (state m)) (world m)
      in Inr (scast r, m\<lparr>state := (state m)\<lparr>mem := mem'\<rparr>, world := w\<rparr>))"

definition do_long_call :: "'w os_t \<Rightarrow> long_call \<Rightarrow> 'w machine_t \<Rightarrow> (u64 \<times> 'w machine_t) res" where
  "do_long_call os c m =
     (let (r, mem', w) = long_call os c (mem (state m)) (world m)
      in Inr (r, m\<lparr>state := (state m)\<lparr>mem := mem'\<rparr>, world := w\<rparr>))"

section \<open>Numbers\<close>

named_theorems sys_defs \<open>system call numbers\<close>

definition SYS_exit :: u64 where [sys_defs]: "SYS_exit = 93"

definition SYS_exit_group :: u64 where [sys_defs]: "SYS_exit_group = 94"

definition SYS_read :: u64 where [sys_defs]: "SYS_read = 63"

definition SYS_pread :: u64 where [sys_defs]: "SYS_pread = 67"

definition SYS_write :: u64 where [sys_defs]: "SYS_write = 64"

definition SYS_openat :: u64 where [sys_defs]: "SYS_openat = 56"

definition SYS_close :: u64 where [sys_defs]: "SYS_close = 57"

definition SYS_fstat :: u64 where [sys_defs]: "SYS_fstat = 80"

definition SYS_statx :: u64 where [sys_defs]: "SYS_statx = 291"

definition SYS_lseek :: u64 where [sys_defs]: "SYS_lseek = 62"

definition SYS_fstatat :: u64 where [sys_defs]: "SYS_fstatat = 79"

definition SYS_linkat :: u64 where [sys_defs]: "SYS_linkat = 37"

definition SYS_unlinkat :: u64 where [sys_defs]: "SYS_unlinkat = 35"

definition SYS_mkdirat :: u64 where [sys_defs]: "SYS_mkdirat = 34"

definition SYS_renameat :: u64 where [sys_defs]: "SYS_renameat = 38"

definition SYS_getcwd :: u64 where [sys_defs]: "SYS_getcwd = 17"

definition SYS_brk :: u64 where [sys_defs]: "SYS_brk = 214"

definition SYS_uname :: u64 where [sys_defs]: "SYS_uname = 160"

definition SYS_getpid :: u64 where [sys_defs]: "SYS_getpid = 172"

definition SYS_getuid :: u64 where [sys_defs]: "SYS_getuid = 174"

definition SYS_geteuid :: u64 where [sys_defs]: "SYS_geteuid = 175"

definition SYS_getgid :: u64 where [sys_defs]: "SYS_getgid = 176"

definition SYS_getegid :: u64 where [sys_defs]: "SYS_getegid = 177"

definition SYS_gettid :: u64 where [sys_defs]: "SYS_gettid = 178"

definition SYS_tgkill :: u64 where [sys_defs]: "SYS_tgkill = 131"

definition SYS_mmap :: u64 where [sys_defs]: "SYS_mmap = 222"

definition SYS_munmap :: u64 where [sys_defs]: "SYS_munmap = 215"

definition SYS_mremap :: u64 where [sys_defs]: "SYS_mremap = 216"

definition SYS_mprotect :: u64 where [sys_defs]: "SYS_mprotect = 226"

definition SYS_rt_sigaction :: u64 where [sys_defs]: "SYS_rt_sigaction = 134"

definition SYS_gettimeofday :: u64 where [sys_defs]: "SYS_gettimeofday = 169"

definition SYS_times :: u64 where [sys_defs]: "SYS_times = 153"

definition SYS_writev :: u64 where [sys_defs]: "SYS_writev = 66"

definition SYS_faccessat :: u64 where [sys_defs]: "SYS_faccessat = 48"

definition SYS_fcntl :: u64 where [sys_defs]: "SYS_fcntl = 25"

definition SYS_ftruncate :: u64 where [sys_defs]: "SYS_ftruncate = 46"

definition SYS_getdents :: u64 where [sys_defs]: "SYS_getdents = 61"

definition SYS_dup :: u64 where [sys_defs]: "SYS_dup = 23"

definition SYS_dup3 :: u64 where [sys_defs]: "SYS_dup3 = 24"

definition SYS_rt_sigprocmask :: u64 where [sys_defs]: "SYS_rt_sigprocmask = 135"

definition SYS_clock_gettime :: u64 where [sys_defs]: "SYS_clock_gettime = 113"

definition SYS_chdir :: u64 where [sys_defs]: "SYS_chdir = 49"

definition SYS_open :: u64 where [sys_defs]: "SYS_open = 1024"

definition SYS_link :: u64 where [sys_defs]: "SYS_link = 1025"

definition SYS_unlink :: u64 where [sys_defs]: "SYS_unlink = 1026"

definition SYS_mkdir :: u64 where [sys_defs]: "SYS_mkdir = 1030"

definition SYS_access :: u64 where [sys_defs]: "SYS_access = 1033"

definition SYS_stat :: u64 where [sys_defs]: "SYS_stat = 1038"

definition SYS_lstat :: u64 where [sys_defs]: "SYS_lstat = 1039"

definition SYS_time :: u64 where [sys_defs]: "SYS_time = 1062"

text \<open>Numbers that are named in the source and in neither table.\<close>

definition SYS_kill :: u64 where [sys_defs]: "SYS_kill = 129"

definition SYS_pwrite :: u64 where [sys_defs]: "SYS_pwrite = 68"

definition SYS_sysinfo :: u64 where [sys_defs]: "SYS_sysinfo = 179"

definition SYS_prlimit64 :: u64 where [sys_defs]: "SYS_prlimit64 = 261"

definition SYS_getmainvars :: u64 where [sys_defs]: "SYS_getmainvars = 2011"

definition SYS_readlinkat :: u64 where [sys_defs]: "SYS_readlinkat = 78"

definition SYS_ioctl :: u64 where [sys_defs]: "SYS_ioctl = 29"

definition SYS_getrlimit :: u64 where [sys_defs]: "SYS_getrlimit = 163"

definition SYS_setrlimit :: u64 where [sys_defs]: "SYS_setrlimit = 164"

definition SYS_getrusage :: u64 where [sys_defs]: "SYS_getrusage = 165"

definition SYS_set_tid_address :: u64 where [sys_defs]: "SYS_set_tid_address = 96"

definition SYS_set_robust_list :: u64 where [sys_defs]: "SYS_set_robust_list = 99"

definition SYS_madvise :: u64 where [sys_defs]: "SYS_madvise = 233"

definition OLD_SYSCALL_THRESHOLD :: u64 where [sys_defs]: "OLD_SYSCALL_THRESHOLD = 1024"

text \<open>The largest designated index plus one gives the size of each table.\<close>

definition syscall_table_size :: u64 where [sys_defs]: "syscall_table_size = 292"

definition old_syscall_table_size :: u64 where [sys_defs]: "old_syscall_table_size = 39"

section \<open>Handlers\<close>

type_synonym 'w syscall_t = "'w machine_t \<Rightarrow> (u64 \<times> 'w machine_t) res"

text \<open>\<open>GET(reg, name)\<close>\<close>

definition GET :: "'w machine_t \<Rightarrow> nat \<Rightarrow> (u64 \<Rightarrow> 'a res) \<Rightarrow> 'a res" where
  "GET m reg k = bindE (machine_get_gp_reg m reg) k"

definition sys_unimplemented :: "'w syscall_t" where
  "sys_unimplemented m = GET m reg_a7 (\<lambda>n. Inl (Fatal (''unimplemented syscall: '' @ show_nat (unat n))))"

definition sys_exit :: "'w syscall_t" where
  "sys_exit m = GET m reg_a0 (\<lambda>code. Inl (Exit (ucast code)))"

definition sys_close :: "'w os_t \<Rightarrow> 'w syscall_t" where
  "sys_close os m = GET m reg_a0 (\<lambda>fd. if fd > 2 then do_int_call os (Close (ucast fd)) m else Inr (0, m))"

definition sys_write :: "'w os_t \<Rightarrow> 'w syscall_t" where
  "sys_write os m = GET m reg_a0 (\<lambda>fd. GET m reg_a1 (\<lambda>ptr. GET m reg_a2 (\<lambda>len.
     do_long_call os (Write (ucast fd) (TO_HOST ptr) len) m)))"

definition sys_fstat :: "'w os_t \<Rightarrow> 'w syscall_t" where
  "sys_fstat os m = GET m reg_a0 (\<lambda>fd. GET m reg_a1 (\<lambda>addr.
     do_int_call os (Fstat (ucast fd) (TO_HOST addr)) m))"

definition sys_gettimeofday :: "'w os_t \<Rightarrow> 'w syscall_t" where
  "sys_gettimeofday os m = GET m reg_a0 (\<lambda>tv_addr. GET m reg_a1 (\<lambda>tz_addr.
     let tv = TO_HOST tv_addr; tz = (if tz_addr \<noteq> 0 then TO_HOST tz_addr else 0)
     in do_int_call os (Gettimeofday tv tz) m))"

definition sys_brk :: "host_t \<Rightarrow> 'w syscall_t" where
  "sys_brk h m = GET m reg_a0 (\<lambda>a.
     let addr = (if a = 0 then guest_alloc (mmu m) else a) in
     if addr < base (mmu m) then Inl (Assert_Fail ''addr >= m->mmu.base'')
     else let incr = addr - guest_alloc (mmu m) in
       bindE (machine_alloc h m incr) (\<lambda>(_, m'). Inr (addr, m')))"

section \<open>Open flags\<close>

text \<open>Newlib's values, from the source, and those of the host, Linux on x86-64.\<close>

definition NEWLIB_O_RDONLY :: u32 where "NEWLIB_O_RDONLY = 0x0"

definition NEWLIB_O_WRONLY :: u32 where "NEWLIB_O_WRONLY = 0x1"

definition NEWLIB_O_RDWR :: u32 where "NEWLIB_O_RDWR = 0x2"

definition NEWLIB_O_APPEND :: u32 where "NEWLIB_O_APPEND = 0x8"

definition NEWLIB_O_CREAT :: u32 where "NEWLIB_O_CREAT = 0x200"

definition NEWLIB_O_TRUNC :: u32 where "NEWLIB_O_TRUNC = 0x400"

definition NEWLIB_O_EXCL :: u32 where "NEWLIB_O_EXCL = 0x800"

definition O_RDONLY :: u32 where "O_RDONLY = 0"

definition O_WRONLY :: u32 where "O_WRONLY = 1"

definition O_RDWR :: u32 where "O_RDWR = 2"

definition O_CREAT :: u32 where "O_CREAT = 0x40"

definition O_EXCL :: u32 where "O_EXCL = 0x80"

definition O_TRUNC :: u32 where "O_TRUNC = 0x200"

definition O_APPEND :: u32 where "O_APPEND = 0x400"

definition REWRITE_FLAG :: "u32 \<Rightarrow> u32 \<Rightarrow> u32 \<Rightarrow> u32 \<Rightarrow> u32" where
  "REWRITE_FLAG flags newlib flag hostflags =
     (if flags AND newlib \<noteq> 0 then hostflags OR flag else hostflags)"

definition convert_flags :: "u32 \<Rightarrow> u32" where
  "convert_flags flags =
     (let hostflags = 0;
          hostflags = REWRITE_FLAG flags NEWLIB_O_RDONLY O_RDONLY hostflags;
          hostflags = REWRITE_FLAG flags NEWLIB_O_WRONLY O_WRONLY hostflags;
          hostflags = REWRITE_FLAG flags NEWLIB_O_RDWR O_RDWR hostflags;
          hostflags = REWRITE_FLAG flags NEWLIB_O_APPEND O_APPEND hostflags;
          hostflags = REWRITE_FLAG flags NEWLIB_O_CREAT O_CREAT hostflags;
          hostflags = REWRITE_FLAG flags NEWLIB_O_TRUNC O_TRUNC hostflags;
          hostflags = REWRITE_FLAG flags NEWLIB_O_EXCL O_EXCL hostflags
      in hostflags)"

definition sys_openat :: "'w os_t \<Rightarrow> 'w syscall_t" where
  "sys_openat os m = GET m reg_a0 (\<lambda>dirfd. GET m reg_a1 (\<lambda>nameptr. GET m reg_a2 (\<lambda>flags.
     GET m reg_a3 (\<lambda>mode.
     do_int_call os (Openat (ucast dirfd) (TO_HOST nameptr) (convert_flags (ucast flags)) mode) m))))"

definition sys_open :: "'w os_t \<Rightarrow> 'w syscall_t" where
  "sys_open os m = GET m reg_a0 (\<lambda>nameptr. GET m reg_a1 (\<lambda>flags. GET m reg_a2 (\<lambda>mode.
     do_int_call os (Open (TO_HOST nameptr) (convert_flags (ucast flags)) (ucast mode)) m)))"

definition sys_lseek :: "'w os_t \<Rightarrow> 'w syscall_t" where
  "sys_lseek os m = GET m reg_a0 (\<lambda>fd. GET m reg_a1 (\<lambda>offset. GET m reg_a2 (\<lambda>whence.
     do_long_call os (Lseek (ucast fd) offset (ucast whence)) m)))"

definition sys_read :: "'w os_t \<Rightarrow> 'w syscall_t" where
  "sys_read os m = GET m reg_a0 (\<lambda>fd. GET m reg_a1 (\<lambda>bufptr. GET m reg_a2 (\<lambda>count.
     do_long_call os (Read (ucast fd) (TO_HOST bufptr) count) m)))"

section \<open>Dispatch\<close>

text \<open>
  The tables are arrays with designated initialisers: an index that is not named holds
  \<open>NULL\<close>, here \<open>None\<close>.
\<close>

definition syscall_rows :: "host_t \<Rightarrow> 'w os_t \<Rightarrow> (u64 \<times> 'w syscall_t option) list" where
  "syscall_rows h os = [
    (SYS_exit, Some sys_exit), (SYS_exit_group, Some sys_exit), (SYS_read, Some (sys_read os)),
    (SYS_pread, Some sys_unimplemented), (SYS_write, Some (sys_write os)),
    (SYS_openat, Some (sys_openat os)), (SYS_close, Some (sys_close os)),
    (SYS_fstat, Some (sys_fstat os)), (SYS_statx, Some sys_unimplemented),
    (SYS_lseek, Some (sys_lseek os)), (SYS_fstatat, Some sys_unimplemented),
    (SYS_linkat, Some sys_unimplemented), (SYS_unlinkat, Some sys_unimplemented),
    (SYS_mkdirat, Some sys_unimplemented), (SYS_renameat, Some sys_unimplemented),
    (SYS_getcwd, Some sys_unimplemented), (SYS_brk, Some (sys_brk h)),
    (SYS_uname, Some sys_unimplemented), (SYS_getpid, Some sys_unimplemented),
    (SYS_getuid, Some sys_unimplemented), (SYS_geteuid, Some sys_unimplemented),
    (SYS_getgid, Some sys_unimplemented), (SYS_getegid, Some sys_unimplemented),
    (SYS_gettid, Some sys_unimplemented), (SYS_tgkill, Some sys_unimplemented),
    (SYS_mmap, Some sys_unimplemented), (SYS_munmap, Some sys_unimplemented),
    (SYS_mremap, Some sys_unimplemented), (SYS_mprotect, Some sys_unimplemented),
    (SYS_rt_sigaction, Some sys_unimplemented), (SYS_gettimeofday, Some (sys_gettimeofday os)),
    (SYS_times, Some sys_unimplemented), (SYS_writev, Some sys_unimplemented),
    (SYS_faccessat, Some sys_unimplemented), (SYS_fcntl, Some sys_unimplemented),
    (SYS_ftruncate, Some sys_unimplemented), (SYS_getdents, Some sys_unimplemented),
    (SYS_dup, Some sys_unimplemented), (SYS_dup3, Some sys_unimplemented),
    (SYS_rt_sigprocmask, Some sys_unimplemented), (SYS_clock_gettime, Some sys_unimplemented),
    (SYS_chdir, Some sys_unimplemented)]"

definition syscall_table :: "host_t \<Rightarrow> 'w os_t \<Rightarrow> u64 \<Rightarrow> 'w syscall_t option" where
  "syscall_table h os n = switch n (syscall_rows h os) None"

definition old_syscall_rows :: "'w os_t \<Rightarrow> (u64 \<times> 'w syscall_t option) list" where
  "old_syscall_rows os = [
    (SYS_open, Some (sys_open os)), (SYS_link, Some sys_unimplemented),
    (SYS_unlink, Some sys_unimplemented), (SYS_mkdir, Some sys_unimplemented),
    (SYS_access, Some sys_unimplemented), (SYS_stat, Some sys_unimplemented),
    (SYS_lstat, Some sys_unimplemented), (SYS_time, Some sys_unimplemented)]"

definition old_syscall_table :: "'w os_t \<Rightarrow> u64 \<Rightarrow> 'w syscall_t option" where
  "old_syscall_table os n = switch (n + OLD_SYSCALL_THRESHOLD) (old_syscall_rows os) None"

definition do_syscall :: "host_t \<Rightarrow> 'w os_t \<Rightarrow> 'w machine_t \<Rightarrow> u64 \<Rightarrow> (u64 \<times> 'w machine_t) res" where
  "do_syscall h os m n =
     (let f = (if n < syscall_table_size then syscall_table h os n
               else if n - OLD_SYSCALL_THRESHOLD < old_syscall_table_size
               then old_syscall_table os (n - OLD_SYSCALL_THRESHOLD) else None)
      in case f of None \<Rightarrow> Inl (Fatal ''unknown syscall'') | Some g \<Rightarrow> g m)"

section \<open>main\<close>

definition main_body :: "host_t \<Rightarrow> 'w os_t \<Rightarrow> 'w machine_t \<Rightarrow> ('w machine_t, unit) ctl res option" where
  "main_body h os m =
     map_option (\<lambda>r. bindE r (\<lambda>(m1, exit_reason).
       if exit_reason \<noteq> ecall then Inl (Assert_Fail ''exit_reason == ecall'')
       else bindE (machine_get_gp_reg m1 reg_a7) (\<lambda>syscall_id.
         bindE (do_syscall h os m1 syscall_id) (\<lambda>(syscall_ret, m2).
         bindE (machine_set_gp_reg m2 reg_a0 syscall_ret) (\<lambda>m3. Inr (Next m3))))))
     (machine_step m)"

text \<open>\<open>machine_t machine = { 0 }\<close> over the process's memory \<open>mem0\<close> and world \<open>w0\<close>.\<close>

definition machine_zero :: "mem_t \<Rightarrow> 'w \<Rightarrow> 'w machine_t" where
  "machine_zero mem0 w0 =
     \<lparr>state = \<lparr>exit_reason = none, reenter_pc = 0, gp_regs = (\<lambda>_. 0), fp_regs = (\<lambda>_. 0), pc = 0,
        mem = mem0, stderr_log = []\<rparr>,
      mmu = mmu_zero, interp_inst = inst_zero, world = w0\<rparr>"

definition main ::
  "host_t \<Rightarrow> 'w os_t \<Rightarrow> u8 list \<Rightarrow> u32 \<Rightarrow> (u8 list \<Rightarrow> u8 list option) \<Rightarrow> mem_t \<Rightarrow> 'w \<Rightarrow> u8 list list
   \<Rightarrow> unit res option" where
  "main h os stack pad fs mem0 w0 argv =
     (if \<not> length argv > 1 then Some (Inl (Assert_Fail ''argc > 1''))
      else case bindE (machine_load_program h stack (machine_zero mem0 w0) (fs (argv ! 1))) (\<lambda>m.
          machine_setup h pad m argv) of
        Inl e \<Rightarrow> Some (Inl e)
      | Inr m \<Rightarrow> c_loop (main_body h os) m)"

section \<open>Numbers the tables know\<close>

definition implemented_numbers :: "u64 list" where
  "implemented_numbers =
    [SYS_exit, SYS_exit_group, SYS_read, SYS_write, SYS_openat, SYS_close, SYS_fstat,
     SYS_lseek, SYS_brk, SYS_gettimeofday, SYS_open]"

definition unimplemented_numbers :: "u64 list" where
  "unimplemented_numbers =
    [SYS_pread, SYS_statx, SYS_fstatat, SYS_linkat, SYS_unlinkat, SYS_mkdirat, SYS_renameat,
     SYS_getcwd, SYS_uname, SYS_getpid, SYS_getuid, SYS_geteuid, SYS_getgid, SYS_getegid,
     SYS_gettid, SYS_tgkill, SYS_mmap, SYS_munmap, SYS_mremap, SYS_mprotect, SYS_rt_sigaction,
     SYS_times, SYS_writev, SYS_faccessat, SYS_fcntl, SYS_ftruncate, SYS_getdents, SYS_dup,
     SYS_dup3, SYS_rt_sigprocmask, SYS_clock_gettime, SYS_chdir, SYS_link, SYS_unlink,
     SYS_mkdir, SYS_access, SYS_stat, SYS_lstat, SYS_time]"

lemma switch_unknown: "k \<notin> fst ` set cs \<Longrightarrow> switch k cs d = d"
  by (simp add: switch_def map_of_eq_None_iff [symmetric])

lemma do_syscall_unknown:
  assumes "n \<notin> set implemented_numbers" "n \<notin> set unimplemented_numbers"
  shows "do_syscall h os m n = Inl (Fatal ''unknown syscall'')"
proof -
  have "fst ` set (syscall_rows h os) \<union> fst ` set (old_syscall_rows os)
      \<subseteq> set implemented_numbers \<union> set unimplemented_numbers"
    by (simp add: implemented_numbers_def unimplemented_numbers_def syscall_rows_def old_syscall_rows_def)
  with assms have "switch n (syscall_rows h os) None = None" "switch n (old_syscall_rows os) None = None"
    by (auto intro!: switch_unknown)
  then show ?thesis by (simp add: do_syscall_def syscall_table_def old_syscall_table_def)
qed

lemma do_syscall_unimplemented:
  assumes "n \<in> set unimplemented_numbers"
  shows "do_syscall h os m n = Inl (Fatal (''unimplemented syscall: '' @ show_nat (unat (gp_regs (state m) reg_a7))))"
proof -
  have "sys_unimplemented m = Inl (Fatal (''unimplemented syscall: '' @ show_nat (unat (gp_regs (state m) reg_a7))))"
    by (simp add: sys_unimplemented_def GET_def machine_get_gp_reg_def rv_enum)
  moreover have "list_all (\<lambda>n. do_syscall h os m n = sys_unimplemented m) unimplemented_numbers"
    unfolding unimplemented_numbers_def list.pred_inject
    by (intro conjI TrueI; simp add: do_syscall_def syscall_table_def old_syscall_table_def syscall_rows_def
        old_syscall_rows_def sys_defs)
  ultimately show ?thesis using assms by (auto simp: list_all_iff)
qed

lemma do_syscall_implemented:
  "do_syscall h os m SYS_exit = sys_exit m" "do_syscall h os m SYS_exit_group = sys_exit m"
  "do_syscall h os m SYS_read = sys_read os m" "do_syscall h os m SYS_write = sys_write os m"
  "do_syscall h os m SYS_openat = sys_openat os m" "do_syscall h os m SYS_close = sys_close os m"
  "do_syscall h os m SYS_fstat = sys_fstat os m" "do_syscall h os m SYS_lseek = sys_lseek os m"
  "do_syscall h os m SYS_brk = sys_brk h m" "do_syscall h os m SYS_gettimeofday = sys_gettimeofday os m"
  "do_syscall h os m SYS_open = sys_open os m"
  by (simp_all add: do_syscall_def syscall_table_def old_syscall_table_def syscall_rows_def
      old_syscall_rows_def sys_defs)

section \<open>Open flags\<close>

lemma bit_REWRITE_FLAG:
  "i < 32 \<Longrightarrow> j < 32 \<Longrightarrow>
   bit (REWRITE_FLAG f (push_bit i 1) (push_bit j 1) x) k \<longleftrightarrow> bit x k \<or> k = j \<and> bit f i"
  by (auto simp: REWRITE_FLAG_def bit_iff_and_push_bit_not_eq_0 [of f i] bit_or_iff bit_push_bit_iff
      bit_1_iff possible_bit_word simp del: push_bit_of_1)

lemma flag_bits:
  "NEWLIB_O_WRONLY = push_bit 0 1" "NEWLIB_O_RDWR = push_bit 1 1" "NEWLIB_O_APPEND = push_bit 3 1"
  "NEWLIB_O_CREAT = push_bit 9 1" "NEWLIB_O_TRUNC = push_bit 10 1" "NEWLIB_O_EXCL = push_bit 11 1"
  "O_WRONLY = push_bit 0 1" "O_RDWR = push_bit 1 1" "O_APPEND = push_bit 10 1"
  "O_CREAT = push_bit 6 1" "O_TRUNC = push_bit 9 1" "O_EXCL = push_bit 7 1"
  by (simp_all add: NEWLIB_O_WRONLY_def NEWLIB_O_RDWR_def NEWLIB_O_APPEND_def NEWLIB_O_CREAT_def
      NEWLIB_O_TRUNC_def NEWLIB_O_EXCL_def O_WRONLY_def O_RDWR_def O_APPEND_def O_CREAT_def O_TRUNC_def
      O_EXCL_def)

lemma bit_flags:
  "bit (REWRITE_FLAG f NEWLIB_O_WRONLY O_WRONLY x) k \<longleftrightarrow> bit x k \<or> k = 0 \<and> bit f 0"
  "bit (REWRITE_FLAG f NEWLIB_O_RDWR O_RDWR x) k \<longleftrightarrow> bit x k \<or> k = 1 \<and> bit f 1"
  "bit (REWRITE_FLAG f NEWLIB_O_APPEND O_APPEND x) k \<longleftrightarrow> bit x k \<or> k = 10 \<and> bit f 3"
  "bit (REWRITE_FLAG f NEWLIB_O_CREAT O_CREAT x) k \<longleftrightarrow> bit x k \<or> k = 6 \<and> bit f 9"
  "bit (REWRITE_FLAG f NEWLIB_O_TRUNC O_TRUNC x) k \<longleftrightarrow> bit x k \<or> k = 9 \<and> bit f 10"
  "bit (REWRITE_FLAG f NEWLIB_O_EXCL O_EXCL x) k \<longleftrightarrow> bit x k \<or> k = 7 \<and> bit f 11"
  unfolding flag_bits by (rule bit_REWRITE_FLAG; simp)+

lemma bit_convert_flags:
  "bit (convert_flags f) k \<longleftrightarrow>
     (k = 0 \<and> bit f 0) \<or> (k = 1 \<and> bit f 1) \<or> (k = 10 \<and> bit f 3) \<or>
     (k = 6 \<and> bit f 9) \<or> (k = 9 \<and> bit f 10) \<or> (k = 7 \<and> bit f 11)"
proof -
  have "REWRITE_FLAG f NEWLIB_O_RDONLY O_RDONLY 0 = 0"
    by (simp add: REWRITE_FLAG_def NEWLIB_O_RDONLY_def)
  then show ?thesis by (auto simp: convert_flags_def Let_def bit_flags)
qed

section \<open>brk\<close>

lemma sys_brk_result:
  assumes "sys_brk h m = Inr (r, m')"
  shows "r = guest_alloc (mmu m') \<and> r = (if gp_regs (state m) reg_a0 = 0 then guest_alloc (mmu m)
      else gp_regs (state m) reg_a0) \<and> base (mmu m) \<le> r"
proof -
  let ?a = "if gp_regs (state m) reg_a0 = 0 then guest_alloc (mmu m) else gp_regs (state m) reg_a0"
  from assms obtain x where x: "machine_alloc h m (?a - guest_alloc (mmu m)) = Inr (x, m')"
    and r: "r = ?a" "\<not> ?a < base (mmu m)"
    by (auto simp: sys_brk_def GET_def machine_get_gp_reg_def rv_enum Let_def elim!: bindE_InrE
        split: if_splits)
  from x have "guest_alloc (mmu m') = guest_alloc (mmu m) + (?a - guest_alloc (mmu m))"
    by (auto simp: machine_alloc_def mmu_alloc_def Let_def elim!: bindE_InrE
        split: if_splits prod.splits option.splits)
  with r show ?thesis by (simp add: not_less)
qed

section \<open>The main loop\<close>

text \<open>
  How the loop ends: never by indexing outside an array, and of all assertions only those of
  the decoder and the one \<open>sys_brk\<close> makes about its argument.
\<close>

definition main_fault :: "error \<Rightarrow> bool" where
  "main_fault e \<longleftrightarrow> (case e of
     Index_Out_Of_Range _ \<Rightarrow> False
   | Assert_Fail m \<Rightarrow> m \<in> set decode_asserts \<or> m = ''addr >= m->mmu.base''
   | _ \<Rightarrow> True)"

lemma main_fault_simps [simp]:
  "main_fault (Fatal x)" "main_fault (Exit c)" "main_fault (Segv a)" "main_fault Div_By_Zero"
  "\<not> main_fault (Index_Out_Of_Range n)"
  "main_fault (Assert_Fail x) \<longleftrightarrow> x \<in> set decode_asserts \<or> x = ''addr >= m->mmu.base''"
  by (simp_all add: main_fault_def)

lemma block_fault_main: "block_fault e \<Longrightarrow> main_fault e"
  by (cases e) (auto simp: block_fault_def)

text \<open>A system call keeps the registers and the program counter, and the break above the image.\<close>

definition break_ok :: "mmu_t \<Rightarrow> bool" where
  "break_ok u \<longleftrightarrow> base u \<le> guest_alloc u"

definition keeps_cpu :: "'w machine_t \<Rightarrow> (u64 \<times> 'w machine_t) res \<Rightarrow> bool" where
  "keeps_cpu m = outcome main_fault (\<lambda>(r, m'). gp_regs (state m') = gp_regs (state m) \<and>
     fp_regs (state m') = fp_regs (state m) \<and> pc (state m') = pc (state m) \<and>
     interp_inst m' = interp_inst m \<and> stderr_log (state m') = stderr_log (state m) \<and>
     base (mmu m') = base (mmu m) \<and> break_ok (mmu m'))"

lemma keeps_cpu_calls:
  "break_ok (mmu m) \<Longrightarrow> keeps_cpu m (do_int_call os c m)"
  "break_ok (mmu m) \<Longrightarrow> keeps_cpu m (do_long_call os d m)"
  by (simp_all add: keeps_cpu_def do_int_call_def do_long_call_def Let_def split: prod.splits)

lemma keeps_cpu_value: "break_ok (mmu m) \<Longrightarrow> keeps_cpu m (Inr (r, m))"
  by (simp add: keeps_cpu_def)

lemma keeps_cpu_GET: "(\<And>v. keeps_cpu m (k v)) \<Longrightarrow> reg < 32 \<Longrightarrow> keeps_cpu m (GET m reg k)"
  by (simp add: GET_def machine_get_gp_reg_def num_gp_regs_def)

lemma mmu_alloc_outcome:
  assumes "break_ok u" "base u \<le> guest_alloc u + sz"
  shows "outcome (\<lambda>e. \<exists>x. e = Fatal x) (\<lambda>(r, u', m'). r = guest_alloc u \<and> base u' = base u \<and>
    guest_alloc u' = guest_alloc u + sz) (mmu_alloc h u m sz)"
  using assms by (auto simp: mmu_alloc_def break_ok_def Let_def split: prod.splits option.splits)

lemma keeps_cpu_brk:
  assumes ok: "break_ok (mmu m)"
  shows "keeps_cpu m (sys_brk h m)"
proof -
  have alloc: "keeps_cpu m (bindE (machine_alloc h m (a - guest_alloc (mmu m))) (\<lambda>(_, m'). Inr (r, m')))"
    if "base (mmu m) \<le> a" for a r
  proof -
    let ?r = "mmu_alloc h (mmu m) (mem (state m)) (a - guest_alloc (mmu m))"
    have "outcome (\<lambda>e. \<exists>x. e = Fatal x) (\<lambda>(r, u', m'). base u' = base (mmu m) \<and> guest_alloc u' = a) ?r"
      using mmu_alloc_outcome [OF ok, of "a - guest_alloc (mmu m)" h "mem (state m)"] that
      by (auto elim!: outcome_mono)
    with that show ?thesis
      by (cases ?r) (auto simp: keeps_cpu_def machine_alloc_def break_ok_def)
  qed
  have "keeps_cpu m (if a < base (mmu m) then Inl (Assert_Fail ''addr >= m->mmu.base'')
      else bindE (machine_alloc h m (a - guest_alloc (mmu m))) (\<lambda>(_, m'). Inr (a, m')))" for a
    using alloc [of a a] by (cases "a < base (mmu m)") (simp_all add: keeps_cpu_def)
  then show ?thesis
    unfolding sys_brk_def Let_def by (rule keeps_cpu_GET) (simp add: rv_enum)
qed

lemma keeps_cpu_handlers:
  assumes "break_ok (mmu m)"
  shows "keeps_cpu m (sys_exit m)" "keeps_cpu m (sys_unimplemented m)" "keeps_cpu m (sys_close os m)"
    "keeps_cpu m (sys_write os m)" "keeps_cpu m (sys_fstat os m)" "keeps_cpu m (sys_gettimeofday os m)"
    "keeps_cpu m (sys_openat os m)" "keeps_cpu m (sys_open os m)" "keeps_cpu m (sys_lseek os m)"
    "keeps_cpu m (sys_read os m)"
  unfolding sys_exit_def sys_unimplemented_def sys_close_def sys_write_def sys_fstat_def
    sys_gettimeofday_def sys_openat_def sys_open_def sys_lseek_def sys_read_def Let_def
  by - (rule keeps_cpu_GET | simp add: keeps_cpu_calls keeps_cpu_value assms rv_enum |
    simp add: keeps_cpu_def)+

lemma keeps_cpu_syscall:
  assumes "break_ok (mmu m)"
  shows "keeps_cpu m (do_syscall h os m n)"
proof -
  consider "n \<in> set implemented_numbers" | "n \<in> set unimplemented_numbers"
    | "n \<notin> set implemented_numbers" "n \<notin> set unimplemented_numbers" by blast
  then show ?thesis
  proof cases
    case 1
    then show ?thesis
      by (auto simp: implemented_numbers_def do_syscall_implemented keeps_cpu_handlers keeps_cpu_brk assms)
  next
    case 2
    then show ?thesis by (simp add: do_syscall_unimplemented keeps_cpu_def)
  next
    case 3
    then show ?thesis by (simp add: do_syscall_unknown keeps_cpu_def)
  qed
qed

text \<open>The outermost loop under the same contract as the two below it.\<close>

definition main_inv :: "'w machine_t \<Rightarrow> bool" where
  "main_inv m \<longleftrightarrow> machine_ok m \<and> break_ok (mmu m)"

lemma main_body_outcome:
  fixes m :: "'w machine_t"
  assumes inv: "main_inv m" and body: "main_body h os m = Some r"
  shows "outcome main_fault (\<lambda>c. \<exists>m'. c = Next m' \<and> main_inv m') r"
proof -
  let ?P = "\<lambda>c :: ('w machine_t, unit) ctl. \<exists>m'. c = Next m' \<and> main_inv m'"
  from body obtain b where b: "machine_step m = Some b" by (auto simp: main_body_def)
  have "outcome block_fault (\<lambda>(m', why). why = ecall \<and> machine_ok m' \<and> break_ok (mmu m')) b"
    using machine_step_outcome [OF _ b] inv by (auto simp: main_inv_def same_host_side_def elim!: outcome_mono)
  then have step: "outcome main_fault (\<lambda>(m', why). why = ecall \<and> machine_ok m' \<and> break_ok (mmu m')) b"
    by (rule outcome_mono) (simp_all add: block_fault_main)
  have call: "outcome main_fault ?P (bindE (do_syscall h os m1 n) (\<lambda>(v, m2).
      bindE (machine_set_gp_reg m2 reg_a0 v) (\<lambda>m3. Inr (Next m3))))"
    if m1: "machine_ok m1" "break_ok (mmu m1)" for m1 :: "'w machine_t" and n
    using keeps_cpu_syscall [OF m1(2), of h os n] m1(1)
    by (cases "do_syscall h os m1 n")
      (auto simp: keeps_cpu_def machine_set_gp_reg_def main_inv_def machine_ok_def cpu_ok_def rv_enum)
  from body b show ?thesis
    using step call by (cases b) (auto simp: main_body_def machine_get_gp_reg_def rv_enum)
qed

interpretation calls: loop_contract "main_body h os" main_inv "\<lambda>_. False" main_fault for h os
proof
  show "main_inv m'" if "main_inv m" "main_body h os m = Some (Inr (Next m'))" for m m'
    using main_body_outcome [OF that] by simp
  show False if "main_inv m" "main_body h os m = Some (Inr (Break r))" for m r
    using main_body_outcome [OF that] by simp
  show "main_fault e" if "main_inv m" "main_body h os m = Some (Inl e)" for m e
    using main_body_outcome [OF that] by simp
qed

end
