(* ===== verification/System.thy ===== *)
theory System
  imports Isa_Step Syscall
begin

text \<open>
  What a program sees of the emulator: the reference machine with its system calls. A state is the
  state of the hart, the break of the allocator and the host's world; a step is an instruction or
  a system call that returns, and \<open>sys_ends\<close> says how a run ends. The loop of \<open>main\<close> does what a run
  of this machine does, over any number of calls.
\<close>

section \<open>Calls\<close>

type_synonym 'w sys = "arch \<times> mmu_t \<times> 'w"

text \<open>
  What the calls ask of the host, by number and the registers \<open>a0\<close> to \<open>a3\<close>: those with an \<open>int\<close>
  result and those with a 64-bit one.
\<close>

definition int_requests :: "(u64 \<times> (u64 \<Rightarrow> u64 \<Rightarrow> u64 \<Rightarrow> u64 \<Rightarrow> int_call)) list" where
  "int_requests = [(SYS_fstat, \<lambda>a b _ _. Fstat (ucast a) (TO_HOST b)),
     (SYS_gettimeofday, \<lambda>a b _ _. Gettimeofday (TO_HOST a) (if b = 0 then 0 else TO_HOST b)),
     (SYS_openat, \<lambda>a b c d. Openat (ucast a) (TO_HOST b) (convert_flags (ucast c)) d),
     (SYS_open, \<lambda>a b c _. Open (TO_HOST a) (convert_flags (ucast b)) (ucast c))]"

definition long_requests :: "(u64 \<times> (u64 \<Rightarrow> u64 \<Rightarrow> u64 \<Rightarrow> long_call)) list" where
  "long_requests = [(SYS_write, \<lambda>a b c. Write (ucast a) (TO_HOST b) c),
     (SYS_lseek, \<lambda>a b c. Lseek (ucast a) b (ucast c)),
     (SYS_read, \<lambda>a b c. Read (ucast a) (TO_HOST b) c)]"

text \<open>The address a call of \<open>brk\<close> asks for: the current break when the argument is zero.\<close>

definition brk_address :: "(nat \<Rightarrow> u64) \<Rightarrow> mmu_t \<Rightarrow> u64" where
  "brk_address g u = (if g reg_a0 = 0 then guest_alloc u else g reg_a0)"

text \<open>
  \<open>serves h os g x v y\<close>: the call of the registers \<open>g\<close> returns \<open>v\<close> and takes memory, allocator and
  world from \<open>x\<close> to \<open>y\<close>. The standard streams are never closed.
\<close>

inductive serves ::
  "host_t \<Rightarrow> 'w os_t \<Rightarrow> (nat \<Rightarrow> u64) \<Rightarrow> mem_t \<times> mmu_t \<times> 'w \<Rightarrow> u64 \<Rightarrow> mem_t \<times> mmu_t \<times> 'w \<Rightarrow> bool"
  for h os g where
  serve_int: "(g reg_a7, q) \<in> set int_requests \<Longrightarrow>
    int_call os (q (g reg_a0) (g reg_a1) (g reg_a2) (g reg_a3)) m w = (r, m', w') \<Longrightarrow>
    serves h os g (m, u, w) (scast r) (m', u, w')"
| serve_long: "(g reg_a7, q) \<in> set long_requests \<Longrightarrow>
    long_call os (q (g reg_a0) (g reg_a1) (g reg_a2)) m w = (r, m', w') \<Longrightarrow>
    serves h os g (m, u, w) r (m', u, w')"
| serve_close_std: "g reg_a7 = SYS_close \<Longrightarrow> g reg_a0 \<le> 2 \<Longrightarrow> serves h os g (m, u, w) 0 (m, u, w)"
| serve_close: "g reg_a7 = SYS_close \<Longrightarrow> 2 < g reg_a0 \<Longrightarrow>
    int_call os (Close (ucast (g reg_a0))) m w = (r, m', w') \<Longrightarrow>
    serves h os g (m, u, w) (scast r) (m', u, w')"
| serve_brk: "g reg_a7 = SYS_brk \<Longrightarrow> a = brk_address g u \<Longrightarrow> base u \<le> a \<Longrightarrow>
    mmu_alloc h u m (a - guest_alloc u) = Inr (old, u', m') \<Longrightarrow>
    serves h os g (m, u, w) a (m', u', w)"

text \<open>\<open>refuses h g m u e\<close>: the call ends the emulator, with \<open>e\<close>.\<close>

inductive refuses :: "host_t \<Rightarrow> (nat \<Rightarrow> u64) \<Rightarrow> mem_t \<Rightarrow> mmu_t \<Rightarrow> error \<Rightarrow> bool" for h g where
  refuse_exit: "g reg_a7 \<in> {SYS_exit, SYS_exit_group} \<Longrightarrow> refuses h g m u (Exit (ucast (g reg_a0)))"
| refuse_unimplemented: "g reg_a7 \<in> set unimplemented_numbers \<Longrightarrow>
    refuses h g m u (Fatal (''unimplemented syscall: '' @ show_nat (unat (g reg_a7))))"
| refuse_unknown: "g reg_a7 \<notin> set implemented_numbers \<Longrightarrow> g reg_a7 \<notin> set unimplemented_numbers \<Longrightarrow>
    refuses h g m u (Fatal ''unknown syscall'')"
| refuse_brk_below: "g reg_a7 = SYS_brk \<Longrightarrow> brk_address g u < base u \<Longrightarrow>
    refuses h g m u (Assert_Fail ''addr >= m->mmu.base'')"
| refuse_brk: "g reg_a7 = SYS_brk \<Longrightarrow> a = brk_address g u \<Longrightarrow> base u \<le> a \<Longrightarrow>
    mmu_alloc h u m (a - guest_alloc u) = Inl e \<Longrightarrow> refuses h g m u e"

section \<open>Steps and ends\<close>

inductive sys_step :: "host_t \<Rightarrow> 'w os_t \<Rightarrow> 'w sys \<Rightarrow> 'w sys \<Rightarrow> bool" for h os where
  sys_instruction: "isa_step c c' \<Longrightarrow> sys_step h os (c, u, w) (c', u, w)"
| sys_call: "fetches m p 0x73 \<Longrightarrow> serves h os g (m, u, w) v (m', u', w') \<Longrightarrow>
    sys_step h os (((p, g, m), f), u, w) (((p + 4, g(reg_zero := 0, reg_a0 := v), m'), f), u', w')"

inductive sys_ends :: "host_t \<Rightarrow> 'w sys \<Rightarrow> error \<Rightarrow> bool" for h where
  end_fault: "isa_faults c x \<Longrightarrow> sys_ends h (c, u, w) (Segv x)"
| end_call: "fetches m p 0x73 \<Longrightarrow> refuses h g m u e \<Longrightarrow> sys_ends h (((p, g, m), f), u, w) e"

text \<open>Every call returns or ends the emulator.\<close>

lemma brk_total: "g reg_a7 = SYS_brk \<Longrightarrow> (\<exists>v y. serves h os g (m, u, w) v y) \<or> (\<exists>e. refuses h g m u e)"
proof -
  assume brk: "g reg_a7 = SYS_brk"
  show ?thesis
  proof (cases "mmu_alloc h u m (brk_address g u - guest_alloc u)")
    case (Inr r)
    with brk show ?thesis
      by (cases r) (meson not_le refuse_brk_below serve_brk)
  next
    case (Inl e)
    with brk show ?thesis by (meson not_le refuse_brk refuse_brk_below)
  qed
qed

lemma call_total: "(\<exists>v y. serves h os g (m, u, w) v y) \<or> (\<exists>e. refuses h g m u e)"
proof -
  let ?args = "\<lambda>q. q (g reg_a0) (g reg_a1) (g reg_a2) (g reg_a3)" and ?args3 = "\<lambda>q. q (g reg_a0) (g reg_a1) (g reg_a2)"
  consider q where "(g reg_a7, q) \<in> set int_requests" | q where "(g reg_a7, q) \<in> set long_requests"
    | "g reg_a7 = SYS_close" | "g reg_a7 = SYS_brk" | "g reg_a7 \<in> {SYS_exit, SYS_exit_group}"
    | "g reg_a7 \<in> set unimplemented_numbers"
    | "g reg_a7 \<notin> set implemented_numbers" "g reg_a7 \<notin> set unimplemented_numbers"
    by (auto simp: implemented_numbers_def int_requests_def long_requests_def)
  then show ?thesis
  proof cases
    case (1 q)
    obtain r m' w' where "int_call os (?args q) m w = (r, m', w')" by (cases "int_call os (?args q) m w")
    from serve_int [OF 1 this] show ?thesis by blast
  next
    case (2 q)
    obtain r m' w' where "long_call os (?args3 q) m w = (r, m', w')" by (cases "long_call os (?args3 q) m w")
    from serve_long [OF 2 this] show ?thesis by blast
  next
    case 3
    obtain r m' w' where "int_call os (Close (ucast (g reg_a0))) m w = (r, m', w')"
      by (cases "int_call os (Close (ucast (g reg_a0))) m w")
    from serve_close [of g, OF 3 _ this] serve_close_std [of g, OF 3] show ?thesis by (meson not_le)
  next
    case 4
    then show ?thesis by (rule brk_total)
  qed (blast intro: refuses.intros)+
qed

lemma sys_instructions: "isa_step\<^sup>*\<^sup>* c c' \<Longrightarrow> (sys_step h os)\<^sup>*\<^sup>* (c, u, w) (c', u, w)"
  by (induction rule: rtranclp_induct) (auto intro: sys_instruction rtranclp.rtrancl_into_rtrancl)

text \<open>A state at an \<open>ecall\<close> executes no instruction: it makes a call.\<close>

lemma ecall_no_instruction:
  assumes "fetches m p 0x73"
  shows "\<not> isa_step ((p, g, m), f) c"
proof
  assume "isa_step ((p, g, m), f) c"
  then obtain j n where ex: "executes m p j n" "isa_fexec j n ((p, g, m), f) c"
    by (cases rule: isa_step.cases) auto
  have fetch: "w = 0x73" if "fetches m p w" for w
  proof -
    have "le_bytes 4 w = le_bytes 4 (0x73 :: u32)" using that assms by (simp add: fetches_def del: le_bytes.simps)
    then have "le_word (le_bytes 4 w) = (le_word (le_bytes 4 (0x73 :: u32)) :: u32)" by (rule arg_cong)
    then show ?thesis by (simp add: le_bytes_roundtrip del: le_bytes.simps)
  qed
  from ex(1) have "itype j = inst_ecall"
  proof (cases rule: executes.cases)
    case (executes_full w)
    with fetch have "decode_inst inst_zero 0x73 = Inr j" using decode_encodes by blast
    then show ?thesis unfolding decode_ecall by auto
  next
    case (executes_rvc d w)
    have "expand_rvc (ucast (0x73 :: u32)) = None" by code_simp
    with executes_rvc fetch [of d] show ?thesis by simp
  qed
  with ex(2) show False
    by (cases rule: isa_fexec.cases)
      (auto simp: isa_r_def isa_divw_def isa_i_def isa_load_def isa_store_def isa_branch_def isa_ff_def isa_fx_def isa_fi_def isa_fs_def isa_xf_def isa_fload_def isa_fstore_def class_defs
        elim!: isa_exec.cases)
qed
section \<open>What do_syscall makes of a call\<close>

text \<open>The machine after a call.\<close>

definition after_call :: "'w machine_t \<Rightarrow> mem_t \<times> mmu_t \<times> 'w \<Rightarrow> 'w machine_t" where
  "after_call m y = (case y of (mm, u, w) \<Rightarrow> m\<lparr>state := (state m)\<lparr>mem := mm\<rparr>, mmu := u, world := w\<rparr>)"

lemma after_call_same: "after_call m (mem (state m), mmu m, world m) = m"
  by (simp add: after_call_def)

lemma GET_gp [simp]: "r < 32 \<Longrightarrow> GET m r k = k (gp_regs (state m) r)"
  by (simp add: GET_def machine_get_gp_reg_def num_gp_regs_def)

text \<open>A call reads \<open>a0\<close> to \<open>a3\<close> and \<open>a7\<close> only.\<close>

lemma calls_same_arguments:
  assumes "\<And>r. r \<in> {reg_a0, reg_a1, reg_a2, reg_a3, reg_a7} \<Longrightarrow> g' r = g r"
  shows "serves h os g x v y \<Longrightarrow> serves h os g' x v y" "refuses h g m u e \<Longrightarrow> refuses h g' m u e"
proof -
  have g: "g' reg_a0 = g reg_a0" "g' reg_a1 = g reg_a1" "g' reg_a2 = g reg_a2" "g' reg_a3 = g reg_a3"
    "g' reg_a7 = g reg_a7" using assms by simp_all
  then have brk: "brk_address g' u = brk_address g u" for u by (simp add: brk_address_def)
  note eqs = g brk
  show "serves h os g' x v y" if "serves h os g x v y"
    using that
  proof (cases rule: serves.cases)
    case (serve_int q m w r m' w' u)
    then show ?thesis using serves.serve_int [of g' q os m w r m' w' h u] eqs by simp
  next
    case (serve_long q m w m' w' u)
    then show ?thesis using serves.serve_long [of g' q os m w v m' w' h u] eqs by simp
  next
    case (serve_close_std m u w)
    then show ?thesis using serves.serve_close_std [of g' h os m u w] eqs by simp
  next
    case (serve_close m w r m' w' u)
    then show ?thesis using serves.serve_close [of g' os m w r m' w' h u] eqs by simp
  next
    case (serve_brk u m old u' m' w)
    then show ?thesis using serves.serve_brk [of g' v u h m old u' m' os w] eqs by simp
  qed
  show "refuses h g' m u e" if "refuses h g m u e"
    using that
  proof (cases rule: refuses.cases)
    case refuse_exit
    then show ?thesis using refuses.refuse_exit [of g' h m u] eqs by simp
  next
    case refuse_unimplemented
    then show ?thesis using refuses.refuse_unimplemented [of g' h m u] eqs by simp
  next
    case refuse_unknown
    then show ?thesis using refuses.refuse_unknown [of g' h m u] eqs by simp
  next
    case refuse_brk_below
    then show ?thesis using refuses.refuse_brk_below [of g' u h m] eqs by simp
  next
    case (refuse_brk a)
    then show ?thesis using refuses.refuse_brk [of g' a u h m e] eqs by simp
  qed
qed

lemma calls_ignore_zero:
  "serves h os g x v y \<Longrightarrow> serves h os (g(reg_zero := z)) x v y"
  "refuses h g m u e \<Longrightarrow> refuses h (g(reg_zero := z)) m u e"
  by (erule calls_same_arguments [rotated]; auto simp: rv_enum)+

lemma sys_brk_cases:
  "sys_brk h m = (let a = brk_address (gp_regs (state m)) (mmu m) in
     if a < base (mmu m) then Inl (Assert_Fail ''addr >= m->mmu.base'')
     else bindE (machine_alloc h m (a - guest_alloc (mmu m))) (\<lambda>(_, m'). Inr (a, m')))"
  unfolding sys_brk_def brk_address_def Let_def by (simp add: rv_enum)

lemma do_syscall_serves:
  assumes "serves h os (gp_regs (state m)) (mem (state m), mmu m, world m) v y"
  shows "do_syscall h os m (gp_regs (state m) reg_a7) = Inr (v, after_call m y)"
  using assms
proof (cases rule: serves.cases)
  case (serve_int q r m' w')
  then show ?thesis
    by (auto simp: int_requests_def do_syscall_implemented sys_fstat_def sys_gettimeofday_def sys_openat_def
        sys_open_def do_int_call_def after_call_def Let_def rv_enum)
next
  case (serve_long q m' w')
  then show ?thesis
    by (auto simp: long_requests_def do_syscall_implemented sys_write_def sys_lseek_def sys_read_def
        do_long_call_def after_call_def rv_enum)
next
  case serve_close_std
  then show ?thesis
    by (auto simp: do_syscall_implemented sys_close_def after_call_same rv_enum dest: leD)
next
  case (serve_close r m' w')
  then show ?thesis
    by (simp add: do_syscall_implemented sys_close_def do_int_call_def after_call_def rv_enum)
next
  case (serve_brk old u' m')
  then show ?thesis
    by (simp add: do_syscall_implemented sys_brk_cases machine_alloc_def after_call_def Let_def)
qed

lemma do_syscall_refuses:
  assumes "refuses h (gp_regs (state m)) (mem (state m)) (mmu m) e"
  shows "do_syscall h os m (gp_regs (state m) reg_a7) = Inl e"
  using assms
proof (cases rule: refuses.cases)
  case refuse_exit
  then show ?thesis by (auto simp: do_syscall_implemented sys_exit_def rv_enum)
next
  case refuse_unimplemented
  then show ?thesis by (simp add: do_syscall_unimplemented)
next
  case refuse_unknown
  then show ?thesis by (simp add: do_syscall_unknown)
next
  case refuse_brk_below
  then show ?thesis
    by (simp add: do_syscall_implemented sys_brk_cases Let_def)
next
  case (refuse_brk a)
  then show ?thesis
    by (auto simp: do_syscall_implemented sys_brk_cases machine_alloc_def Let_def dest: leD)
qed

section \<open>The main loop follows the system\<close>

definition sys_of :: "'w machine_t \<Rightarrow> 'w sys" where
  "sys_of m = (arch_of (state m), mmu m, world m)"

definition runs_as :: "'w machine_t \<Rightarrow> 'w sys \<Rightarrow> bool" where
  "runs_as m x \<longleftrightarrow> sys_of m = x \<and> regs_ok (interp_inst m)"

text \<open>An instruction leaves the machine in the same call of \<open>machine_step\<close>.\<close>

definition stays_in_call :: "'w machine_t \<Rightarrow> 'w machine_t \<Rightarrow> bool" where
  "stays_in_call m m' \<longleftrightarrow> machine_step m = machine_step m' \<and> regs_ok (interp_inst m) \<and>
     isa_step (arch_of (state m)) (arch_of (state m'))"

lemma machine_at_ecall:
  assumes "runs_as m (((p, g, mm), f), u, w)" "fetches mm p 0x73"
  shows "\<exists>m'. machine_step m = Some (Inr (m', ecall)) \<and> runs_as m' (((p + 4, g(reg_zero := 0), mm), f), u, w)"
  using machine_step_to_ecall [of m p g mm f] assms
  by (force simp: runs_as_def sys_of_def same_host_side_def)

lemma main_body_instruction:
  assumes "runs_as m (c, u, w)" "isa_step c c'"
  shows "\<exists>m'. runs_as m' (c', u, w) \<and> stays_in_call m m'"
proof -
  have "isa_step\<^sup>*\<^sup>* (arch_of (state m)) c'" and ok: "regs_ok (interp_inst m)"
    using assms by (auto simp: runs_as_def sys_of_def)
  from machine_runs [OF this] obtain m' where m': "stands_for m m' c'" "machine_step m = machine_step m'" by blast
  then have "runs_as m' (c', u, w) \<and> stays_in_call m m'"
    using assms ok by (simp add: runs_as_def sys_of_def stands_for_def stays_in_call_def same_host_side_def)
  then show ?thesis ..
qed

lemma main_body_call:
  assumes "runs_as m (((p, g, mm), f), u, w)" "fetches mm p 0x73" "serves h os g (mm, u, w) v (mm', u', w')"
  shows "\<exists>m'. runs_as m' (((p + 4, g(reg_zero := 0, reg_a0 := v), mm'), f), u', w') \<and>
    main_body h os m = Some (Inr (Next m'))"
proof -
  from machine_at_ecall [OF assms(1,2)] obtain m1 where
    m1: "machine_step m = Some (Inr (m1, ecall))" "runs_as m1 (((p + 4, g(reg_zero := 0), mm), f), u, w)" by blast
  then have f: "gp_regs (state m1) = g(reg_zero := 0)" "mem (state m1) = mm" "mmu m1 = u" "world m1 = w"
    by (simp_all add: runs_as_def sys_of_def arch_of_def)
  have "do_syscall h os m1 (gp_regs (state m1) reg_a7) = Inr (v, after_call m1 (mm', u', w'))"
    by (rule do_syscall_serves) (simp add: f calls_ignore_zero(1) [OF assms(3)])
  then have "main_body h os m = Some (Inr (Next ((after_call m1 (mm', u', w'))\<lparr>state :=
      (state (after_call m1 (mm', u', w')))\<lparr>gp_regs := (g(reg_zero := 0))(reg_a0 := v)\<rparr>\<rparr>)))"
    using m1(1) f
    by (simp add: main_body_def machine_get_gp_reg_def machine_set_gp_reg_def after_call_def rv_enum)
  moreover from m1(2) have "runs_as ((after_call m1 (mm', u', w'))\<lparr>state :=
      (state (after_call m1 (mm', u', w')))\<lparr>gp_regs := (g(reg_zero := 0))(reg_a0 := v)\<rparr>\<rparr>)
      (((p + 4, g(reg_zero := 0, reg_a0 := v), mm'), f), u', w')"
    by (simp add: runs_as_def sys_of_def arch_of_def after_call_def)
  ultimately show ?thesis by blast
qed

lemma main_body_match:
  assumes "runs_as m x" "sys_step h os x y"
  shows "\<exists>m'. runs_as m' y \<and> (stays_in_call m m' \<or> main_body h os m = Some (Inr (Next m')))"
  using assms(2)
proof (cases rule: sys_step.cases)
  case (sys_instruction c c' u w)
  then show ?thesis using main_body_instruction [of m c u w c'] assms(1) by blast
next
  case (sys_call mm p g u w v mm' u' w' f)
  then show ?thesis using main_body_call [of m p g mm f u w] assms(1) by blast
qed

interpretation system: loop_simulation "main_body h os" runs_as "sys_step h os" stays_in_call for h os
proof
  show "main_body h os m = main_body h os m'" if "stays_in_call m m'" for m m' :: "'a machine_t"
    using that by (simp add: stays_in_call_def main_body_def)
next
  fix \<mu> :: "nat \<Rightarrow> 'a machine_t"
  assume "\<forall>k. stays_in_call (\<mu> k) (\<mu> (Suc k))"
  then have "machine_step (\<mu> 0) = None"
    by (intro machine_step_diverges [of "\<lambda>k. arch_of (state (\<mu> k))"]) (simp_all add: stays_in_call_def)
  then show "main_body h os (\<mu> 0) = None" by (simp add: main_body_def)
qed (rule main_body_match)

text \<open>The end of a run is what the loop of \<open>main\<close> ends with.\<close>

lemma main_body_ends:
  assumes "runs_as m x" "sys_ends h x e"
  shows "main_body h os m = Some (Inl e)"
  using assms(2)
proof (cases rule: sys_ends.cases)
  case (end_fault c a u w)
  then have "machine_step m = Some (Inl (Segv a))"
    using assms(1) machine_step_to_fault [of m c a] by (simp add: runs_as_def sys_of_def)
  with end_fault(2) show ?thesis by (simp add: main_body_def)
next
  case (end_call mm p g u f w)
  with machine_at_ecall [of m p g mm f u w] assms(1) obtain m1 where
    m1: "machine_step m = Some (Inr (m1, ecall))" "runs_as m1 (((p + 4, g(reg_zero := 0), mm), f), u, w)" by blast
  then have f: "gp_regs (state m1) = g(reg_zero := 0)" "mem (state m1) = mm" "mmu m1 = u"
    by (simp_all add: runs_as_def sys_of_def arch_of_def)
  have "do_syscall h os m1 (gp_regs (state m1) reg_a7) = Inl e"
    by (rule do_syscall_refuses) (simp add: f calls_ignore_zero(2) [OF end_call(3)])
  with m1(1) show ?thesis by (simp add: main_body_def machine_get_gp_reg_def rv_enum)
qed

lemma system_run_ends:
  assumes "(sys_step h os)\<^sup>*\<^sup>* (sys_of m) x" "sys_ends h x e" "regs_ok (interp_inst m)"
  shows "c_loop (main_body h os) m = Some (Inl e)"
proof -
  from system.loop_run [OF assms(1), of m] assms(3) obtain m' where
    m': "runs_as m' x" "c_loop (main_body h os) m = c_loop (main_body h os) m'" by (auto simp: runs_as_def)
  from main_body_ends [OF m'(1) assms(2)] show ?thesis unfolding m'(2) by (simp add: c_loop.simps [of "main_body h os"])
qed

lemma system_run_endless:
  assumes "\<forall>k. sys_step h os (\<sigma> k) (\<sigma> (Suc k))" "\<sigma> 0 = sys_of m" "regs_ok (interp_inst m)"
  shows "c_loop (main_body h os) m = None"
  using system.loop_endless [OF assms(1), of m] assms(2,3) by (simp add: runs_as_def)

text \<open>
  The system has gone beyond the reference machine when it can neither go on nor end; a program that never
  does has exactly the outcomes of its run.
\<close>

definition beyond :: "host_t \<Rightarrow> 'w os_t \<Rightarrow> 'w sys \<Rightarrow> bool" where
  "beyond h os x \<longleftrightarrow> \<not> (\<exists>y. sys_step h os x y) \<and> \<not> (\<exists>e. sys_ends h x e)"

lemma system_exact:
  assumes ok: "regs_ok (interp_inst m)" and dom: "\<And>x. (sys_step h os)\<^sup>*\<^sup>* (sys_of m) x \<Longrightarrow> \<not> beyond h os x"
  shows "c_loop (main_body h os) m = Some (Inl e) \<longleftrightarrow>
      (\<exists>x. (sys_step h os)\<^sup>*\<^sup>* (sys_of m) x \<and> sys_ends h x e)" (is "?ends")
    and "c_loop (main_body h os) m = None \<longleftrightarrow>
      (\<forall>x e. (sys_step h os)\<^sup>*\<^sup>* (sys_of m) x \<longrightarrow> \<not> sys_ends h x e)" (is "?endless")
proof -
  let ?reach = "(sys_step h os)\<^sup>*\<^sup>* (sys_of m)" and ?r = "c_loop (main_body h os) m"
  have ends: "?r = Some (Inl e)" if "?reach x" "sys_ends h x e" for x e
    by (rule system_run_ends [OF that ok])
  have endless: "?r = None" if "\<forall>x e. ?reach x \<longrightarrow> \<not> sys_ends h x e"
  proof -
    have "\<exists>y. sys_step h os x y" if "?reach x" for x
      using dom [OF that] that \<open>\<forall>x e. ?reach x \<longrightarrow> \<not> sys_ends h x e\<close> by (auto simp: beyond_def)
    from endless_run [of "sys_step h os", OF this] obtain \<sigma> where
      "\<sigma> 0 = sys_of m" "\<forall>k. sys_step h os (\<sigma> k) (\<sigma> (Suc k))" by blast
    from system_run_endless [OF this(2,1) ok] show ?thesis .
  qed
  from ends endless show ?endless by (metis option.distinct(1))
  from ends endless show ?ends by (metis option.distinct(1) option.inject sum.inject(1))
qed

end
