(* ===== verification/Elf_Load.thy ===== *)
theory Elf_Load
  imports Mmu
begin

text \<open>
  What loading an ELF file leaves in memory: the pages of one segment, of all segments in
  order, the state of the allocator, and the files that are refused.
\<close>

section \<open>Loaded segments\<close>

lemma unat_minus_ROUNDDOWN:
  assumes "page_ok h"
  shows "unat (x - ROUNDDOWN x (page_size h)) = unat x mod unat (page_size h)"
proof -
  have "ROUNDDOWN x (page_size h) \<le> x" using ROUNDDOWN_bounds(1) [OF assms] by (simp add: word_le_nat_alt)
  then show ?thesis
    by (simp add: unat_sub ROUNDDOWN_unat [OF assms] minus_div_mult_eq_mod)
qed

lemma TO_HOST_mod_page:
  assumes "page_ok h"
  shows "unat (TO_HOST x) mod unat (page_size h) = unat x mod unat (page_size h)"
proof -
  have "unat (TO_HOST x) mod unat (page_size h)
      = (unat x + unat GUEST_MEMORY_OFFSET) mod 2 ^ 64 mod unat (page_size h)"
    by (simp add: TO_HOST_def unat_word_ariths)
  also have "\<dots> = (unat x + unat GUEST_MEMORY_OFFSET) mod unat (page_size h)"
    using page_dvd_exp(1) [OF assms] by (rule mod_mod_cancel)
  also have "\<dots> = unat x mod unat (page_size h)"
    using page_dvd_exp(2) [OF assms] by (metis add.right_neutral dvd_imp_mod_0 mod_add_right_eq)
  finally show ?thesis .
qed

text \<open>What a segment that loaded left in memory: a file mapping and, behind it, zero pages.\<close>

definition segment_memory :: "host_t \<Rightarrow> mem_t \<Rightarrow> elf64_phdr_t \<Rightarrow> u8 list \<Rightarrow> mem_t" where
  "segment_memory h m phdr file =
     (let a = ROUNDDOWN (TO_HOST (p_vaddr phdr)) (page_size h); d = TO_HOST (p_vaddr phdr) - a;
          prot = flags_to_mmap_prot (p_flags phdr);
          f = ROUNDUP (p_filesz phdr + d) (page_size h); n = ROUNDUP (p_memsz phdr + d) (page_size h);
          m1 = map_pages h m a (p_filesz phdr + d) prot
            (file_content h file (ROUNDDOWN (p_offset phdr) (page_size h)))
      in if n - f > 0 then map_pages h m1 (a + f) (n - f) prot anon_content else m1)"

lemma mmap_fixed_memory:
  "mmap_fixed h m a len prot c = (m', a) \<Longrightarrow> a \<noteq> MAP_FAILED \<Longrightarrow> m' = map_pages h m a len prot c"
  by (auto simp: mmap_fixed_def split: if_splits)

lemma mmu_load_segment_memory:
  assumes "mmu_load_segment h mmu m phdr file = Inr (mmu', m')"
    and "ROUNDDOWN (TO_HOST (p_vaddr phdr)) (page_size h) \<noteq> MAP_FAILED"
    and "ROUNDDOWN (TO_HOST (p_vaddr phdr)) (page_size h) +
      ROUNDUP (p_filesz phdr + (TO_HOST (p_vaddr phdr) - ROUNDDOWN (TO_HOST (p_vaddr phdr)) (page_size h)))
        (page_size h) \<noteq> MAP_FAILED"
  shows "m' = segment_memory h m phdr file"
  using assms
  by (auto simp: mmu_load_segment_def segment_memory_def Let_def split: prod.splits if_splits
      dest!: mmap_fixed_memory)

lemma even_page_multiple:
  assumes "page_ok h"
  shows "even (ROUNDDOWN x (page_size h))" "even (ROUNDUP x (page_size h))"
proof -
  obtain k where k: "page_size h = 2 ^ k" "0 < k" by (rule page_sizeE [OF assms])
  then have "\<not> bit (- page_size h) 0" by (simp add: bit_0)
  then have "\<not> bit (y AND - page_size h) 0" for y by (simp add: bit_simps)
  then have "even (y AND - page_size h)" for y by (simp add: bit_0)
  then show "even (ROUNDDOWN x (page_size h))" "even (ROUNDUP x (page_size h))"
    by (simp_all add: ROUNDDOWN_def ROUNDUP_def)
qed

lemma even_not_failed: "even a \<Longrightarrow> a \<noteq> MAP_FAILED"
  by (auto simp: MAP_FAILED_def)

text \<open>
  A well-formed loadable segment: address and file offset agree within a page, the file part is
  in the file and is no larger than the memory part, which fits in user space.
\<close>

definition segment_ok :: "host_t \<Rightarrow> elf64_phdr_t \<Rightarrow> u8 list \<Rightarrow> bool" where
  "segment_ok h phdr file \<longleftrightarrow>
     unat (p_vaddr phdr) mod unat (page_size h) = unat (p_offset phdr) mod unat (page_size h) \<and>
     p_filesz phdr \<le> p_memsz phdr \<and> unat (p_memsz phdr) \<le> user_space \<and>
     unat (p_offset phdr) + unat (p_filesz phdr) \<le> length file \<and> length file < 2 ^ 64"

lemma segment_offset:
  assumes "page_ok h" "segment_ok h phdr file"
  defines "d \<equiv> TO_HOST (p_vaddr phdr) - ROUNDDOWN (TO_HOST (p_vaddr phdr)) (page_size h)"
  shows "unat d < 2 ^ 32" "ROUNDDOWN (p_offset phdr) (page_size h) + d = p_offset phdr"
    "unat (p_filesz phdr + d) = unat (p_filesz phdr) + unat d"
    "unat (p_memsz phdr + d) = unat (p_memsz phdr) + unat d"
proof -
  have d: "unat d = unat (p_offset phdr) mod unat (page_size h)"
    using assms(2) unfolding d_def by (simp add: unat_minus_ROUNDDOWN [OF assms(1)] TO_HOST_mod_page [OF assms(1)] segment_ok_def)
  have pos: "0 < unat (page_size h)"
  proof -
    obtain k where "unat (page_size h) = 2 ^ k" by (rule page_sizeE [OF assms(1)])
    then show ?thesis by simp
  qed
  have "unat d < unat (page_size h)" unfolding d using pos by simp
  with page_size_le [OF assms(1)] show lt: "unat d < 2 ^ 32" by simp
  have "d = p_offset phdr - ROUNDDOWN (p_offset phdr) (page_size h)"
    unfolding word_unat_eq_iff d unat_minus_ROUNDDOWN [OF assms(1)] ..
  then show "ROUNDDOWN (p_offset phdr) (page_size h) + d = p_offset phdr" by simp
  have "unat (p_filesz phdr) \<le> 2 ^ 47" "unat (p_memsz phdr) \<le> 2 ^ 47"
    using assms(2) by (simp_all add: segment_ok_def user_space_def word_le_nat_alt)
  with lt show "unat (p_filesz phdr + d) = unat (p_filesz phdr) + unat d"
    "unat (p_memsz phdr + d) = unat (p_memsz phdr) + unat d"
    by (intro unat_add_lem [THEN iffD1]; simp)+
qed

lemma file_content_inside:
  "unat (off + k) < length file \<Longrightarrow> file_content h file off k = Some (file ! unat (off + k))"
  by (simp add: file_content_def Let_def)

text \<open>
  Every byte of the pages of the file part is the byte of the file at the corresponding offset,
  also behind \<open>p_filesz\<close>, as far as the file goes.
\<close>

lemma segment_memory_pages:
  assumes "page_ok h" "segment_ok h phdr file" "unat (p_offset phdr) + k < length file"
    and "unat (TO_HOST (p_vaddr phdr) - ROUNDDOWN (TO_HOST (p_vaddr phdr)) (page_size h)) + k <
      unat (ROUNDUP (p_filesz phdr + (TO_HOST (p_vaddr phdr) - ROUNDDOWN (TO_HOST (p_vaddr phdr)) (page_size h)))
        (page_size h))"
  shows "segment_memory h m phdr file (TO_HOST (p_vaddr phdr) + word_of_nat k) =
    Some (file ! (unat (p_offset phdr) + k), flags_to_mmap_prot (p_flags phdr))"
proof -
  let ?p = "page_size h"
  define a d where "a = ROUNDDOWN (TO_HOST (p_vaddr phdr)) ?p" and "d = TO_HOST (p_vaddr phdr) - a"
  note off = segment_offset [OF assms(1,2), folded a_def, folded d_def] and k = assms(4) [folded a_def, folded d_def]
  let ?x = "TO_HOST (p_vaddr phdr) + word_of_nat k" and ?f = "p_filesz phdr + d" and ?n = "p_memsz phdr + d"
  have sizes: "unat (p_filesz phdr) \<le> unat (p_memsz phdr)" "unat (p_memsz phdr) \<le> 2 ^ 47"
    "unat (p_offset phdr) + k < length file" "length file < 2 ^ 64"
    using assms(2,3) by (simp_all add: segment_ok_def user_space_def word_le_nat_alt)
  have kk: "unat (word_of_nat k :: u64) = k"
    using sizes by (simp only: unsigned_of_nat) (simp add: take_bit_nat_eq_self)
  have xa: "?x - a = d + word_of_nat k" by (simp add: d_def)
  note page = page_size_le [OF assms(1)]
  have rf: "unat ?f \<le> unat (ROUNDUP ?f ?p)" "unat (ROUNDUP ?f ?p) < 2 ^ 62" "unat (ROUNDUP ?n ?p) < 2 ^ 62"
    "unat (ROUNDUP ?f ?p) \<le> unat (ROUNDUP ?n ?p)"
    using ROUNDUP_bounds [OF assms(1), of ?f] ROUNDUP_bounds [OF assms(1), of ?n] off sizes page
      ROUNDUP_unat [OF assms(1), of ?f] ROUNDUP_unat [OF assms(1), of ?n]
    by (simp_all add: div_le_mono)
  have uxa: "unat (d + word_of_nat k) = unat d + k"
    using k rf(2) kk by (subst unat_add_lem [THEN iffD1]) simp_all
  let ?r = "ROUNDUP ?n ?p - ROUNDUP ?f ?p"
  have "unat ?r \<le> unat (ROUNDUP ?n ?p)" using rf(4) by (simp add: unat_sub word_le_nat_alt)
  with rf(3) page have "unat (ROUNDUP ?r ?p) \<le> 2 ^ 63"
    using ROUNDUP_bounds(2) [OF assms(1), of ?r] by simp
  with rf(2) uxa k have bss: "\<not> in_region (a + ROUNDUP ?f ?p) (unat (ROUNDUP ?r ?p)) ?x"
    by (intro below_region [OF _ _ _ xa]) simp_all
  have in_f: "in_region a (unat (ROUNDUP ?f ?p)) ?x"
    using uxa k by (simp add: in_region_def xa)
  have "ROUNDDOWN (p_offset phdr) ?p + (d + word_of_nat k) = p_offset phdr + word_of_nat k"
    using off(2) by (simp add: add.assoc [symmetric])
  moreover have "unat (p_offset phdr + word_of_nat k) = unat (p_offset phdr) + k"
    using sizes kk by (subst unat_add_lem [THEN iffD1]) simp_all
  ultimately have "unat (ROUNDDOWN (p_offset phdr) ?p + (d + word_of_nat k)) = unat (p_offset phdr) + k"
    by (simp only:)
  then have "file_content h file (ROUNDDOWN (p_offset phdr) ?p) (d + word_of_nat k)
      = Some (file ! (unat (p_offset phdr) + k))"
    using sizes(3) by (simp only: file_content_inside)
  with bss in_f show ?thesis
    unfolding segment_memory_def Let_def a_def [symmetric] d_def [symmetric]
    by (simp add: map_pages_def xa)
qed

lemma segment_file_pages:
  assumes "page_ok h" "segment_ok h phdr file"
  defines "d \<equiv> TO_HOST (p_vaddr phdr) - ROUNDDOWN (TO_HOST (p_vaddr phdr)) (page_size h)"
  shows "unat (p_filesz phdr) + unat d \<le> unat (ROUNDUP (p_filesz phdr + d) (page_size h))"
    "unat (ROUNDUP (p_filesz phdr + d) (page_size h)) \<le> unat (ROUNDUP (p_memsz phdr + d) (page_size h))"
    "unat (p_memsz phdr) + unat d \<le> unat (ROUNDUP (p_memsz phdr + d) (page_size h))"
    "unat (ROUNDUP (p_memsz phdr + d) (page_size h)) < 2 ^ 62"
proof -
  note off = segment_offset [OF assms(1,2), folded d_def] and page = page_size_le [OF assms(1)]
  have sizes: "unat (p_filesz phdr) \<le> unat (p_memsz phdr)" "unat (p_memsz phdr) \<le> 2 ^ 47"
    using assms(2) by (simp_all add: segment_ok_def user_space_def word_le_nat_alt)
  show "unat (p_filesz phdr) + unat d \<le> unat (ROUNDUP (p_filesz phdr + d) (page_size h))"
    "unat (ROUNDUP (p_filesz phdr + d) (page_size h)) \<le> unat (ROUNDUP (p_memsz phdr + d) (page_size h))"
    "unat (p_memsz phdr) + unat d \<le> unat (ROUNDUP (p_memsz phdr + d) (page_size h))"
    "unat (ROUNDUP (p_memsz phdr + d) (page_size h)) < 2 ^ 62"
    using ROUNDUP_bounds [OF assms(1), of "p_filesz phdr + d"] ROUNDUP_bounds [OF assms(1), of "p_memsz phdr + d"]
      off sizes page ROUNDUP_unat [OF assms(1), of "p_filesz phdr + d"]
      ROUNDUP_unat [OF assms(1), of "p_memsz phdr + d"]
    by (simp_all add: div_le_mono)
qed

lemma segment_memory_file:
  assumes "page_ok h" "segment_ok h phdr file" "k < unat (p_filesz phdr)"
  shows "segment_memory h m phdr file (TO_HOST (p_vaddr phdr) + word_of_nat k) =
    Some (file ! (unat (p_offset phdr) + k), flags_to_mmap_prot (p_flags phdr))"
  using segment_file_pages(1) [OF assms(1,2)] assms(2,3)
  by (intro segment_memory_pages [OF assms(1,2)]) (simp_all add: segment_ok_def)

text \<open>The pages behind the file part are zero up to the end of the memory part.\<close>

lemma segment_memory_bss:
  assumes "page_ok h" "segment_ok h phdr file"
  defines "a \<equiv> ROUNDDOWN (TO_HOST (p_vaddr phdr)) (page_size h)"
  defines "d \<equiv> TO_HOST (p_vaddr phdr) - a"
  assumes k: "unat (ROUNDUP (p_filesz phdr + d) (page_size h)) \<le> unat d + k" "k < unat (p_memsz phdr)"
  shows "segment_memory h m phdr file (TO_HOST (p_vaddr phdr) + word_of_nat k) =
    Some (0, flags_to_mmap_prot (p_flags phdr))"
proof -
  let ?p = "page_size h" and ?f = "ROUNDUP (p_filesz phdr + d) (page_size h)"
    and ?n = "ROUNDUP (p_memsz phdr + d) (page_size h)" and ?x = "TO_HOST (p_vaddr phdr) + word_of_nat k"
  note off = segment_offset [OF assms(1,2), folded a_def, folded d_def]
    and P = segment_file_pages [OF assms(1,2), folded a_def, folded d_def]
  have fn: "?f \<le> ?n" using P(2) by (simp add: word_le_nat_alt)
  have r: "unat (?n - ?f) = unat ?n - unat ?f" using fn by (rule unat_sub)
  have kk: "unat (word_of_nat k :: u64) = k"
    using k(2) P by (simp only: unsigned_of_nat) (simp add: take_bit_nat_eq_self)
  have u: "unat (d + word_of_nat k) = unat d + k"
    using k(2) kk P by (subst unat_add_lem [THEN iffD1]) simp_all
  have x: "?x - (a + ?f) = d + word_of_nat k - ?f" by (simp add: d_def)
  have "?f \<le> d + word_of_nat k" using k(1) u by (simp add: word_le_nat_alt)
  then have "unat (?x - (a + ?f)) = unat d + k - unat ?f" unfolding x by (simp add: unat_sub u)
  moreover have "unat (?n - ?f) \<le> unat (ROUNDUP (?n - ?f) ?p)"
    using ROUNDUP_bounds(1) [OF assms(1), of "?n - ?f"] r P(4) page_size_le [OF assms(1)] by simp
  ultimately have "in_region (a + ?f) (unat (ROUNDUP (?n - ?f) ?p)) ?x"
    using k P r by (simp add: in_region_def)
  moreover have "?n - ?f > 0" using k P r by (simp add: word_less_nat_alt)
  ultimately show ?thesis
    unfolding segment_memory_def Let_def a_def [symmetric] d_def [symmetric]
    by (simp add: map_pages_def anon_content_def)
qed

lemma load_segment_memory:
  assumes "page_ok h" "mmu_load_segment h u m phdr file = Inr (u', m')"
  shows "m' = segment_memory h m phdr file"
proof (rule mmu_load_segment_memory [OF assms(2)])
  show "ROUNDDOWN (TO_HOST (p_vaddr phdr)) (page_size h) \<noteq> MAP_FAILED"
    by (rule even_not_failed) (rule even_page_multiple [OF assms(1)])
  show "ROUNDDOWN (TO_HOST (p_vaddr phdr)) (page_size h) +
      ROUNDUP (p_filesz phdr + (TO_HOST (p_vaddr phdr) - ROUNDDOWN (TO_HOST (p_vaddr phdr)) (page_size h)))
        (page_size h) \<noteq> MAP_FAILED"
    by (rule even_not_failed) (simp add: even_page_multiple [OF assms(1)])
qed

section \<open>Loading a file\<close>

text \<open>
  The program headers of a file whose entries have the standard size, and what loading all of
  its loadable segments, in order, leaves in memory.
\<close>

definition phdr_at :: "elf64_ehdr_t \<Rightarrow> u8 list \<Rightarrow> u64 \<Rightarrow> elf64_phdr_t" where
  "phdr_at ehdr file i = phdr_of_bytes (take sizeof_phdr (drop (unat (e_phoff ehdr + 56 * i)) file))"

definition elf_segments :: "elf64_ehdr_t \<Rightarrow> u8 list \<Rightarrow> nat \<Rightarrow> u64 \<Rightarrow> elf64_phdr_t list" where
  "elf_segments ehdr file n i =
     filter (\<lambda>p. p_type p = PT_LOAD) (map (\<lambda>k. phdr_at ehdr file (i + word_of_nat k)) [0..<n])"

definition segments_memory :: "host_t \<Rightarrow> u8 list \<Rightarrow> elf64_phdr_t list \<Rightarrow> mem_t \<Rightarrow> mem_t" where
  "segments_memory h file = fold (\<lambda>p m. segment_memory h m p file)"

text \<open>The end of a segment's pages, and of all segments.\<close>

definition segment_top :: "host_t \<Rightarrow> elf64_phdr_t \<Rightarrow> u64" where
  "segment_top h p =
     (let a = ROUNDDOWN (TO_HOST (p_vaddr p)) (page_size h)
      in a + ROUNDUP (p_memsz p + (TO_HOST (p_vaddr p) - a)) (page_size h))"

definition segments_top :: "host_t \<Rightarrow> elf64_phdr_t list \<Rightarrow> u64 \<Rightarrow> u64" where
  "segments_top h = fold (\<lambda>p a. MAX_u64 a (segment_top h p))"

lemma elf_segments_Suc:
  "elf_segments ehdr file (Suc n) i =
     (if p_type (phdr_at ehdr file i) = PT_LOAD then [phdr_at ehdr file i] else []) @
     elf_segments ehdr file n (i + 1)"
  by (simp add: elf_segments_def upt_conv_Cons map_Suc_upt [symmetric] comp_def add.assoc del: upt_Suc)

lemma field_append: "off + n \<le> length bs \<Longrightarrow> field (bs @ r) off n = field bs off n"
  by (simp add: field_def)

lemma phdr_of_bytes_append: "length bs = sizeof_phdr \<Longrightarrow> phdr_of_bytes (bs @ r) = phdr_of_bytes bs"
  by (simp add: phdr_of_bytes_def field_append sizeof_phdr_def)

lemma load_phdr_at:
  assumes "e_phentsize ehdr = 56" "load_phdr phdr ehdr i file = Inr phdr'"
  shows "phdr_of_bytes phdr' = phdr_at ehdr file i"
proof -
  let ?bs = "take sizeof_phdr (drop (unat (e_phoff ehdr + 56 * i)) file)"
  from assms have "phdr' = ?bs @ drop sizeof_phdr phdr" "length ?bs = sizeof_phdr"
    by (auto simp: load_phdr_def Let_def read_at_def sizeof_phdr_def split: if_splits option.splits)
  then show ?thesis by (simp only: phdr_of_bytes_append phdr_at_def)
qed

lemma load_segment_mmu:
  assumes "mmu_load_segment h u m p file = Inr (u', m')"
  shows "u' = (let ha = MAX_u64 (host_alloc u) (segment_top h p)
     in u\<lparr>host_alloc := ha, base := TO_GUEST ha, guest_alloc := TO_GUEST ha\<rparr>)"
  using assms by (auto simp: mmu_load_segment_def segment_top_def Let_def split: prod.splits if_splits)

text \<open>The allocator right after loading: nothing handed out, the break at the end of the image.\<close>

definition fresh_break :: "mmu_t \<Rightarrow> bool" where
  "fresh_break u \<longleftrightarrow> base u = TO_GUEST (host_alloc u) \<and> guest_alloc u = base u"

lemma load_segments_result:
  assumes "page_ok h" "e_phentsize ehdr = 56" "load_segments h ehdr file n i phdr u m = Inr (u', m')"
  shows "m' = segments_memory h file (elf_segments ehdr file n i) m \<and>
    host_alloc u' = segments_top h (elf_segments ehdr file n i) (host_alloc u) \<and> entry u' = entry u \<and>
    (if elf_segments ehdr file n i = [] then u' = u else fresh_break u')"
  using assms(3)
proof (induction n arbitrary: i phdr u m)
  case 0
  then show ?case by (simp add: elf_segments_def segments_memory_def segments_top_def)
next
  case (Suc n)
  let ?p = "phdr_at ehdr file i"
  from Suc.prems obtain phdr1 u1 m1 where
    1: "load_phdr phdr ehdr i file = Inr phdr1"
      "(if p_type (phdr_of_bytes phdr1) = PT_LOAD then mmu_load_segment h u m (phdr_of_bytes phdr1) file
        else Inr (u, m)) = Inr (u1, m1)" "load_segments h ehdr file n (i + 1) phdr1 u1 m1 = Inr (u', m')"
    by (auto elim!: bindE_InrE)
  note p = load_phdr_at [OF assms(2) 1(1)] and IH = Suc.IH [OF 1(3)]
  show ?case
  proof (cases "p_type ?p = PT_LOAD")
    case True
    with 1(2) p have ld: "mmu_load_segment h u m ?p file = Inr (u1, m1)" by simp
    note u1 = load_segment_mmu [OF ld, unfolded Let_def]
    have m1: "m1 = segment_memory h m ?p file" by (rule load_segment_memory [OF assms(1) ld])
    have "fresh_break u1" by (simp add: u1 fresh_break_def)
    with IH u1 True show ?thesis
      by (simp add: elf_segments_Suc segments_memory_def segments_top_def m1 split: if_splits)
  next
    case False
    with 1(2) p have "u1 = u" "m1 = m" by simp_all
    with IH False show ?thesis by (simp add: elf_segments_Suc)
  qed
qed

text \<open>A segment changes only its own pages.\<close>

definition segment_span :: "host_t \<Rightarrow> elf64_phdr_t \<Rightarrow> u64 \<Rightarrow> bool" where
  "segment_span h p x =
     (let a = ROUNDDOWN (TO_HOST (p_vaddr p)) (page_size h)
      in in_region a (unat (ROUNDUP (p_memsz p + (TO_HOST (p_vaddr p) - a)) (page_size h))) x)"

lemma segment_memory_other:
  assumes "page_ok h" "segment_ok h p file" "\<not> segment_span h p x"
  shows "segment_memory h m p file x = m x"
proof -
  define a d where "a = ROUNDDOWN (TO_HOST (p_vaddr p)) (page_size h)" and "d = TO_HOST (p_vaddr p) - a"
  let ?p = "page_size h" and ?f = "ROUNDUP (p_filesz p + d) (page_size h)"
    and ?n = "ROUNDUP (p_memsz p + d) (page_size h)"
  note P = segment_file_pages [OF assms(1,2), folded a_def, folded d_def]
  have out: "\<not> in_region a (unat ?n) x"
    using assms(3) by (simp add: segment_span_def Let_def a_def d_def)
  then have lo: "\<not> in_region a (unat ?f) x" using P(2) by (simp add: in_region_def)
  have r: "unat (?n - ?f) = unat ?n - unat ?f" using P(2) by (simp add: unat_sub word_le_nat_alt)
  have dvd: "unat ?p dvd unat ?n" "unat ?p dvd unat ?f"
    using ROUNDUP_bounds(3) [OF assms(1)] P page_size_le [OF assms(1)] segment_offset [OF assms(1,2), folded a_def, folded d_def]
    by simp_all
  have "ROUNDUP (?n - ?f) ?p = ?n - ?f"
    using r dvd P page_size_le [OF assms(1)] by (intro ROUNDUP_multiple [OF assms(1)]) (simp_all add: dvd_diff_nat)
  moreover have "\<not> in_region (a + ?f) (unat (?n - ?f)) x"
  proof
    assume "in_region (a + ?f) (unat (?n - ?f)) x"
    then have lt: "unat (x - (a + ?f)) < unat ?n - unat ?f" by (simp add: in_region_def r)
    have "x - a = (x - (a + ?f)) + ?f" by simp
    moreover have "unat ((x - (a + ?f)) + ?f) = unat (x - (a + ?f)) + unat ?f"
      using lt P(4) by (subst unat_add_lem [THEN iffD1]) simp_all
    ultimately have "unat (x - a) = unat (x - (a + ?f)) + unat ?f" by (simp only:)
    with lt out show False by (simp add: in_region_def)
  qed
  ultimately show ?thesis
    using lo unfolding segment_memory_def Let_def a_def [symmetric] d_def [symmetric]
    by (simp add: map_pages_def)
qed

lemma segments_memory_other:
  "page_ok h \<Longrightarrow> \<forall>q \<in> set qs. segment_ok h q file \<and> \<not> segment_span h q x \<Longrightarrow>
   segments_memory h file qs m x = m x"
  by (induction qs arbitrary: m) (simp_all add: segments_memory_def segment_memory_other)

lemma segments_memory_split:
  assumes "page_ok h" "\<forall>q \<in> set qs. segment_ok h q file \<and> \<not> segment_span h q x"
  shows "\<exists>m0. segments_memory h file (ps @ p # qs) m x = segment_memory h m0 p file x"
  using segments_memory_other [OF assms] by (auto simp: segments_memory_def)

lemma mmu_load_elf_result:
  assumes "page_ok h" "mmu_load_elf h stack u m file = Inr (u', m')"
    and "e_phentsize (ehdr_of_bytes (take sizeof_ehdr file)) = 56"
  defines "ehdr \<equiv> ehdr_of_bytes (take sizeof_ehdr file)"
  defines "segs \<equiv> elf_segments ehdr file (unat (e_phnum ehdr)) 0"
  shows "entry u' = e_entry ehdr \<and> m' = segments_memory h file segs m \<and>
    host_alloc u' = segments_top h segs (host_alloc u) \<and> (segs \<noteq> [] \<longrightarrow> fresh_break u')"
proof -
  from assms(2) have "load_segments h ehdr file (unat (e_phnum ehdr)) 0 stack (u\<lparr>entry := e_entry ehdr\<rparr>) m = Inr (u', m')"
    by (auto simp: mmu_load_elf_def read_at_def Let_def ehdr_def split: if_splits option.splits)
  from load_segments_result [OF assms(1) _ this] assms(3) show ?thesis
    by (simp add: ehdr_def [symmetric] segs_def [symmetric] split: if_splits)
qed

text \<open>The ways loading fails before it maps anything, in the order the code tests them.\<close>

lemma bit_le_word: "bit (le_word bs :: 'a::len word) n \<Longrightarrow> n < 8 * length bs"
  by (induction bs arbitrary: n) (fastforce simp: bit_simps dest: bit_imp_le_length)+

lemma le_bytes_le_word:
  "8 * length bs \<le> LENGTH('a) \<Longrightarrow> le_bytes (length bs) (le_word bs :: 'a::len word) = bs"
proof (induction bs)
  case (Cons b bs)
  have "ucast (ucast b OR push_bit 8 (le_word bs :: 'a word)) = b"
    using Cons.prems by (intro bit_word_eqI) (auto simp: bit_simps dest: bit_imp_le_length)
  moreover have "drop_bit 8 (ucast b OR push_bit 8 (le_word bs :: 'a word)) = le_word bs"
    using Cons.prems bit_le_word [of bs, where 'a = 'a]
    by (intro bit_word_eqI) (fastforce simp: bit_simps dest: bit_imp_le_length)
  ultimately show ?case using Cons by simp
qed simp

lemma magic_eq:
  assumes "4 \<le> length buf"
  shows "(field buf 0 4 :: u32) = le_word ELFMAG \<longleftrightarrow> take 4 buf = ELFMAG"
proof -
  have "le_bytes 4 (le_word (take 4 buf) :: u32) = take 4 buf"
    using le_bytes_le_word [of "take 4 buf", where 'a = 32] assms by simp
  moreover have "le_bytes 4 (le_word ELFMAG :: u32) = ELFMAG" by code_simp
  ultimately show ?thesis unfolding field_def by (metis drop0)
qed

lemma mmu_load_elf_cases:
  "mmu_load_elf h stack u m file =
    (let ehdr = ehdr_of_bytes (take sizeof_ehdr file) in
     if length file < sizeof_ehdr then Inl (Fatal ''file too small'')
     else if take 4 file \<noteq> ELFMAG then Inl (Fatal ''bad elfmag'')
     else if e_machine ehdr \<noteq> EM_RISCV \<or> file ! EI_CLASS \<noteq> ELFCLASS64
     then Inl (Fatal ''only RISCV64 elf support'')
     else load_segments h ehdr file (unat (e_phnum ehdr)) 0 stack (u\<lparr>entry := e_entry ehdr\<rparr>) m)"
proof (cases "length file < sizeof_ehdr")
  case False
  then have "(field (take sizeof_ehdr file) 0 4 :: u32) = le_word ELFMAG \<longleftrightarrow> take 4 file = ELFMAG"
    using magic_eq [of "take sizeof_ehdr file"] by (simp add: sizeof_ehdr_def)
  moreover have "e_ident (ehdr_of_bytes (take sizeof_ehdr file)) ! EI_CLASS = file ! EI_CLASS"
    by (simp add: ehdr_of_bytes_def EI_CLASS_def EI_NIDENT_def sizeof_ehdr_def)
  ultimately show ?thesis using False by (simp add: mmu_load_elf_def read_at_def Let_def)
qed (simp add: mmu_load_elf_def read_at_def sizeof_ehdr_def Let_def)

section \<open>The allocator after loading\<close>

definition segment_fits :: "host_t \<Rightarrow> elf64_phdr_t \<Rightarrow> bool" where
  "segment_fits h p \<longleftrightarrow> GUEST_MEMORY_OFFSET \<le> segment_top h p \<and> unat (segment_top h p) \<le> user_space"

lemma segment_top_aligned:
  assumes "page_ok h"
  shows "ROUNDDOWN (segment_top h p) (page_size h) = segment_top h p"
proof -
  have down: "unat (page_size h) dvd unat (ROUNDDOWN x (page_size h))" for x
    by (simp add: ROUNDDOWN_unat [OF assms])
  have up: "unat (page_size h) dvd unat (ROUNDUP x (page_size h))" for x
    using down [of "x + page_size h - 1"] by (simp add: ROUNDUP_def ROUNDDOWN_def)
  have "unat (page_size h) dvd unat (x + y)" if "unat (page_size h) dvd unat x" "unat (page_size h) dvd unat y" for x y :: u64
    using that page_dvd_exp(1) [OF assms] by (simp add: unat_word_ariths dvd_mod)
  then show ?thesis
    by (simp add: ROUNDDOWN_multiple [OF assms] segment_top_def Let_def down up)
qed

lemma segments_top_induct:
  "(\<And>p. p \<in> set ps \<Longrightarrow> P (segment_top h p)) \<Longrightarrow> P a \<or> a = 0 \<and> ps \<noteq> [] \<Longrightarrow> P (segments_top h ps a)"
proof (induction ps arbitrary: a)
  case (Cons p ps)
  have "P (MAX_u64 a (segment_top h p))"
    using Cons.prems by (cases "a = 0") (auto simp: MAX_u64_def)
  with Cons show ?case by (simp add: segments_top_def)
qed (auto simp: segments_top_def)

lemma loaded_mmu_inv:
  assumes "page_ok h" "fresh_break u" "host_alloc u = segments_top h ps 0" "ps \<noteq> []"
    and "\<forall>p \<in> set ps. segment_fits h p"
  shows "mmu_inv h u m"
proof -
  let ?P = "\<lambda>a. GUEST_MEMORY_OFFSET \<le> a \<and> unat a \<le> user_space \<and> ROUNDDOWN a (page_size h) = a"
  have "?P (segments_top h ps 0)"
    using assms(4,5) segment_top_aligned [OF assms(1)]
    by (intro segments_top_induct [where P = ?P]) (simp_all add: segment_fits_def)
  with assms(2,3) show ?thesis
    by (simp add: mmu_inv_def fresh_break_def mapped_rw_def)
qed

text \<open>A byte of the file part of a segment whose page no other segment covers.\<close>

lemma segments_memory_byte:
  assumes "page_ok h" "\<forall>q \<in> set ss. segment_ok h q file" "p \<in> set ss" "k < unat (p_filesz p)"
    and "\<forall>q \<in> set ss. q \<noteq> p \<longrightarrow> \<not> segment_span h q (TO_HOST (p_vaddr p) + word_of_nat k)"
  shows "segments_memory h file ss m (TO_HOST (p_vaddr p) + word_of_nat k) =
    Some (file ! (unat (p_offset p) + k), flags_to_mmap_prot (p_flags p))"
proof -
  from split_list_last [OF assms(3)] obtain ps qs where ss: "ss = ps @ p # qs" "p \<notin> set qs" by blast
  have "\<forall>q \<in> set qs. segment_ok h q file \<and> \<not> segment_span h q (TO_HOST (p_vaddr p) + word_of_nat k)"
    using assms(2,5) ss by auto
  from segments_memory_split [OF assms(1) this, of ps p m] obtain m0 where
    "segments_memory h file ss m (TO_HOST (p_vaddr p) + word_of_nat k) =
      segment_memory h m0 p file (TO_HOST (p_vaddr p) + word_of_nat k)" unfolding ss(1) by blast
  with segment_memory_file [OF assms(1) _ assms(4)] assms(2,3) show ?thesis by simp
qed

section \<open>A file as a linker writes it\<close>

text \<open>
  The file header, the program headers right behind it, and the rest of the file. The loader reads
  such a file back; it maps every loadable segment, unless the file part of one is empty and starts
  at a page boundary: the kernel refuses a mapping without bytes, and the assertion about its
  address ends the emulator.
\<close>

definition elf_file :: "elf64_ehdr_t \<Rightarrow> elf64_phdr_t list \<Rightarrow> u8 list \<Rightarrow> u8 list" where
  "elf_file e ps rest = bytes_of_ehdr e @ concat (map bytes_of_phdr ps) @ rest"

definition header_ok :: "elf64_ehdr_t \<Rightarrow> nat \<Rightarrow> bool" where
  "header_ok e n \<longleftrightarrow> length (e_ident e) = EI_NIDENT \<and> take 4 (e_ident e) = ELFMAG \<and>
     e_ident e ! EI_CLASS = ELFCLASS64 \<and> e_machine e = EM_RISCV \<and> e_phoff e = 64 \<and>
     e_phentsize e = 56 \<and> unat (e_phnum e) = n"

definition loadable :: "elf64_phdr_t list \<Rightarrow> elf64_phdr_t list" where
  "loadable = filter (\<lambda>p. p_type p = PT_LOAD)"

definition has_file_part :: "host_t \<Rightarrow> elf64_phdr_t \<Rightarrow> bool" where
  "has_file_part h p \<longleftrightarrow> p_filesz p \<noteq> 0 \<or> unat (p_vaddr p) mod unat (page_size h) \<noteq> 0"

text \<open>The kernel does not refuse the mappings of the segment.\<close>

definition kernel_maps :: "host_t \<Rightarrow> elf64_phdr_t \<Rightarrow> bool" where
  "kernel_maps h p \<longleftrightarrow>
     (let a = ROUNDDOWN (TO_HOST (p_vaddr p)) (page_size h); d = TO_HOST (p_vaddr p) - a;
          f = ROUNDUP (p_filesz p + d) (page_size h); n = ROUNDUP (p_memsz p + d) (page_size h)
      in \<not> mmap_refuses h a (p_filesz p + d) \<and> \<not> mmap_refuses h (a + f) (n - f))"

lemma aligned_plus:
  assumes "page_ok h" "unat (page_size h) dvd unat x" "unat (page_size h) dvd unat y"
  shows "ROUNDDOWN (x + y) (page_size h) = x + y"
  using assms page_dvd_exp(1) [OF assms(1)] by (simp add: ROUNDDOWN_multiple unat_word_ariths dvd_mod)

lemma ROUNDDOWN_dvd: "page_ok h \<Longrightarrow> unat (page_size h) dvd unat (ROUNDDOWN x (page_size h))"
  by (simp add: ROUNDDOWN_unat)

lemma ROUNDUP_0_iff:
  assumes "page_ok h" "unat x + unat (page_size h) \<le> 2 ^ 64"
  shows "ROUNDUP x (page_size h) = 0 \<longleftrightarrow> x = 0"
proof
  assume "ROUNDUP x (page_size h) = 0"
  with ROUNDUP_bounds(1) [OF assms] have "unat x \<le> 0" by simp
  then show "x = 0" by (simp add: unat_eq_0)
next
  assume "x = 0"
  then show "ROUNDUP x (page_size h) = 0" using ROUNDUP_multiple [OF assms] by simp
qed

lemma mmap_fixed_maps:
  assumes "ROUNDUP len (page_size h) \<noteq> 0" "ROUNDDOWN a (page_size h) = a" "\<not> mmap_refuses h a len"
  shows "\<exists>m'. mmap_fixed h m a len prot c = (m', a)"
  using assms by (simp add: mmap_fixed_def)

lemma load_segment_runs:
  assumes page: "page_ok h" and ok: "segment_ok h p file" and maps: "kernel_maps h p"
  shows "if has_file_part h p then \<exists>r. mmu_load_segment h u m p file = Inr r
    else mmu_load_segment h u m p file = Inl (Assert_Fail ''addr == aligned_vaddr'')"
proof -
  define a d where "a = ROUNDDOWN (TO_HOST (p_vaddr p)) (page_size h)" and "d = TO_HOST (p_vaddr p) - a"
  let ?up = "\<lambda>x. ROUNDUP x (page_size h)"
  let ?f = "?up (p_filesz p + d)" and ?n = "?up (p_memsz p + d)"
  note off = segment_offset [OF page ok, folded a_def, folded d_def]
    and P = segment_file_pages [OF page ok, folded a_def, folded d_def] and le = page_size_le [OF page]
  have K: "\<not> mmap_refuses h a (p_filesz p + d)" "\<not> mmap_refuses h (a + ?f) (?n - ?f)"
    using maps by (simp_all add: kernel_maps_def Let_def a_def d_def)
  have a: "ROUNDDOWN a (page_size h) = a" "a \<noteq> MAP_FAILED"
    using ROUNDDOWN_dvd [OF page, of "TO_HOST (p_vaddr p)"] even_page_multiple(1) [OF page]
    by (simp_all add: a_def ROUNDDOWN_multiple [OF page] even_not_failed)
  have bss: "ROUNDDOWN (a + ?f) (page_size h) = a + ?f"
    using ROUNDDOWN_dvd [OF page] ROUNDUP_dvd [OF page] by (simp add: a_def aligned_plus [OF page])
  have "unat d = unat (p_vaddr p) mod unat (page_size h)"
    by (simp add: d_def a_def unat_minus_ROUNDDOWN [OF page] TO_HOST_mod_page [OF page])
  moreover have "p_filesz p + d = 0 \<longleftrightarrow> p_filesz p = 0 \<and> unat d = 0"
    using off(3) by (auto simp: unat_eq_0)
  moreover have "?f = 0 \<longleftrightarrow> p_filesz p + d = 0"
    using P le off(3) by (intro ROUNDUP_0_iff [OF page]) simp
  ultimately have f: "?f = 0 \<longleftrightarrow> \<not> has_file_part h p" by (simp add: has_file_part_def)
  show ?thesis
  proof (cases "has_file_part h p")
    case False
    with f have "mmap_fixed h m a (p_filesz p + d) prot c = (m, MAP_FAILED)" for prot c
      by (simp add: mmap_fixed_def)
    with a(2) False show ?thesis
      by (simp add: mmu_load_segment_def Let_def a_def [symmetric] d_def [symmetric] not_sym [OF a(2)])
  next
    case True
    with f have first: "\<exists>m'. mmap_fixed h m a (p_filesz p + d) prot c = (m', a)" for prot c
      by (intro mmap_fixed_maps a K) simp
    have "?up (?n - ?f) \<noteq> 0" if "?n - ?f > 0"
      using that P le ROUNDUP_0_iff [OF page, of "?n - ?f"] by (auto simp: unat_sub word_le_nat_alt)
    then have second: "\<exists>m'. mmap_fixed h m1 (a + ?f) (?n - ?f) prot c = (m', a + ?f)" if "?n - ?f > 0" for m1 prot c
      using that bss K by (intro mmap_fixed_maps) simp_all
    obtain m1 where m1: "mmap_fixed h m a (p_filesz p + d) (flags_to_mmap_prot (p_flags p))
        (file_content h file (ROUNDDOWN (p_offset p) (page_size h))) = (m1, a)" using first by blast
    have "\<exists>m2. (if ?n - ?f > 0 then mmap_fixed h m1 (a + ?f) (?n - ?f) (flags_to_mmap_prot (p_flags p)) anon_content
        else (m1, a + ?f)) = (m2, a + ?f)"
      using second [of m1 "flags_to_mmap_prot (p_flags p)" anon_content] by (cases "?n - ?f > 0") simp_all
    then obtain m2 where m2: "(if ?n - ?f > 0 then mmap_fixed h m1 (a + ?f) (?n - ?f) (flags_to_mmap_prot (p_flags p)) anon_content
        else (m1, a + ?f)) = (m2, a + ?f)" ..
    show ?thesis
      using True unfolding mmu_load_segment_def Let_def a_def [symmetric] d_def [symmetric] m1 prod.case m2 by simp
  qed
qed

lemma concat_block:
  "\<forall>xs \<in> set xss. length xs = n \<Longrightarrow> k < length xss \<Longrightarrow> take n (drop (n * k) (concat xss @ r)) = xss ! k"
proof (induction xss arbitrary: k)
  case (Cons xs xss)
  then show ?case by (cases k) (simp_all add: add.commute)
qed simp

lemma length_concat_blocks: "\<forall>xs \<in> set xss. length xs = n \<Longrightarrow> length (concat xss) = n * length xss"
  by (induction xss) simp_all

lemma elf_file_header:
  assumes "header_ok e n"
  shows "take sizeof_ehdr (elf_file e ps rest) = bytes_of_ehdr e"
    "ehdr_of_bytes (take sizeof_ehdr (elf_file e ps rest)) = e"
proof -
  have len: "length (e_ident e) = EI_NIDENT" using assms by (simp add: header_ok_def)
  then show "take sizeof_ehdr (elf_file e ps rest) = bytes_of_ehdr e"
    using length_headers(1) [OF len] by (simp add: elf_file_def)
  then show "ehdr_of_bytes (take sizeof_ehdr (elf_file e ps rest)) = e"
    using ehdr_roundtrip [OF len, of "[]"] by simp
qed

lemma elf_file_phdr:
  assumes "header_ok e (length ps)" "k < length ps"
  shows "phdr_at e (elf_file e ps rest) (word_of_nat k) = ps ! k"
    "load_phdr buf e (word_of_nat k) (elf_file e ps rest) = Inr (bytes_of_phdr (ps ! k) @ drop sizeof_phdr buf)"
proof -
  let ?pos = "64 + 56 * word_of_nat k :: u64" and ?blocks = "concat (map bytes_of_phdr ps)"
  have e: "e_phoff e = 64" "e_phentsize e = 56" "length (e_ident e) = EI_NIDENT" "unat (e_phnum e) = length ps"
    using assms(1) by (simp_all add: header_ok_def)
  have "unat (e_phnum e) < 2 ^ 16" using unsigned_less [of "e_phnum e", where 'a = nat] by simp
  with e(4) assms(2) have "64 + 56 * k < 2 ^ 63" by simp
  then have "unat (word_of_nat (64 + 56 * k) :: u64) = 64 + 56 * k"
    and "sint (word_of_nat (64 + 56 * k) :: u64) = int (64 + 56 * k)"
    by (simp_all only: unsigned_of_nat signed_of_nat)
      (simp_all add: take_bit_nat_eq_self signed_take_bit_int_eq_self)
  then have u: "unat ?pos = 64 + 56 * k" "0 \<le> sint ?pos" by simp_all
  have blocks: "\<forall>xs \<in> set (map bytes_of_phdr ps). length xs = sizeof_phdr" by (simp add: length_headers(2))
  have tk: "take sizeof_phdr (drop (64 + 56 * k) (elf_file e ps rest)) = bytes_of_phdr (ps ! k)"
    using concat_block [OF blocks, of k rest] length_headers(1) [OF e(3)] assms(2)
    by (simp add: elf_file_def sizeof_ehdr_def sizeof_phdr_def)
  then show "phdr_at e (elf_file e ps rest) (word_of_nat k) = ps ! k"
    using phdr_roundtrip [of "ps ! k" "[]"] by (simp add: phdr_at_def e(1) u(1))
  have "56 * Suc k \<le> 56 * length ps" using assms(2) by (intro mult_le_mono) simp_all
  then have "64 + 56 * k + 56 \<le> length (elf_file e ps rest)"
    using length_concat_blocks [OF blocks] length_headers(1) [OF e(3)]
    by (simp add: elf_file_def sizeof_ehdr_def sizeof_phdr_def)
  with tk show "load_phdr buf e (word_of_nat k) (elf_file e ps rest) = Inr (bytes_of_phdr (ps ! k) @ drop sizeof_phdr buf)"
    using u by (simp add: load_phdr_def Let_def e(1,2) read_at_def sizeof_phdr_def)
qed

lemma elf_file_segments:
  "header_ok e (length ps) \<Longrightarrow> elf_segments e (elf_file e ps rest) (length ps) 0 = loadable ps"
proof -
  assume "header_ok e (length ps)"
  then have "map (\<lambda>k. phdr_at e (elf_file e ps rest) (0 + word_of_nat k)) [0..<length ps] = ps"
    by (intro nth_equalityI) (simp_all add: elf_file_phdr(1))
  then show ?thesis by (simp only: elf_segments_def loadable_def)
qed

lemma load_segments_run:
  assumes page: "page_ok h" and header: "header_ok e (length ps)"
    and segs: "\<forall>p \<in> set (loadable ps). segment_ok h p (elf_file e ps rest) \<and> kernel_maps h p"
  shows "k + n = length ps \<Longrightarrow>
    if \<forall>p \<in> set (loadable (drop k ps)). has_file_part h p
    then \<exists>r. load_segments h e (elf_file e ps rest) n (word_of_nat k) buf u m = Inr r
    else load_segments h e (elf_file e ps rest) n (word_of_nat k) buf u m =
      Inl (Assert_Fail ''addr == aligned_vaddr'')"
proof (induction n arbitrary: k buf u m)
  case 0
  then show ?case by (simp add: loadable_def)
next
  case (Suc n)
  then have k: "k < length ps" "Suc k + n = length ps" by simp_all
  have suc: "word_of_nat k + 1 = word_of_nat (Suc k)" by simp
  note IH = Suc.IH [OF k(2), of "bytes_of_phdr (ps ! k) @ drop sizeof_phdr buf"] and ld = elf_file_phdr(2) [OF header k(1), of buf rest]
  have p: "phdr_of_bytes (bytes_of_phdr (ps ! k) @ r) = ps ! k" for r by (rule phdr_roundtrip)
  have d: "drop k ps = ps ! k # drop (Suc k) ps" using k(1) by (rule Cons_nth_drop_Suc [symmetric])
  show ?case
  proof (cases "p_type (ps ! k) = PT_LOAD")
    case False
    with IH [of u m] show ?thesis by (auto simp: ld p d loadable_def suc simp del: of_nat_Suc split: if_splits)
  next
    case True
    with k(1) have "ps ! k \<in> set (loadable ps)" by (simp add: loadable_def)
    with segs load_segment_runs [OF page, of "ps ! k" "elf_file e ps rest" u m]
    have run: "if has_file_part h (ps ! k) then \<exists>r. mmu_load_segment h u m (ps ! k) (elf_file e ps rest) = Inr r
      else mmu_load_segment h u m (ps ! k) (elf_file e ps rest) = Inl (Assert_Fail ''addr == aligned_vaddr'')"
      by blast
    show ?thesis
    proof (cases "has_file_part h (ps ! k)")
      case False
      with run True show ?thesis by (simp add: ld p d loadable_def)
    next
      case hfp: True
      with run obtain u1 m1 where "mmu_load_segment h u m (ps ! k) (elf_file e ps rest) = Inr (u1, m1)" by auto
      with True hfp IH [of u1 m1] show ?thesis
        by (auto simp: ld p d loadable_def suc simp del: of_nat_Suc split: if_splits)
    qed
  qed
qed

lemma elf_file_loads:
  assumes "page_ok h" "header_ok e (length ps)"
    and "\<forall>p \<in> set (loadable ps). segment_ok h p (elf_file e ps rest) \<and> kernel_maps h p"
  shows "if \<forall>p \<in> set (loadable ps). has_file_part h p
    then \<exists>u'. mmu_load_elf h stack u m (elf_file e ps rest) =
        Inr (u', segments_memory h (elf_file e ps rest) (loadable ps) m) \<and> entry u' = e_entry e \<and>
      host_alloc u' = segments_top h (loadable ps) (host_alloc u) \<and> (loadable ps \<noteq> [] \<longrightarrow> fresh_break u')
    else mmu_load_elf h stack u m (elf_file e ps rest) = Inl (Assert_Fail ''addr == aligned_vaddr'')"
proof -
  let ?file = "elf_file e ps rest"
  note e = assms(2) [unfolded header_ok_def] and hd = elf_file_header(2) [OF assms(2), of ps rest]
  have len: "\<not> length ?file < sizeof_ehdr"
    using length_headers(1) [of e] e by (simp add: elf_file_def)
  have ident: "take 4 ?file = ELFMAG" "?file ! EI_CLASS = ELFCLASS64"
    using e by (simp_all add: elf_file_def bytes_of_ehdr_def EI_NIDENT_def EI_CLASS_def nth_append)
  have load: "mmu_load_elf h stack u m ?file =
      load_segments h e ?file (length ps) (word_of_nat 0) stack (u\<lparr>entry := e_entry e\<rparr>) m"
    unfolding mmu_load_elf_cases hd Let_def using len ident e by (simp del: One_nat_def)
  note run = load_segments_run [OF assms, of 0 "length ps" stack "u\<lparr>entry := e_entry e\<rparr>" m, folded load, simplified]
  show ?thesis
  proof (cases "\<forall>p \<in> set (loadable ps). has_file_part h p")
    case True
    with run obtain u' m' where l: "mmu_load_elf h stack u m ?file = Inr (u', m')" by auto
    have "e_phentsize (ehdr_of_bytes (take sizeof_ehdr ?file)) = 56" using e by (simp only: hd)
    from mmu_load_elf_result [OF assms(1) l this] e True l show ?thesis
      by (simp add: hd elf_file_segments [OF assms(2)])
  next
    case False
    with run show ?thesis by (simp only: if_False)
  qed
qed

end
