(* ===== verification/Program.thy ===== *)
theory Program
  imports Setup System Elf_Load
begin

text \<open>
  The whole program: from the command line over the loaded file and the initial stack to the
  loop over system calls.
\<close>

section \<open>Safety of the whole run\<close>

text \<open>The assertions of \<open>main\<close>, of the loader and of the allocator, beside the faults of the loop.\<close>

definition start_asserts :: "string list" where
  "start_asserts = [''argc > 1'', ''addr == aligned_vaddr'',
     ''addr == aligned_vaddr + ROUNDUP(filesz, page_size)'', ''base >= mmu->base'',
     ''mmu->guest_alloc >= mmu->base'']"

definition program_fault :: "error \<Rightarrow> bool" where
  "program_fault e \<longleftrightarrow> main_fault e \<or> (\<exists>msg \<in> set start_asserts. e = Assert_Fail msg)"

lemma program_fault_simps [simp]:
  "program_fault (Fatal x)" "program_fault (Segv a)" "main_fault e \<Longrightarrow> program_fault e"
  "x \<in> set start_asserts \<Longrightarrow> program_fault (Assert_Fail x)"
  by (auto simp: program_fault_def)

lemma load_phdr_outcome:
  "unat (e_phentsize ehdr) \<le> sizeof_phdr \<Longrightarrow> outcome program_fault (\<lambda>_. True) (load_phdr phdr ehdr i file)"
  by (simp add: load_phdr_def Let_def split: option.split)

lemma load_segment_outcome:
  "outcome program_fault (\<lambda>(u', _). entry u' = entry u \<and> break_ok u') (mmu_load_segment h u m p file)"
  by (auto simp: mmu_load_segment_def Let_def break_ok_def start_asserts_def split: prod.split)

lemma load_segments_outcome:
  assumes "unat (e_phentsize ehdr) \<le> sizeof_phdr"
  shows "break_ok u \<Longrightarrow> outcome program_fault (\<lambda>(u', _). entry u' = entry u \<and> break_ok u')
    (load_segments h ehdr file n i phdr u m)"
proof (induction n arbitrary: i phdr u m)
  case (Suc n)
  have seg: "outcome program_fault (\<lambda>(u', _). entry u' = entry u \<and> break_ok u')
      (if p_type q = PT_LOAD then mmu_load_segment h u m q file else Inr (u, m))" for q
    using load_segment_outcome Suc.prems by simp
  have rest: "outcome program_fault (\<lambda>(u', _). entry u' = entry u \<and> break_ok u')
      (load_segments h ehdr file n (i + 1) q u1 m1)" if "entry u1 = entry u" "break_ok u1" for q u1 m1
    using Suc.IH [OF that(2), of "i + 1" q m1] that(1) by simp
  show ?case
    unfolding load_segments.simps
    by (rule outcome_bindI [OF load_phdr_outcome [OF assms]], rule outcome_bindI [OF seg])
      (clarify, rule rest)
qed simp

text \<open>What \<open>main\<close> relies on in the file: entries that fit the structure and an even entry point.\<close>

definition sane_header :: "u8 list \<Rightarrow> bool" where
  "sane_header f \<longleftrightarrow> (let e = ehdr_of_bytes (take sizeof_ehdr f) in
     unat (e_phentsize e) \<le> sizeof_phdr \<and> even (e_entry e))"

lemma load_program_outcome:
  assumes "\<And>f. prog = Some f \<Longrightarrow> sane_header f"
  shows "outcome program_fault main_inv (machine_load_program h stack (machine_zero mem0 w0) prog)"
proof (cases prog)
  case (Some f)
  let ?e = "ehdr_of_bytes (take sizeof_ehdr f)"
  have e: "unat (e_phentsize ?e) \<le> sizeof_phdr" "even (e_entry ?e)"
    using assms [OF Some] by (simp_all add: sane_header_def Let_def)
  have "outcome program_fault (\<lambda>(u', _). entry u' = e_entry ?e \<and> break_ok u') (mmu_load_elf h stack mmu_zero mem0 f)"
    unfolding mmu_load_elf_cases Let_def
    using load_segments_outcome [OF e(1), of "mmu_zero\<lparr>entry := e_entry ?e\<rparr>"]
    by (simp add: break_ok_def mmu_zero_def)
  with e(2) Some show ?thesis
    by (auto simp: machine_load_program_def machine_zero_def mmu_zero_def main_inv_def machine_ok_def cpu_ok_def
        regs_ok_def intro!: outcome_bindE elim!: outcome_mono)
qed (simp add: machine_load_program_def)

lemma machine_alloc_outcome:
  assumes "main_inv m"
  shows "outcome program_fault (\<lambda>(_, m'). main_inv m') (machine_alloc h m n)"
  using assms
  by (auto simp: machine_alloc_def mmu_alloc_def Let_def main_inv_def machine_ok_def cpu_ok_def break_ok_def
      start_asserts_def split: prod.splits option.splits)

lemma machine_write_outcome:
  assumes "main_inv m"
  shows "outcome program_fault main_inv (machine_write m a bs)"
  using assms store_bytes_fault [of bs "mem (state m)" "TO_HOST a"]
  by (cases "mmu_write (mem (state m)) a bs")
    (auto simp: machine_write_def mmu_write_def main_inv_def machine_ok_def cpu_ok_def)

lemma sp_inv: "main_inv m \<Longrightarrow> main_inv (sp_sub m n)"
  by (simp add: sp_sub_def main_inv_def machine_ok_def cpu_ok_def rv_enum)

lemma push_args_outcome: "main_inv m \<Longrightarrow> outcome program_fault main_inv (push_args h m args)"
proof (induction args arbitrary: m)
  case (Cons s args)
  have "outcome program_fault main_inv (push_arg h m s)"
    unfolding push_arg_def Let_def
    by (rule outcome_bindI [OF machine_alloc_outcome [OF Cons.prems]], clarify,
        rule outcome_bindI [OF machine_write_outcome], assumption, intro machine_write_outcome sp_inv)
  then show ?case using Cons.IH by (auto intro: outcome_bindI)
qed simp

lemma machine_setup_outcome:
  assumes "main_inv m"
  shows "outcome program_fault main_inv (machine_setup h pad m argv)"
  unfolding machine_setup_def Let_def
  by (rule outcome_bindI [OF machine_alloc_outcome [OF assms]], clarify, rule outcome_bindI [OF push_args_outcome],
      intro sp_inv, simp add: main_inv_def machine_ok_def cpu_ok_def rv_enum, intro machine_write_outcome sp_inv)

lemma main_outcome:
  assumes "\<And>f. fs (argv ! 1) = Some f \<Longrightarrow> sane_header f" "main h os stack pad fs mem0 w0 argv = Some r"
  shows "\<exists>e. r = Inl e \<and> program_fault e"
proof (cases "1 < length argv")
  case True
  let ?start = "bindE (machine_load_program h stack (machine_zero mem0 w0) (fs (argv ! 1)))
    (\<lambda>m. machine_setup h pad m argv)"
  have start: "outcome program_fault main_inv ?start"
    by (rule outcome_bindI [OF load_program_outcome [OF assms(1)] machine_setup_outcome])
  show ?thesis
  proof (cases ?start)
    case (Inr m)
    with start have "main_inv m" by simp
    from calls.loop_post [OF this, of h os] calls.loop_fault [OF this, of h os] assms(2) True Inr show ?thesis
      by (cases r) (auto simp: main_def)
  qed (use assms(2) True start in \<open>auto simp: main_def\<close>)
qed (use assms(2) in \<open>auto simp: main_def start_asserts_def\<close>)

section \<open>From the command line to the exit of the guest\<close>

lemma exit_run:
  fixes m :: "'w machine_t"
  assumes "isa_step\<^sup>*\<^sup>* (arch_of (state m)) ((p, g, mm), f)" "fetches mm p 0x73" "regs_ok (interp_inst m)"
    and "g reg_a7 = SYS_exit \<or> g reg_a7 = SYS_exit_group"
  shows "c_loop (main_body h os) m = Some (Inl (Exit (ucast (g reg_a0))))"
proof (rule system_run_ends [OF _ _ assms(3)])
  show "(sys_step h os)\<^sup>*\<^sup>* (sys_of m) (((p, g, mm), f), mmu m, world m)"
    unfolding sys_of_def by (rule sys_instructions [OF assms(1)])
  show "sys_ends h (((p, g, mm), f), mmu m, world m) (Exit (ucast (g reg_a0)))"
    using assms(2,4) by (blast intro: end_call refuse_exit)
qed

lemma loaded_ready:
  assumes "page_ok h" "mmu_load_elf h stack mmu_zero m file = Inr (u', m')"
    and "e_phentsize (ehdr_of_bytes (take sizeof_ehdr file)) = 56"
    and "elf_segments (ehdr_of_bytes (take sizeof_ehdr file)) file
      (unat (e_phnum (ehdr_of_bytes (take sizeof_ehdr file)))) 0 = segs"
    and "segs \<noteq> []" "\<forall>p \<in> set segs. segment_fits h p"
  shows "entry u' = e_entry (ehdr_of_bytes (take sizeof_ehdr file)) \<and>
    host_alloc u' = segments_top h segs 0 \<and> fresh_break u' \<and> mmu_inv h u' m' \<and>
    m' = segments_memory h file segs m"
proof -
  have *: "entry u' = e_entry (ehdr_of_bytes (take sizeof_ehdr file)) \<and>
      host_alloc u' = segments_top h segs 0 \<and> fresh_break u' \<and> m' = segments_memory h file segs m"
    using mmu_load_elf_result [OF assms(1-3)] assms(4,5) by (simp add: mmu_zero_def)
  with loaded_mmu_inv [OF assms(1), of u' segs m'] assms(5,6) show ?thesis by simp
qed

text \<open>The address space above the image has room for the stack and the strings.\<close>

definition room_for_stack :: "host_t \<Rightarrow> u8 list list \<Rightarrow> mmu_t \<Rightarrow> mem_t \<Rightarrow> bool" where
  "room_for_stack h args u m \<longleftrightarrow> unat (host_alloc u) + setup_cost h args \<le> user_space \<and>
     (\<forall>x. in_region (host_alloc u) (setup_cost h args) x \<longrightarrow> m x = None)"

text \<open>
  The machine \<open>main\<close> starts its loop with: at the entry point, all registers but the stack pointer
  zero, the argument vector at the stack pointer, the image in memory, the world as it was.
\<close>

definition started :: "u8 list \<Rightarrow> u8 list list \<Rightarrow> mmu_t \<Rightarrow> mem_t \<Rightarrow> 'w \<Rightarrow> 'w machine_t \<Rightarrow> bool" where
  "started count args u m0 w0 m \<longleftrightarrow> pc (state m) = entry u \<and> (\<forall>r. r \<noteq> reg_sp \<longrightarrow> gp_regs (state m) r = 0) \<and>
     (\<exists>ps. argument_vector count args ps m) \<and>
     (\<forall>x. m0 x \<noteq> None \<and> unat x < unat (host_alloc u) \<longrightarrow> mem (state m) x = m0 x) \<and>
     fp_regs (state m) = (\<lambda>_. 0) \<and> interp_inst m = inst_zero \<and> world m = w0"

lemma heap_room_fresh:
  assumes "host_ok h" "mmu_inv h (mmu m) (mem (state m))" "fresh_break (mmu m)"
    and "room_for_stack h args (mmu m) (mem (state m))"
  shows "heap_room h (setup_cost h args + 0) m"
  using assms
  by (auto simp: heap_room_def mmu_room_def room_for_stack_def zero_between_def heap_used_def heap_limit_def
      fresh_break_def TO_HOST_def TO_GUEST_def)

lemma main_starts:
  fixes os :: "'w os_t" and w0 :: 'w and pad :: u32
  assumes "host_ok h" "1 < length argv" "fs (argv ! 1) = Some f"
    and load: "mmu_load_elf h stack mmu_zero mem0 f = Inr (u, m0)" "mmu_inv h u m0" "fresh_break u"
    and room: "room_for_stack h (tl argv) u m0"
    and args: "\<forall>s \<in> set (tl argv). length s + 1 < 2 ^ 63" "8 * length (tl argv) + 32 \<le> unat STACK_SIZE"
  defines "r \<equiv> main h os stack pad fs mem0 w0 argv"
  defines "count \<equiv> le_bytes 4 (word_of_nat (length argv) :: u32) @ le_bytes 4 pad"
  shows "r = Some (Inl (Fatal ''mmap failed in mmu alloc'')) \<or>
    (\<exists>m. started count (tl argv) u m0 w0 m \<and> r = c_loop (main_body h os) m)"
proof -
  let ?z = "machine_zero mem0 w0"
  define m where "m = ?z\<lparr>mmu := u, state := (state ?z)\<lparr>mem := m0, pc := entry u\<rparr>\<rparr>"
  have f: "mmu m = u" "mem (state m) = m0" "pc (state m) = entry u" "gp_regs (state m) = (\<lambda>_. 0)"
    "interp_inst m = inst_zero" "fp_regs (state m) = (\<lambda>_. 0)" "world m = w0" by (simp_all add: m_def machine_zero_def)
  have "machine_load_program h stack ?z (Some f) = Inr m"
    by (simp add: machine_load_program_def m_def machine_zero_def load(1))
  then have r: "r = (case machine_setup h pad m argv of Inl e \<Rightarrow> Some (Inl e) | Inr m' \<Rightarrow> c_loop (main_body h os) m')"
    using assms(2,3) by (simp add: r_def main_def)
  have "heap_room h (setup_cost h (tl argv) + 0) m"
    by (rule heap_room_fresh) (simp_all add: f assms)
  note built = machine_setup_ok [OF this args, of pad]
  show ?thesis
  proof (cases "machine_setup h pad m argv")
    case (Inr m')
    with built have "stack_built count (tl argv) m m'"
      by (simp add: count_def)
    moreover have "heap_used u = unat (host_alloc u)"
      using load(3) by (simp add: heap_used_def fresh_break_def TO_HOST_def TO_GUEST_def)
    ultimately have "started count (tl argv) u m0 w0 m'"
      by (auto simp: started_def stack_built_def same_but_sp_def f)
    with Inr r show ?thesis by auto
  qed (use built r in \<open>simp add: mmap_failed_def\<close>)
qed

text \<open>
  From there the run of the guest decides: the program ends with what the run ends with, and does not end
  when the run does not.
\<close>

definition follows_guest :: "host_t \<Rightarrow> 'w os_t \<Rightarrow> 'w machine_t \<Rightarrow> unit res option \<Rightarrow> bool" where
  "follows_guest h os m r \<longleftrightarrow>
     (\<forall>x e. (sys_step h os)\<^sup>*\<^sup>* (sys_of m) x \<longrightarrow> sys_ends h x e \<longrightarrow> r = Some (Inl e)) \<and>
     (\<forall>\<sigma>. \<sigma> 0 = sys_of m \<longrightarrow> (\<forall>k. sys_step h os (\<sigma> k) (\<sigma> (Suc k))) \<longrightarrow> r = None)"

lemma main_loop_follows:
  assumes "regs_ok (interp_inst m)"
  shows "follows_guest h os m (c_loop (main_body h os) m)"
  using assms system_run_ends system_run_endless unfolding follows_guest_def by blast

lemma main_follows_guest:
  fixes os :: "'w os_t" and w0 :: 'w and pad :: u32
  assumes "host_ok h" "1 < length argv" "fs (argv ! 1) = Some f"
    and "mmu_load_elf h stack mmu_zero mem0 f = Inr (u, m0)" "mmu_inv h u m0" "fresh_break u"
    and "room_for_stack h (tl argv) u m0"
    and "\<forall>s \<in> set (tl argv). length s + 1 < 2 ^ 63" "8 * length (tl argv) + 32 \<le> unat STACK_SIZE"
  defines "r \<equiv> main h os stack pad fs mem0 w0 argv"
  shows "r = Some (Inl (Fatal ''mmap failed in mmu alloc'')) \<or>
    (\<exists>m. started (le_bytes 4 (word_of_nat (length argv) :: u32) @ le_bytes 4 pad) (tl argv) u m0 w0 m \<and>
      follows_guest h os m r)"
  using main_starts [where fs = fs and argv = argv, OF assms(1-9), of os pad w0] main_loop_follows [of _ h os]
  unfolding r_def by (auto simp: started_def regs_ok_def)

end
