(* ===== verification/Output.thy ===== *)
theory Output
  imports Interp
begin

text \<open>
  What the program prints of its own: the text of a fatal message with the status it exits with
  (\<open>rvemu.h\<close>), and \<open>inst_print\<close> of \<open>interp.c\<close>. A dump determines the instruction it
  was made of.
\<close>

section \<open>Fatal messages\<close>

abbreviation newline :: char where
  "newline \<equiv> CHR 0x0A"

text \<open>The text on \<open>stderr\<close> and the status given to \<open>exit\<close>; \<open>msg\<close> is the formatted rest.\<close>

definition fatalf :: "string \<Rightarrow> nat \<Rightarrow> string \<Rightarrow> string \<times> u32" where
  "fatalf file line msg =
     (''fatal: '' @ file @ '':'' @ show_nat line @ '' '' @ msg @ [newline], 1)"

text \<open>
  The status a waiting parent process reads: \<open>exit\<close> keeps the low eight bits. The other ways
  to stop are signals.
\<close>

definition exit_status :: "error \<Rightarrow> u8 option" where
  "exit_status e = (case e of
     Fatal msg \<Rightarrow> Some (ucast (snd (fatalf [] 0 msg)))
   | Exit code \<Rightarrow> Some (ucast code)
   | _ \<Rightarrow> None)"

section \<open>inst_print\<close>

definition show_bool :: "bool \<Rightarrow> string" where
  "show_bool b = (if b then ''true'' else ''false'')"

definition inst_print :: "inst_t \<Rightarrow> string" where
  "inst_print inst =
     ''inst_t {'' @ [newline] @
     ''  type: '' @ inst_type_name (itype inst) @ '' ('' @ show_nat (itype inst) @ '')'' @ [newline] @
     ''  rd: '' @ show_int (sint (rd inst)) @ [newline] @
     ''  rs1: '' @ show_int (sint (rs1 inst)) @ [newline] @
     ''  rs2: '' @ show_int (sint (rs2 inst)) @ [newline] @
     ''  rs3: '' @ show_int (sint (rs3 inst)) @ [newline] @
     ''  imm: '' @ show_int (sint (imm inst)) @ [newline] @
     ''  csr: '' @ show_int (sint (csr inst)) @ [newline] @
     ''  rvc: '' @ show_bool (rvc inst) @ [newline] @
     ''  continue_exec: '' @ show_bool (continue_exec inst) @ [newline] @
     ''}'' @ [newline]"

section \<open>Numbers and lines\<close>

primrec of_digits :: "string \<Rightarrow> nat" where
  "of_digits [] = 0"
| "of_digits (c # cs) = (of_char c - 48) * 10 ^ length cs + of_digits cs"

lemma of_digits_append: "of_digits (xs @ ys) = of_digits xs * 10 ^ length ys + of_digits ys"
  by (induction xs) (simp_all add: power_add algebra_simps)

lemma of_char_digit: "k < 10 \<Longrightarrow> of_char (char_of (48 + k) :: char) = (48 + k :: nat)"
  by simp

lemma of_digits_show_nat: "of_digits (show_nat n) = n"
proof (induction n rule: show_nat.induct)
  case (1 n)
  then show ?case
    by (subst show_nat.simps) (auto simp: of_digits_append)
qed

lemma show_nat_inj: "show_nat m = show_nat n \<longleftrightarrow> m = n"
  using of_digits_show_nat by metis

lemma show_nat_digits: "c \<in> set (show_nat n) \<Longrightarrow> of_char c \<in> {48..<58 :: nat}"
proof (induction n rule: show_nat.induct)
  case (1 n)
  from "1.prems" show ?case
    using "1.IH" by (subst (asm) show_nat.simps) (auto split: if_splits)
qed

lemma show_nat_safe:
  "CHR ''-'' \<notin> set (show_nat n)" "newline \<notin> set (show_nat n)" "CHR '')'' \<notin> set (show_nat n)"
  using show_nat_digits [of "CHR ''-''" n] show_nat_digits [of newline n] show_nat_digits [of "CHR '')''" n]
  by auto

lemma show_nat_no_sign: "show_nat n \<noteq> CHR ''-'' # xs"
  using show_nat_safe(1) [of n] by auto

lemma show_int_inj: "show_int x = show_int y \<longleftrightarrow> x = y"
  using show_nat_no_sign show_nat_no_sign [symmetric]
  by (auto simp: show_int_def show_nat_inj)

lemma show_int_safe: "newline \<notin> set (show_int x)"
  by (simp add: show_int_def show_nat_safe)

text \<open>A text of lines can be cut at its line ends.\<close>

lemma char_split:
  assumes "c \<notin> set xs" "c \<notin> set ys"
  shows "xs @ c # us = ys @ c # vs \<longleftrightarrow> xs = ys \<and> us = vs"
  using assms
proof (induction xs arbitrary: ys)
  case Nil
  then show ?case by (cases ys) auto
next
  case (Cons x xs)
  then show ?case by (cases ys) auto
qed

section \<open>A dump determines the instruction\<close>

lemma show_bool_inj: "show_bool a = show_bool b \<longleftrightarrow> a = b"
  by (auto simp: show_bool_def)

lemma show_bool_safe: "newline \<notin> set (show_bool b)"
  by (simp add: show_bool_def)

lemma names_safe: "CHR '' '' \<notin> set (inst_type_name t)"
proof -
  have rows: "list_all (\<lambda>(t, s). CHR '' '' \<notin> set s) (int_names @ fp_names)"
    by (simp add: int_names_def fp_names_def)
  show ?thesis
  proof (cases "map_of (int_names @ fp_names) t")
    case None
    then have "inst_type_name t = ''unknown''"
      unfolding inst_type_name_def switch_def by (simp only: option.case)
    then show ?thesis by simp
  next
    case (Some s)
    with rows have "CHR '' '' \<notin> set s" by (auto simp: list_all_iff dest!: map_of_SomeD)
    with Some show ?thesis
      unfolding inst_type_name_def switch_def by (simp only: option.case) simp
  qed
qed

lemma sint_inj: "sint v = sint w \<longleftrightarrow> v = (w :: 'a::len word)"
  by (auto intro: signed_word_eqI)

lemma inst_print_inj:
  assumes "inst_print i = inst_print j"
  shows "i = j"
proof -
  note safe = show_int_safe show_nat_safe names_safe show_bool_safe
  have "itype i = itype j \<and> rd i = rd j \<and> rs1 i = rs1 j \<and> rs2 i = rs2 j \<and> rs3 i = rs3 j \<and> imm i = imm j \<and>
      csr i = csr j \<and> rvc i = rvc j \<and> continue_exec i = continue_exec j"
    using assms unfolding inst_print_def
    by (simp add: char_split safe show_int_inj show_nat_inj show_bool_inj sint_inj)
  then show ?thesis by (cases i; cases j) simp
qed

end
