(* ===== verification/Deviations.thy ===== *)
theory Deviations
  imports Isa_Fp_S Decode_Roundtrip
begin

text \<open>
  Where the floating-point handlers do something else than the ISA manual says: the cases the tables of
  \<open>Isa_Fp\<close> and \<open>Isa_Fp_S\<close> leave out, with what the code does there.
\<close>

section \<open>Minimum and maximum\<close>

text \<open>
  With a NaN operand, or two zeros, the result is the second operand: \<open>fmin(1, NaN)\<close> is a NaN, where
  the ISA gives the number, and \<open>fmin(-0, +0)\<close> is \<open>+0\<close>.
\<close>

lemma minmax_second_operand:
  fixes s :: cpu_t
  assumes "regs_ok i"
  defines "a \<equiv> fp_regs s (unat (rs1 i))" and "b \<equiv> fp_regs s (unat (rs2 i))"
  shows "itype i \<in> {inst_fmin_d, inst_fmax_d} \<Longrightarrow> d_nan a \<or> d_nan b \<or> d_val a = 0 \<and> d_val b = 0 \<Longrightarrow>
      dispatch s i = Inr (s\<lparr>fp_regs := (fp_regs s)(unat (rd i) := b)\<rparr>, i)"
    "itype i \<in> {inst_fmin_s, inst_fmax_s} \<Longrightarrow>
      s_nan (ucast a) \<or> s_nan (ucast b) \<or> s_val (ucast a) = 0 \<and> s_val (ucast b) = 0 \<Longrightarrow>
      dispatch s i = Inr (s\<lparr>fp_regs := (fp_regs s)
        (unat (rd i) := fp_set_w (fp_regs s (unat (rd i))) (ucast b))\<rparr>, i)"
proof -
  have h: "(inst_fmin_d, func_fmin_d) \<in> set handler_of" "(inst_fmax_d, func_fmax_d) \<in> set handler_of"
    "(inst_fmin_s, func_fmin_s) \<in> set handler_of" "(inst_fmax_s, func_fmax_s) \<in> set handler_of"
    by (simp_all add: handler_of_def)
  show "dispatch s i = Inr (s\<lparr>fp_regs := (fp_regs s)(unat (rd i) := b)\<rparr>, i)"
    if "itype i \<in> {inst_fmin_d, inst_fmax_d}" "d_nan a \<or> d_nan b \<or> d_val a = 0 \<and> d_val b = 0"
  proof -
    have "\<not> f64_lt a b" "\<not> f64_lt b a" using that(2) by (auto simp: compare_word)
    then have "func_fmin_d s i = Inr (s\<lparr>fp_regs := (fp_regs s)(unat (rd i) := b)\<rparr>, i)"
      "func_fmax_d s i = Inr (s\<lparr>fp_regs := (fp_regs s)(unat (rd i) := b)\<rparr>, i)"
      using assms(1) by (simp_all add: func_defs FUNC_fp_d_def a_def b_def)
    with that(1) h(1,2) dispatch_handler [of i func_fmin_d s] dispatch_handler [of i func_fmax_d s]
    show ?thesis by auto
  qed
  show "dispatch s i = Inr (s\<lparr>fp_regs := (fp_regs s)
      (unat (rd i) := fp_set_w (fp_regs s (unat (rd i))) (ucast b))\<rparr>, i)"
    if "itype i \<in> {inst_fmin_s, inst_fmax_s}"
      "s_nan (ucast a) \<or> s_nan (ucast b) \<or> s_val (ucast a) = 0 \<and> s_val (ucast b) = 0"
  proof -
    have "\<not> f32_lt (ucast a) (ucast b)" "\<not> f32_lt (ucast b) (ucast a)" using that(2) by (auto simp: compare_word)
    then have "func_fmin_s s i = Inr (s\<lparr>fp_regs := (fp_regs s)
        (unat (rd i) := fp_set_w (fp_regs s (unat (rd i))) (ucast b))\<rparr>, i)"
      "func_fmax_s s i = Inr (s\<lparr>fp_regs := (fp_regs s)
        (unat (rd i) := fp_set_w (fp_regs s (unat (rd i))) (ucast b))\<rparr>, i)"
      using assms(1) by (simp_all add: func_defs FUNC_fp_s_def a_def b_def fp_get_w_def)
    with that(1) h(3,4) dispatch_handler [of i func_fmin_s s] dispatch_handler [of i func_fmax_s s]
    show ?thesis by auto
  qed
qed

section \<open>Fused multiply-add\<close>

lemma half_away: "(1 :: real) / 2 \<le> \<bar>real_of_int k - 3 / 2\<bar>"
proof (cases "k \<le> 1")
  case True
  then have "real_of_int k \<le> 1" by simp
  then show ?thesis by linarith
next
  case False
  then have "2 \<le> k" by simp
  then have "2 \<le> real_of_int k" by simp
  then show ?thesis by linarith
qed

lemma one_units: "f_one 11 52 = 2 ^ Suc 1073"
  by (simp add: f_one_def)

lemma small_fields:
  "f_exp 11 52 4602678819172646912 = 1022" "f_frac 52 4602678819172646912 = 0" "\<not> f_sign 11 52 4602678819172646912"
  "\<not> f_is_nan 11 52 4602678819172646912" "\<not> f_is_inf 11 52 4602678819172646912"
  "f_units 11 52 0 = 0" "\<not> f_sign 11 52 0" "\<not> f_is_nan 11 52 0" "\<not> f_is_inf 11 52 0"
  "f_units 11 52 1 = 1" "\<not> f_sign 11 52 1" "\<not> f_is_nan 11 52 1" "\<not> f_is_inf 11 52 1"
  "f_units 11 52 2 = 2" "\<not> f_sign 11 52 2" "\<not> f_is_nan 11 52 2"
  by (simp_all add: f_exp_def f_frac_def f_sign_def f_is_nan_def f_is_inf_def f_mag_def f_inf_def f_units_def)

lemma half_units: "f_units 11 52 4602678819172646912 = 2 ^ 1073"
proof -
  have "f_units 11 52 4602678819172646912 = 2 ^ 52 * 2 ^ 1021" unfolding f_units_def small_fields by simp
  also have "\<dots> = (2 :: nat) ^ (52 + 1021)" by (rule power_add [symmetric])
  finally show ?thesis by simp
qed

lemma round_half: "round_div (2 ^ k) (2 ^ Suc k) = 0" "(2 :: nat) ^ k div 2 ^ Suc k = 0"
  by (simp_all add: round_div_def)

lemma half_product: "f64_op2 f_mul 1 0x3fe0000000000000 = 0"
proof -
  have "f_round 11 52 (f_units 11 52 1 * f_units 11 52 4602678819172646912) (f_one 11 52) = 0"
    unfolding f_round_def half_units one_units small_fields Let_def mult_1 round_half
    by (simp add: floor_log2.simps [of 0] round_half del: power_Suc power_numeral Suc_numeral)
  then have "f_mul 11 52 1 4602678819172646912 = 0"
    unfolding f_mul_def f_nan2_def Let_def by (simp add: small_fields half_units f_signed_def del: One_nat_def)
  then show ?thesis by (simp add: f64_op2_def del: One_nat_def)
qed

lemma small_sum: "f64_op2 f_add 0 1 = 1"
proof -
  have "f_of_int 11 52 1 = 1"
    by (simp add: f_of_int_def f_round_def f_signed_def round_div_def f_inf_def floor_log2.simps [of "Suc 0"])
  then have "f_add 11 52 0 1 = 1"
    by (simp add: f_add_def f_nan2_def f_int_def small_fields del: One_nat_def)
  then show ?thesis by (simp add: f64_op2_def del: One_nat_def)
qed

lemma half_values:
  "d_val 1 = 1 / 2 ^ Suc 1073" "d_val 0x3fe0000000000000 = 1 / 2" "f_val 11 52 2 = 2 / 2 ^ Suc 1073"
proof -
  show "d_val 1 = 1 / 2 ^ Suc 1073" "f_val 11 52 2 = 2 / 2 ^ Suc 1073"
    by (simp_all add: d_val_def f_val_def f_int_def small_fields one_units del: power_Suc One_nat_def)
  have "d_val 0x3fe0000000000000 = real (2 ^ 1073) / real (2 ^ Suc 1073)"
    by (simp add: d_val_def f_val_def f_int_def small_fields half_units one_units del: power_Suc of_nat_power power_numeral)
  also have "\<dots> = 1 / 2" unfolding power_Suc of_nat_mult of_nat_power by (simp del: power_numeral)
  finally show "d_val 0x3fe0000000000000 = 1 / 2" .
qed

text \<open>
  \<open>fmadd.d\<close> rounds the product before it adds: with the smallest subnormal number for \<open>rs1\<close> and
  \<open>rs3\<close> and one half for \<open>rs2\<close> the result is that number, while the exact one rounds to twice that.
\<close>

lemma fmadd_rounds_twice:
  assumes "itype i = inst_fmadd_d" "regs_ok i"
    and "fp_regs s (unat (rs1 i)) = 1" "fp_regs s (unat (rs2 i)) = 0x3fe0000000000000" "fp_regs s (unat (rs3 i)) = 1"
  shows "dispatch s i = Inr (s\<lparr>fp_regs := (fp_regs s)(unat (rd i) := 1)\<rparr>, i) \<and>
    d_rounded False (d_val 1 * d_val 0x3fe0000000000000 + d_val 1) 2"
proof
  have "dispatch s i = func_fmadd_d s i" using assms(1) by (intro dispatch_handler) (simp add: handler_of_def)
  with assms(2-5) show "dispatch s i = Inr (s\<lparr>fp_regs := (fp_regs s)(unat (rd i) := 1)\<rparr>, i)"
    by (simp add: func_defs FUNC_fma_d_def half_product small_sum)
  define e :: real where "e = 2 ^ Suc 1073"
  have e: "0 < e" by (simp add: e_def del: power_Suc)
  have near: "\<bar>2 / e - 3 / 2 / e\<bar> \<le> \<bar>f_val 11 52 w - 3 / 2 / e\<bar>" for w
  proof -
    have "\<bar>2 / e - 3 / 2 / e\<bar> = 1 / 2 / e" using e by (simp add: field_simps)
    also have "1 / 2 \<le> \<bar>real_of_int (f_int 11 52 w) - 3 / 2\<bar>" by (rule half_away)
    then have "1 / 2 / e \<le> \<bar>real_of_int (f_int 11 52 w) - 3 / 2\<bar> / e" using e by (intro divide_right_mono) simp_all
    also have "\<bar>real_of_int (f_int 11 52 w) - 3 / 2\<bar> / e = \<bar>(real_of_int (f_int 11 52 w) - 3 / 2) / e\<bar>"
      using e by (simp only: abs_divide abs_of_pos)
    also have "(real_of_int (f_int 11 52 w) - 3 / 2) / e = real_of_int (f_int 11 52 w) / e - 3 / 2 / e"
      by (rule diff_divide_distrib)
    also have "real_of_int (f_int 11 52 w) / e = f_val 11 52 w"
      by (simp add: f_val_def one_units e_def del: power_Suc)
    finally show ?thesis .
  qed
  have sum: "d_val 1 * d_val 0x3fe0000000000000 + d_val 1 = 3 / 2 / e"
    using e unfolding half_values e_def [symmetric] by (simp add: field_simps)
  have "nearest_even 11 52 (3 / 2 / e) 2"
    unfolding nearest_even_def half_values e_def [symmetric] using near by (simp add: small_fields)
  then show "d_rounded False (d_val 1 * d_val 0x3fe0000000000000 + d_val 1) 2"
    unfolding sum by (simp add: d_rounded_def rounded_def small_fields)
qed

section \<open>Conversions to integers\<close>

text \<open>
  The rounding mode of the instruction is lost in decoding: also rounding towards zero, the mode a C cast
  has, gives 2 for 1.5.
\<close>

lemma rounding_mode_lost:
  "(t, f7, r2) \<in> set fcvt_table \<Longrightarrow>
    decode_inst p (enc_r f7 r2 r1 rm r 0x53) = decode_inst p (enc_r f7 r2 r1 rm' r 0x53)"
  "(u, f7) \<in> set frm_table \<Longrightarrow>
    decode_inst p (enc_r f7 r2 r1 rm r 0x53) = decode_inst p (enc_r f7 r2 r1 rm' r 0x53)"
  using list_all_iff [THEN iffD1, OF decode_rows_fcvt, rule_format, of "(t, f7, r2)"]
    list_all_iff [THEN iffD1, OF decode_rows_frm, rule_format, of "(u, f7)"] by simp_all

lemma half_rounds_up:
  assumes "itype i \<in> {inst_fcvt_w_d, inst_fcvt_wu_d, inst_fcvt_l_d, inst_fcvt_lu_d}" "regs_ok i"
    and "fp_regs s (unat (rs1 i)) = 0x3ff8000000000000"
  shows "dispatch s i = Inr (s\<lparr>gp_regs := (gp_regs s)(unat (rd i) := 2)\<rparr>, i)"
proof -
  have f: "f_exp 11 52 4609434218613702656 = 1023" "f_frac 52 4609434218613702656 = 2 ^ 51"
    "\<not> f_sign 11 52 4609434218613702656" and fin: "d_finite 0x3ff8000000000000"
    by (simp_all add: f_exp_def f_frac_def f_sign_def f_mag_def d_finite_def f_finite_def f_inf_def)
  have u: "f_units 11 52 4609434218613702656 = 3 * 2 ^ 51 * 2 ^ 1022" unfolding f_units_def f by simp
  have "f_one 11 52 = 2 * 2 ^ 51 * 2 ^ 1022" by (simp add: f_one_def)
  with u f(3) have "d_val 0x3ff8000000000000 = real (3 * 2 ^ 51 * 2 ^ 1022) / real (2 * 2 ^ 51 * 2 ^ 1022)"
    by (simp add: d_val_def f_val_def f_int_def)
  also have "\<dots> = 3 / 2" by simp
  finally have "of_d (to_integer lo hi res) 0x3ff8000000000000 b v" if "lo \<le> 2" "2 < hi" "v = res 2" for lo hi b res v
    using fin that by (auto simp: of_d_def to_integer_def round_int_def intro!: exI [of _ 2])
  note two = this
  have conv: "of_d to_w 0x3ff8000000000000 b 2" "of_d to_wu 0x3ff8000000000000 b 2"
    "of_d to_l 0x3ff8000000000000 b 2" "of_d to_lu 0x3ff8000000000000 b 2" for b
    unfolding to_w_def to_wu_def to_l_def to_lu_def
    by (rule two; simp)+
  have mem: "(inst_fcvt_w_d, of_d to_w) \<in> set isa_fi" "(inst_fcvt_wu_d, of_d to_wu) \<in> set isa_fi"
    "(inst_fcvt_l_d, of_d to_l) \<in> set isa_fi" "(inst_fcvt_lu_d, of_d to_lu) \<in> set isa_fi"
    by (simp_all add: isa_fi_def)
  have go: ?thesis if "(t, S) \<in> set isa_fi" "\<And>b. S 0x3ff8000000000000 b 2" "itype i = t" for t S
    using dispatch_fi [of i S s 2] that assms(2,3) by simp
  from assms(1) consider "itype i = inst_fcvt_w_d" | "itype i = inst_fcvt_wu_d" | "itype i = inst_fcvt_l_d" |
    "itype i = inst_fcvt_lu_d" by blast
  then show ?thesis
    by cases (rule go [OF mem(1) conv(1)] go [OF mem(2) conv(2)] go [OF mem(3) conv(3)] go [OF mem(4) conv(4)],
      assumption)+
qed

context format begin

lemma f_llrint_invalid:
  assumes "\<not> f_finite eb fb x \<or> 2 ^ 63 \<le> f_val eb fb x"
  shows "f_llrint eb fb x = 0x8000000000000000"
proof (cases "f_finite eb fb x")
  case True
  with assms have val: "2 ^ 63 \<le> f_val eb fb x" by simp
  have den: "0 < f_one eb fb" by (simp add: f_one_def)
  have pos: "\<not> f_sign eb fb x" using val sign_val [of x] by auto
  have "real (f_units eb fb x) / real (f_one eb fb) = f_val eb fb x" using one_pos val by (simp add: units_val)
  with round_div_real(1) [OF den, of "f_units eb fb x"] obtain n where
    n: "n = round_div (f_units eb fb x) (f_one eb fb)" "\<bar>real n - f_val eb fb x\<bar> \<le> 1 / 2" by simp
  from n(2) val have "2 ^ 63 - 1 < real n" by linarith
  then have "real (2 ^ 63 - 1) < real n" by simp
  then have "2 ^ 63 - 1 < n" by (simp only: of_nat_less_iff)
  then have "2 ^ 63 \<le> int (round_div (f_units eb fb x) (f_one eb fb))" unfolding n(1) [symmetric] by simp
  with pos show ?thesis by (simp add: f_llrint_def Let_def)
next
  case False
  then show ?thesis by (simp add: f_llrint_def f_finite_def Let_def)
qed

end

text \<open>
  NaNs, infinities and everything from \<open>2 ^ 63\<close> on give the number the host has for them, in the 32-bit
  conversions its low half, which is zero; the ISA has the largest or smallest integer of the type.
\<close>

lemma convert_invalid:
  fixes s :: cpu_t
  assumes "regs_ok i"
  defines "a \<equiv> fp_regs s (unat (rs1 i))"
  shows "\<not> d_finite a \<or> 2 ^ 63 \<le> d_val a \<Longrightarrow>
      (itype i \<in> {inst_fcvt_w_d, inst_fcvt_wu_d} \<longrightarrow>
        dispatch s i = Inr (s\<lparr>gp_regs := (gp_regs s)(unat (rd i) := 0)\<rparr>, i)) \<and>
      (itype i \<in> {inst_fcvt_l_d, inst_fcvt_lu_d} \<longrightarrow>
        dispatch s i = Inr (s\<lparr>gp_regs := (gp_regs s)(unat (rd i) := 0x8000000000000000)\<rparr>, i))"
    "\<not> s_finite (ucast a) \<or> 2 ^ 63 \<le> s_val (ucast a) \<Longrightarrow>
      (itype i \<in> {inst_fcvt_w_s, inst_fcvt_wu_s} \<longrightarrow>
        dispatch s i = Inr (s\<lparr>gp_regs := (gp_regs s)(unat (rd i) := 0)\<rparr>, i)) \<and>
      (itype i \<in> {inst_fcvt_l_s, inst_fcvt_lu_s} \<longrightarrow>
        dispatch s i = Inr (s\<lparr>gp_regs := (gp_regs s)(unat (rd i) := 0x8000000000000000)\<rparr>, i))"
proof -
  have d: "(t, f) \<in> {(inst_fcvt_w_d, func_fcvt_w_d), (inst_fcvt_wu_d, func_fcvt_wu_d), (inst_fcvt_l_d, func_fcvt_l_d),
      (inst_fcvt_lu_d, func_fcvt_lu_d), (inst_fcvt_w_s, func_fcvt_w_s), (inst_fcvt_wu_s, func_fcvt_wu_s),
      (inst_fcvt_l_s, func_fcvt_l_s), (inst_fcvt_lu_s, func_fcvt_lu_s)} \<Longrightarrow> itype i = t \<Longrightarrow> dispatch s i = f s i" for t f
    by (rule dispatch_handler) (auto simp: handler_of_def)
  have low: "sext32 0x8000000000000000 = 0" by (simp add: sext32_def)
  note defs = func_defs d_to_x_def s_to_x_def fp_get_w_def low assms(1)
  show "(itype i \<in> {inst_fcvt_w_d, inst_fcvt_wu_d} \<longrightarrow>
        dispatch s i = Inr (s\<lparr>gp_regs := (gp_regs s)(unat (rd i) := 0)\<rparr>, i)) \<and>
      (itype i \<in> {inst_fcvt_l_d, inst_fcvt_lu_d} \<longrightarrow>
        dispatch s i = Inr (s\<lparr>gp_regs := (gp_regs s)(unat (rd i) := 0x8000000000000000)\<rparr>, i))"
    if "\<not> d_finite a \<or> 2 ^ 63 \<le> d_val a"
  proof -
    have "llrint a = 0x8000000000000000"
      using that double.f_llrint_invalid [of "unat a"] by (simp add: llrint_def number_defs)
    then have "func_fcvt_w_d s i = Inr (s\<lparr>gp_regs := (gp_regs s)(unat (rd i) := 0)\<rparr>, i)"
      "func_fcvt_wu_d s i = Inr (s\<lparr>gp_regs := (gp_regs s)(unat (rd i) := 0)\<rparr>, i)"
      "func_fcvt_l_d s i = Inr (s\<lparr>gp_regs := (gp_regs s)(unat (rd i) := 0x8000000000000000)\<rparr>, i)"
      "func_fcvt_lu_d s i = Inr (s\<lparr>gp_regs := (gp_regs s)(unat (rd i) := 0x8000000000000000)\<rparr>, i)"
      by (simp_all add: defs a_def)
    with d [of inst_fcvt_w_d func_fcvt_w_d] d [of inst_fcvt_wu_d func_fcvt_wu_d]
      d [of inst_fcvt_l_d func_fcvt_l_d] d [of inst_fcvt_lu_d func_fcvt_lu_d]
    show ?thesis by simp
  qed
  show "(itype i \<in> {inst_fcvt_w_s, inst_fcvt_wu_s} \<longrightarrow>
        dispatch s i = Inr (s\<lparr>gp_regs := (gp_regs s)(unat (rd i) := 0)\<rparr>, i)) \<and>
      (itype i \<in> {inst_fcvt_l_s, inst_fcvt_lu_s} \<longrightarrow>
        dispatch s i = Inr (s\<lparr>gp_regs := (gp_regs s)(unat (rd i) := 0x8000000000000000)\<rparr>, i))"
    if "\<not> s_finite (ucast a) \<or> 2 ^ 63 \<le> s_val (ucast a)"
  proof -
    have "llrintf (ucast a) = 0x8000000000000000"
      using that single.f_llrint_invalid [of "unat (ucast a :: u32)"] by (simp add: llrintf_def number_defs)
    then have "func_fcvt_w_s s i = Inr (s\<lparr>gp_regs := (gp_regs s)(unat (rd i) := 0)\<rparr>, i)"
      "func_fcvt_wu_s s i = Inr (s\<lparr>gp_regs := (gp_regs s)(unat (rd i) := 0)\<rparr>, i)"
      "func_fcvt_l_s s i = Inr (s\<lparr>gp_regs := (gp_regs s)(unat (rd i) := 0x8000000000000000)\<rparr>, i)"
      "func_fcvt_lu_s s i = Inr (s\<lparr>gp_regs := (gp_regs s)(unat (rd i) := 0x8000000000000000)\<rparr>, i)"
      by (simp_all add: defs a_def)
    with d [of inst_fcvt_w_s func_fcvt_w_s] d [of inst_fcvt_wu_s func_fcvt_wu_s]
      d [of inst_fcvt_l_s func_fcvt_l_s] d [of inst_fcvt_lu_s func_fcvt_lu_s]
    show ?thesis by simp
  qed
qed

section \<open>Single-precision results\<close>

text \<open>A result that is written over anything but a NaN-boxed number is not NaN-boxed.\<close>

lemma unboxed_over: "\<not> boxed r \<Longrightarrow> \<not> boxed (fp_set_w r v)"
proof -
  have "drop_bit 32 (fp_set_w r v) = drop_bit 32 r"
    by (rule bit_word_eqI) (auto simp: fp_set_w_def bit_simps dest: bit_imp_le_length)
  then show "\<not> boxed r \<Longrightarrow> \<not> boxed (fp_set_w r v)" by (simp add: boxed_def)
qed

end
