(* ===== verification/Spec2Isabelle.thy ===== *)
theory Spec2Isabelle
  imports Program Output Deviations
begin

text \<open>
  Verification of a RISC-V 64 user-mode emulator written in C (the files under \<open>src/src\<close>).

  \<^bold>\<open>The program.\<close> \<open>main\<close> (\<open>rvemu.c\<close>) loads a static RV64 ELF executable into its own
  address space, every guest address shifted up by \<open>GUEST_MEMORY_OFFSET\<close> (\<open>mmu.c\<close>,
  \<open>elfdef.h\<close>), builds the initial stack and then loops: \<open>machine_step\<close> (\<open>machine.c\<close>)
  runs blocks of instructions until an \<open>ecall\<close>, \<open>do_syscall\<close> (\<open>syscall.c\<close>) serves it,
  and the result goes into \<open>a0\<close>. A block is run by \<open>exec_block_interp\<close> (\<open>interp.c\<close>):
  fetch four bytes, decode them (\<open>decode.c\<close>) into an \<open>inst_t\<close>, call the handler of its
  type from the table \<open>funcs\<close>, reset \<open>x0\<close>, and leave the loop when the instruction ends
  the block. Branches, jumps and \<open>ecall\<close> end it.

  \<^bold>\<open>The theories.\<close>
  \<^item> \<open>Prelude\<close>: machine integers as words, errors as values, \<open>switch\<close>, little-endian bytes.
  \<^item> \<open>Memory\<close>: the process's address space as bytes with protections; loads and stores.
  \<^item> \<open>Loops\<close>: \<open>while (true)\<close> as \<open>c_loop\<close> (\<open>None\<close>: it never ends), the same loop
    with fuel, and the locale \<open>loop_contract\<close>: what one iteration promises and what follows
    for the loop. It is interpreted for all three loops of the program (\<open>block\<close> in
    \<open>Block\<close>, \<open>steps\<close> in \<open>Machine\<close>, \<open>calls\<close> in \<open>Syscall\<close>). The locale
    \<open>loop_simulation\<close> is the interface between a loop and a step relation it implements: the loop
    follows the finite and the infinite runs. It is interpreted for the loop over blocks (\<open>blocks\<close> in
    \<open>Isa_Step\<close>) and for the loop over system calls (\<open>system\<close> in \<open>System\<close>).
  \<^item> \<open>Rvemu\<close>: \<open>rvemu.h\<close> and \<open>regs.h\<close>: the instruction types, \<open>inst_t\<close>, \<open>state_t\<close>
    (with the memory and the text written to \<open>stderr\<close> as ghost fields), register access with the
    bounds of the arrays written out, address translation and rounding.
  \<^item> \<open>Decode\<close>: \<open>decode.c\<close>, reader by reader and case by case. \<open>Decode_WF\<close>: decoded
    instructions are well formed. \<open>Encode\<close>: the encodings of the ISA manual, those of the CSR
    instructions, of \<open>ecall\<close> and of \<open>ebreak\<close> included.
    \<open>Decode_Roundtrip\<close>: decoding inverts them. \<open>Rvc\<close>: the compressed instructions against
    their expansions.
  \<^item> \<open>Interp_Util\<close>: \<open>interp_util.h\<close>, against integer and bit-level specifications.
    \<open>Host_Float\<close>: C's \<open>float\<close> and \<open>double\<close> operations on bit patterns, executable.
    \<open>Interp\<close>: \<open>interp.c\<close>, one definition per handler over one combinator per \<open>FUNC\<close>
    macro, the table and the loop.
    \<open>Output\<close>: the text of fatal messages and of \<open>inst_print\<close>.
  \<^item> \<open>Handlers\<close>: the contract of every handler and the alignment of the table with the
    enumeration. \<open>Block\<close>: the contract of a block.
  \<^item> \<open>Isa\<close>, \<open>Isa_Mem\<close>: the integer instructions, loads and stores as the ISA manual
    defines them over the integers, and that the handlers compute that. \<open>Rvc_Exec\<close>: compressed
    instructions have the effect of their expansions.
  \<^item> \<open>Float_Round\<close>: the values of floating-point numbers and what it means to be a real number
    rounded to a format. In the locale \<open>format\<close> (the widths of exponent and fraction) the operations of
    \<open>Host_Float\<close> are shown to round correctly; the interpretations are \<open>double\<close> and \<open>single\<close>,
    and \<open>widen_f\<close> and \<open>narrow\<close> for the locale \<open>conversion\<close> between two formats.
    \<open>Float_Conv\<close>: integers converted to doubles and back. \<open>Isa_Fp\<close>, \<open>Isa_Fp_S\<close>: the
    floating-point instructions as the ISA manual defines them, over the reals and on bit patterns, and that the
    handlers compute that. \<open>Deviations\<close>: where they do not, and what they do instead.
  \<^item> \<open>Elfdef\<close>: \<open>elfdef.h\<close>, with the layout of the two headers the loader reads.
    \<open>Mmu\<close>, \<open>Elf_Load\<close>: the loader and the allocator of \<open>mmu.c\<close>; what a loaded file
    leaves in memory, that a file as a linker writes it loads, the invariant of the allocator, what shrinking
    the break and growing it again does.
    \<open>Arena\<close>: memory handed out from the bottom as an interface, the locale \<open>arena\<close>, whose
    laws the break allocator satisfies on every host that keeps the promises of \<open>mmap\<close> (the
    interpretation \<open>heap\<close>).
  \<^item> \<open>Machine\<close>: \<open>machine.c\<close>. \<open>Setup\<close>: the stack \<open>machine_setup\<close> builds, as a client of
    \<open>arena\<close>. \<open>Syscall\<close>: \<open>syscall.c\<close> and \<open>main\<close>.
  \<^item> \<open>Isa_Step\<close>: a reference machine for RV64IMFDC as an inductive step relation, and that
    \<open>machine_step\<close> follows its runs. \<open>System\<close>: that machine with its system
    calls, each with what it asks of the host, returns and changes, or how it ends the emulator; the loop of
    \<open>main\<close> follows its runs, over any number of calls.
  \<^item> \<open>Program\<close>: \<open>main\<close> as a whole, from the command line to the end of the guest.
  \<^item> This theory: the properties, each with the input it is evaluated at.

  \<^bold>\<open>Reading the model.\<close> A C function that may fail returns \<open>error + 'a\<close>: a failed
  assertion, a fatal message with its text, the exit status, a memory fault with its address, a
  division by zero, an index outside an array. State is passed explicitly. The \<open>static\<close>
  instruction of \<open>exec_block_interp\<close>, which \<open>ecall\<close> reuses without clearing, is part of
  the machine. Uninitialised memory the code reads (the program header buffer, the bytes behind
  \<open>argc\<close>) is an argument. The kernel is a parameter: the page size, which fixed mappings it
  refuses and where it puts hinted ones (\<open>host_t\<close>), and what the system calls that are passed
  on do to memory and to the world outside (\<open>os_t\<close>); \<open>host_ok\<close> is what the manual of
  \<open>mmap\<close> promises about hints, \<open>host_keeps\<close> that a hinted mapping never replaces another one. Signed overflow, which C leaves undefined and which occurs only
  in \<open>mulh\<close> and \<open>mulhsu\<close>, wraps around. C's \<open>float\<close> and \<open>double\<close> operations are
  those of SSE2 on x86-64, each rounded on its own: the Makefile gives no architecture flag, so that a
  product and a sum are not contracted to a fused operation.

  \<^bold>\<open>The domain of the reference machine.\<close> It has every integer instruction of RV64IMC but the CSR
  instructions and \<open>ebreak\<close>, and of 32-bit divisions those whose divisor register is zero or has a
  low half that is not zero. Of the floating-point instructions it has
  all but the fused ones, on these domains: operands of arithmetic and of conversions are finite, and single
  precision operands NaN-boxed; no division is by zero and no root of a negative number; minimum and maximum are of numbers that are not both zeros; conversions to
  integers are in range, for unsigned 64-bit ones below \<open>2 ^ 63\<close>; and an instruction with a
  single-precision result overwrites a NaN-boxed register.
  The instructions that round do it to nearest, by their rounding mode or by the dynamic one.

  \<^bold>\<open>Bounds and fuel.\<close> No definition is bounded: the loops of the program are \<open>c_loop\<close>, and
  the lemmas \<open>c_loop_n_sound\<close> and \<open>c_loop_n_complete\<close> relate it to the version with fuel.

  \<^bold>\<open>What the properties show.\<close> A loaded program is started at its entry point with its
  arguments on the stack, and the emulator does what the program does according to the ISA and the table of
  system calls: it ends with the exit status, the fault or the refused call its run ends with, and keeps
  running while it runs for ever; for a program that never leaves the reference machine these are its only
  outcomes. Decoding inverts encoding, compressed instructions included. The three loops keep
  their invariants and cannot index out of range or fail the assertions that guard the control flow; the
  arithmetic, memory and floating-point instructions compute the specified values, floating-point arithmetic
  the correctly rounded ones; a loaded file is in memory as its headers say; the allocator hands out usable
  memory; every system call is served or refused as the table says.
  Where the code does something else than it means to, the property says what it does: the count
  of arguments on the stack, 32-bit division by a register whose low half is zero, shrinking the
  break and growing it again, the part of \<open>.bss\<close> behind file contents, a segment without file contents.

  \<^bold>\<open>Not modelled.\<close> The emulator's own memory: guest addresses are shifted and used without a check, so a
  store of the guest, a segment of the file or a buffer the kernel fills could overwrite the emulator's
  stack, its table of handlers or its registers. The model keeps all of these outside the address space
  \<open>mem_t\<close>, and every property of a run takes for granted that the guest does not reach them. Standard
  output, where the decoder prints the encoding before one of its fatal messages; the text of
  \<open>strerror\<close> in the fatal message of a failed \<open>munmap\<close>. Signals and the host's floating-point environment, which the program does
  not touch; execution permission of guest pages, which the emulator does not check; the host's system calls
  and the contents of files behind them, which are parameters. The reference machine leaves out what
  the emulator does not do as the ISA says (\<open>Deviations\<close>): single-precision results over a register
  that is not NaN-boxed, results that are NaNs (the sign is the host's), fused multiply-add (rounded twice),
  other rounding modes and out-of-range values of conversions to integers, CSR instructions (the three
  floating-point registers read as zero, all others end the emulator) and \<open>ebreak\<close> (the decoder refuses it). Their handlers are modelled, and the contract of handlers covers them.
\<close>

section \<open>A concrete machine\<close>

text \<open>
  The inputs at which the properties are evaluated: a machine with the bytes \<open>bs\<close> in readable,
  writable and executable memory at the guest address \<open>0x10000\<close>, about to execute them.
\<close>

definition demo_mem :: "u8 list \<Rightarrow> mem_t" where
  "demo_mem bs x =
     (let k = unat (x - TO_HOST 0x10000) in if k < length bs then Some (bs ! k, 7) else None)"

definition demo_cpu :: "u8 list \<Rightarrow> cpu_t" where
  "demo_cpu bs = \<lparr>exit_reason = none, reenter_pc = 0, gp_regs = (\<lambda>_. 0), fp_regs = (\<lambda>_. 0),
     pc = 0x10000, mem = demo_mem bs, stderr_log = []\<rparr>"

definition demo_machine :: "u8 list \<Rightarrow> unit machine_t" where
  "demo_machine bs = \<lparr>state = demo_cpu bs, mmu = mmu_zero, interp_inst = inst_zero, world = ()\<rparr>"

lemmas demo_defs = demo_mem_def demo_cpu_def demo_machine_def GUEST_MEMORY_OFFSET_def TO_HOST_def

lemma demo_cpu_ok: "cpu_ok (demo_cpu bs)" "regs_ok inst_zero" "machine_ok (demo_machine bs)"
  by (simp_all add: cpu_ok_def demo_defs regs_ok_def machine_ok_def)

text \<open>\<open>addi a0, x0, 7\<close>, \<open>c.addi a0, 1\<close>, \<open>ecall\<close>.\<close>

definition demo_code :: "u8 list" where
  "demo_code = [0x13, 0x05, 0x70, 0x00, 0x05, 0x05, 0x73, 0x00, 0x00, 0x00]"

lemma demo_fetch:
  "fetches (demo_mem demo_code) 0x10000 (enc_i 7 0 0 10 0x13)"
  "fetches (demo_mem demo_code) 0x10004 0x730505"
  "fetches (demo_mem demo_code) 0x10006 0x73"
  by code_simp+

lemma demo_expand: "expand_rvc (ucast (0x730505 :: u32)) = Some (enc_i 1 10 0 10 0x13)"
  by code_simp


section \<open>The emulator executes RISC-V programs\<close>

text \<open>
  C2: a run of the reference machine (any mixture of 32-bit and compressed instructions: integer
  arithmetic, multiplication and division, loads, stores, branches, jumps, fences, and the
  floating-point instructions on the domain of their tables) that reaches an \<open>ecall\<close> is one call of
  \<open>machine_step\<close>. The call returns, reports \<open>ecall\<close>, and leaves exactly the integer and
  floating-point registers and the memory of that run and the program counter behind the
  \<open>ecall\<close>; the allocator and the host are untouched.
\<close>

theorem machine_step_refines_isa:
  fixes m :: "'w machine_t"
  assumes "isa_step\<^sup>*\<^sup>* (arch_of (state m)) ((p, g, mm), f)" "fetches mm p 0x73" "regs_ok (interp_inst m)"
  shows "\<exists>m'. machine_step m = Some (Inr (m', ecall)) \<and> pc (state m') = p + 4 \<and>
    gp_regs (state m') = g(reg_zero := 0) \<and> fp_regs (state m') = f \<and> mem (state m') = mm \<and>
    same_host_side m m'"
  using machine_step_to_ecall [OF assms] by (force simp: arch_of_def)

lemma demo_addi: "isa_exec (inst_zero\<lparr>rd := r, rs1 := r1, imm := k, itype := inst_addi\<rparr>) n (p, g, m)
    (p + n, wr g r (word_of_int (uint (g (unat r1)) + sint k)), m)"
  using exec_i [where j = "inst_zero\<lparr>rd := r, rs1 := r1, imm := k, itype := inst_addi\<rparr>" and
      f = "\<lambda>a i. uint a + i" and n = n and p = p and g = g and m = m]
  by (simp add: isa_i_def)

lemma demo_enc: "encodes (enc_i i r1 0 r 0x13)
    (inst_zero\<lparr>rd := ucast r, rs1 := ucast r1, imm := scast i, itype := inst_addi\<rparr>)"
  by (rule enc_imm) (simp add: i_table_def)

lemma demo_wr: "g 0 = 0 \<Longrightarrow> unat r \<noteq> 0 \<Longrightarrow> wr g r v = g(unat r := v)"
  by (auto simp: wr_def rv_enum fun_eq_iff)

lemma demo_addi_step:
  assumes "fetches m p (enc_i i r1 0 r 0x13)"
  shows "isa_step ((p, g, m), f) ((p + 4, wr g (ucast r) (word_of_int
    (uint (g (unat (ucast r1 :: i8))) + sint (scast i :: i32))), m), f)"
  by (rule isa_step [OF executes_full [OF assms demo_enc] fexec_int [OF demo_addi]])
    (simp add: rounds_ok_def rounding_def class_defs)

lemma demo_run:
  "isa_step\<^sup>*\<^sup>* (arch_of (demo_cpu demo_code))
    ((0x10006, wr (wr (\<lambda>_. 0) 10 7) 10 8, demo_mem demo_code), \<lambda>_. 0)"
proof -
  let ?m = "demo_mem demo_code" and ?f = "\<lambda>_. 0"
  have "isa_step ((0x10000, \<lambda>_. 0, ?m), ?f) ((0x10004, wr (\<lambda>_. 0) 10 7, ?m), ?f)"
    using demo_addi_step [OF demo_fetch(1), of "\<lambda>_. 0"] by simp
  moreover have "isa_step ((0x10004, wr (\<lambda>_. 0) 10 7, ?m), ?f) ((0x10006, wr (wr (\<lambda>_. 0) 10 7) 10 8, ?m), ?f)"
    using isa_step [OF executes_rvc [OF demo_fetch(2) demo_expand demo_enc] fexec_int [OF demo_addi],
        of "wr (\<lambda>_. 0) 10 7"]
    by (simp add: wr_def rv_enum)
  ultimately show ?thesis by (simp add: arch_of_def demo_cpu_def)
qed

theorem machine_step_refines_isa_witness:
  "\<exists>m'. machine_step (demo_machine demo_code) = Some (Inr (m', ecall)) \<and> pc (state m') = 0x1000a \<and>
    gp_regs (state m') reg_a0 = 8 \<and> mem (state m') = demo_mem demo_code"
  using machine_step_refines_isa [of "demo_machine demo_code", OF _ demo_fetch(3)] demo_run
  by (force simp: demo_machine_def demo_cpu_ok wr_def rv_enum)

text \<open>
  C3: the loop of \<open>main\<close> executes programs with system calls. A run of the system, over any number
  of instructions and calls served by the host, that ends (the guest exits, makes a call that is not
  supported, moves the break below its image, or touches memory it may not) ends the loop with
  the same outcome.
\<close>

theorem main_loop_refines_system:
  assumes "(sys_step h os)\<^sup>*\<^sup>* (sys_of m) x" "sys_ends h x e" "regs_ok (interp_inst m)"
  shows "c_loop (main_body h os) m = Some (Inl e)"
  by (rule system_run_ends [OF assms])

text \<open>
  \<open>addi a7, x0, 64\<close>, \<open>ecall\<close>, \<open>addi a7, x0, 93\<close>, \<open>ecall\<close>: the guest exits with the result
  of \<open>write\<close>. The host maps where it is asked to, writes five bytes and does nothing else.
\<close>

definition demo_write :: "u8 list" where
  "demo_write = [0x93, 0x08, 0x00, 0x04, 0x73, 0, 0, 0, 0x93, 0x08, 0xd0, 0x05, 0x73, 0, 0, 0]"

definition demo_host :: host_t where
  "demo_host = \<lparr>page_size = 4096, mmap_refuses = (\<lambda>_ _. False), 
     mmap_place = (\<lambda>_ a len. if unat a + unat (ROUNDUP len 4096) \<le> user_space then Some a else None)\<rparr>"

definition demo_os :: "unit os_t" where
  "demo_os = \<lparr>int_call = (\<lambda>_ m w. (0, m, w)), long_call = (\<lambda>_ m w. (5, m, w))\<rparr>"

lemma demo_write_fetch:
  "fetches (demo_mem demo_write) 0x10000 (enc_i 64 0 0 17 0x13)" "fetches (demo_mem demo_write) 0x10004 0x73"
  "fetches (demo_mem demo_write) 0x10008 (enc_i 93 0 0 17 0x13)" "fetches (demo_mem demo_write) 0x1000c 0x73"
  by code_simp+

lemma demo_write_run:
  "(sys_step demo_host demo_os)\<^sup>*\<^sup>* (sys_of (demo_machine demo_write))
    (((0x1000c, (\<lambda>_. 0)(10 := 5, 17 := 93), demo_mem demo_write), \<lambda>_. 0), mmu_zero, ())"
proof -
  let ?m = "demo_mem demo_write" and ?f = "\<lambda>_. 0 :: u64" and ?g = "(\<lambda>_. 0)(17 := 64) :: nat \<Rightarrow> u64"
    and ?step = "sys_step demo_host demo_os"
  have "isa_step ((0x10000, \<lambda>_. 0, ?m), ?f) ((0x10004, ?g, ?m), ?f)"
    using demo_addi_step [OF demo_write_fetch(1), of "\<lambda>_. 0"] by (simp add: demo_wr)
  then have 1: "?step (((0x10000, \<lambda>_. 0, ?m), ?f), mmu_zero, ()) (((0x10004, ?g, ?m), ?f), mmu_zero, ())"
    by (rule sys_instruction)
  have "serves demo_host demo_os ?g (?m, mmu_zero, ()) 5 (?m, mmu_zero, ())"
    by (rule serve_long [where q = "\<lambda>a b c. Write (ucast a) (TO_HOST b) c"])
      (simp_all add: long_requests_def rv_enum sys_defs demo_os_def)
  from sys_call [OF demo_write_fetch(2) this] have
    2: "?step (((0x10004, ?g, ?m), ?f), mmu_zero, ()) (((0x10008, ?g(10 := 5), ?m), ?f), mmu_zero, ())"
    by (simp add: rv_enum fun_upd_idem)
  have "isa_step ((0x10008, ?g(10 := 5), ?m), ?f) ((0x1000c, (\<lambda>_. 0)(10 := 5, 17 := 93), ?m), ?f)"
    using demo_addi_step [OF demo_write_fetch(3), of "?g(10 := 5)"] by (simp add: demo_wr fun_upd_twist)
  then have 3: "?step (((0x10008, ?g(10 := 5), ?m), ?f), mmu_zero, ())
      (((0x1000c, (\<lambda>_. 0)(10 := 5, 17 := 93), ?m), ?f), mmu_zero, ())" by (rule sys_instruction)
  have "sys_of (demo_machine demo_write) = (((0x10000, \<lambda>_. 0, ?m), ?f), mmu_zero, ())"
    by (simp add: sys_of_def arch_of_def demo_machine_def demo_cpu_def)
  with 1 2 3 show ?thesis by (auto intro: converse_rtranclp_into_rtranclp)
qed

lemma demo_write_ends:
  "sys_ends demo_host (((0x1000c, (\<lambda>_. 0)(10 := 5, 17 := 93), demo_mem demo_write), \<lambda>_. 0), mmu_zero, ()) (Exit 5)"
  using end_call [OF demo_write_fetch(4) refuse_exit [of "(\<lambda>_. 0)(10 := 5, 17 := 93)"]]
  by (simp add: rv_enum sys_defs)

theorem main_loop_refines_system_witness:
  "c_loop (main_body demo_host demo_os) (demo_machine demo_write) = Some (Inl (Exit 5))"
  by (rule main_loop_refines_system [OF demo_write_run demo_write_ends]) (simp add: demo_machine_def demo_cpu_ok)

text \<open>
  C16: a program that runs for ever, with or without system calls, keeps the emulator running: when the
  system has an infinite run from the state of the machine, the loop of \<open>main\<close> does not end, neither
  with a result nor with a failure.
\<close>

theorem endless_program_never_ends:
  assumes "\<forall>k. sys_step h os (\<sigma> k) (\<sigma> (Suc k))" "\<sigma> 0 = sys_of m" "regs_ok (interp_inst m)"
  shows "c_loop (main_body h os) m = None"
  by (rule system_run_endless [OF assms])

text \<open>\<open>jal x0, 0\<close>.\<close>

definition demo_loop :: "u8 list" where "demo_loop = [0x6f, 0, 0, 0]"

lemma demo_loop_step:
  "isa_step (arch_of (state (demo_machine demo_loop))) (arch_of (state (demo_machine demo_loop)))"
proof -
  have f: "fetches (demo_mem demo_loop) 0x10000 (enc_j 0 0 0x6f)" by code_simp
  have z: "wr (\<lambda>_. 0) 0 v = (\<lambda>_. 0)" for v by (simp add: wr_def rv_enum fun_eq_iff)
  show ?thesis
    using isa_step [OF executes_full [OF f enc_jal] fexec_int [OF exec_jal], of "\<lambda>_. 0"]
    by (simp add: arch_of_def demo_machine_def demo_cpu_def z rounds_ok_def rounding_def class_defs)
qed

theorem endless_program_never_ends_witness: "c_loop (main_body demo_host demo_os) (demo_machine demo_loop) = None"
proof (rule endless_program_never_ends)
  let ?x = "sys_of (demo_machine demo_loop)"
  show "\<forall>k. sys_step demo_host demo_os ((\<lambda>_. ?x) k) ((\<lambda>_. ?x) (Suc k))"
    using demo_loop_step by (simp add: sys_of_def sys_instruction)
qed (simp_all add: demo_machine_def demo_cpu_ok)

text \<open>
  C15: for a program that stays within the reference machine (no reachable state is \<open>beyond\<close> it: every
  one can go on or end) the outcome is exact. The loop of \<open>main\<close> ends with \<open>e\<close> if and only if the
  program's run reaches a state that ends with \<open>e\<close>, and it runs for ever if and only if none is reached.
\<close>

theorem main_loop_exact:
  assumes "regs_ok (interp_inst m)" "\<And>x. (sys_step h os)\<^sup>*\<^sup>* (sys_of m) x \<Longrightarrow> \<not> beyond h os x"
  shows "(c_loop (main_body h os) m = Some (Inl e) \<longleftrightarrow>
      (\<exists>x. (sys_step h os)\<^sup>*\<^sup>* (sys_of m) x \<and> sys_ends h x e)) \<and>
    (c_loop (main_body h os) m = None \<longleftrightarrow>
      (\<forall>x e. (sys_step h os)\<^sup>*\<^sup>* (sys_of m) x \<longrightarrow> \<not> sys_ends h x e))"
  using system_exact [OF assms] by blast

text \<open>At \<open>ecall\<close> with the number of \<open>exit\<close> and the status 7.\<close>

definition demo_ecall :: "u8 list" where "demo_ecall = [0x73, 0, 0, 0]"

lemma demo_ecall_fetch: "fetches (demo_mem demo_ecall) 0x10000 0x73"
  by code_simp

definition demo_at_exit :: "unit machine_t" where
  "demo_at_exit = (demo_machine demo_ecall)\<lparr>state := (demo_cpu demo_ecall)\<lparr>gp_regs := (\<lambda>_. 0)(10 := 7, 17 := 93)\<rparr>\<rparr>"

lemma demo_at_exit_state: "sys_of demo_at_exit =
    (((0x10000, (\<lambda>_. 0)(10 := 7, 17 := 93), demo_mem demo_ecall), \<lambda>_. 0), mmu_zero, ())"
  by (simp add: demo_at_exit_def sys_of_def arch_of_def demo_machine_def demo_cpu_def)

lemma demo_at_exit_ends: "sys_ends demo_host (sys_of demo_at_exit) (Exit 7)"
  using end_call [OF demo_ecall_fetch refuse_exit [of "(\<lambda>_. 0)(10 := 7, 17 := 93)"]]
  by (simp add: demo_at_exit_state rv_enum sys_defs)

lemma demo_at_exit_stops: "\<not> sys_step demo_host demo_os (sys_of demo_at_exit) y"
proof
  assume "sys_step demo_host demo_os (sys_of demo_at_exit) y"
  then show False
    unfolding demo_at_exit_state
  proof (cases rule: sys_step.cases)
    case (sys_instruction c)
    with ecall_no_instruction [OF demo_ecall_fetch] show ?thesis by blast
  next
    case (sys_call v m u w)
    from sys_call(3) show ?thesis
      by (cases rule: serves.cases) (auto simp: int_requests_def long_requests_def sys_defs rv_enum)
  qed
qed

theorem main_loop_exact_witness:
  "c_loop (main_body demo_host demo_os) demo_at_exit = Some (Inl (Exit 7)) \<and>
   c_loop (main_body demo_host demo_os) demo_at_exit \<noteq> Some (Inl (Exit 8))"
proof -
  have reach: "x = sys_of demo_at_exit" if "(sys_step demo_host demo_os)\<^sup>*\<^sup>* (sys_of demo_at_exit) x" for x
    using that demo_at_exit_stops by (auto elim: converse_rtranclpE)
  have "\<not> beyond demo_host demo_os x" if "(sys_step demo_host demo_os)\<^sup>*\<^sup>* (sys_of demo_at_exit) x" for x
    using demo_at_exit_ends reach [OF that] by (auto simp: beyond_def)
  moreover have "regs_ok (interp_inst demo_at_exit)" by (simp add: demo_at_exit_def demo_machine_def demo_cpu_ok)
  ultimately have "c_loop (main_body demo_host demo_os) demo_at_exit = Some (Inl (Exit 7))"
    using main_loop_exact [of demo_at_exit demo_host demo_os "Exit 7"] demo_at_exit_ends by blast
  then show ?thesis by simp
qed

text \<open>The same within one call of \<open>machine_step\<close>.\<close>

lemma endless_guest_never_returns:
  fixes m :: "'w machine_t"
  assumes "\<forall>k. isa_step (\<sigma> k) (\<sigma> (Suc k))" "\<sigma> 0 = arch_of (state m)" "regs_ok (interp_inst m)"
  shows "machine_step m = None"
  by (rule machine_step_diverges [OF assms])

text \<open>
  C14: memory faults. A run to an instruction whose fetch, load or store touches a byte the guest may not
  touch ends the emulator with a fault at the host address of such a byte, and not earlier.
\<close>

theorem memory_faults_end_run:
  fixes m :: "'w machine_t"
  assumes "isa_step\<^sup>*\<^sup>* (arch_of (state m)) c" "isa_faults c x" "regs_ok (interp_inst m)"
  shows "machine_step m = Some (Inl (Segv x)) \<and> c_loop (main_body h os) m = Some (Inl (Segv x))"
proof
  show "machine_step m = Some (Inl (Segv x))" by (rule machine_step_to_fault [OF assms])
  show "c_loop (main_body h os) m = Some (Inl (Segv x))"
    by (rule system_run_ends [OF _ end_fault [OF assms(2)] assms(3)])
      (unfold sys_of_def, rule sys_instructions [OF assms(1)])
qed

text \<open>The run of \<open>addi a7, x0, 93\<close>, \<open>ecall\<close> without its last byte: the second fetch fails there.\<close>

definition demo_exit :: "u8 list" where
  "demo_exit = [0x93, 0x08, 0xd0, 0x05, 0x73, 0, 0, 0]"

lemma demo_exit_fetch:
  "fetches (demo_mem demo_exit) 0x10000 (enc_i 93 0 0 17 0x13)" "fetches (demo_mem demo_exit) 0x10004 0x73"
  "fetches (demo_mem (butlast demo_exit)) 0x10000 (enc_i 93 0 0 17 0x13)"
  by code_simp+

lemma demo_exit_run:
  assumes "fetches (demo_mem bs) 0x10000 (enc_i 93 0 0 17 0x13)"
  shows "isa_step\<^sup>*\<^sup>* (arch_of (state (demo_machine bs))) ((0x10004, wr (\<lambda>_. 0) 17 93, demo_mem bs), \<lambda>_. 0)"
proof -
  have "isa_step ((0x10000, \<lambda>_. 0, demo_mem bs), \<lambda>_. 0) ((0x10004, wr (\<lambda>_. 0) 17 93, demo_mem bs), \<lambda>_. 0)"
    using demo_addi_step [OF assms, of "\<lambda>_. 0"] by simp
  then show ?thesis by (simp add: arch_of_def demo_defs)
qed

theorem memory_faults_end_run_witness:
  "machine_step (demo_machine (butlast demo_exit)) = Some (Inl (Segv (TO_HOST 0x10007)))"
proof -
  have "load_bytes 4 (demo_mem (butlast demo_exit)) (TO_HOST 0x10004) = Inl (Segv (TO_HOST 0x10007))" by code_simp
  from memory_faults_end_run [OF demo_exit_run [OF demo_exit_fetch(3)] fault_fetch [OF this]]
  show ?thesis by (simp add: demo_machine_def demo_cpu_ok)
qed

section \<open>Decoding\<close>

text \<open>
  C4: decoding inverts encoding. For every instruction of RV64IMFD and of the CSR instructions in the opcode
  tables of the ISA manual, every choice of its registers, immediate and rounding mode,
  \<open>decode_inst\<close> returns that instruction, whatever the instruction structure held before.
  The tables have a row for every instruction type of the emulator but \<open>ecall\<close>. \<open>ecall\<close> sets
  two fields and keeps all others of the instruction before it; \<open>ebreak\<close> is refused.
\<close>

theorem decode_inverts_encode:
  "(encodes w j \<longrightarrow> decode_inst p w = Inr j) \<and>
   decode_inst p enc_ecall = Inr (p\<lparr>itype := inst_ecall, continue_exec := True\<rparr>) \<and>
   decode_inst p enc_ebreak = Inl (Fatal ''unreachable'') \<and>
   (t < num_insns \<and> t \<noteq> inst_ecall \<longrightarrow> (\<exists>v k. encodes v k \<and> itype k = t))"
  using decode_encodes [of w j p] decode_enc_system [of p] encodes_every_type [of t] by blast

theorem decode_inverts_encode_witness:
  "decode_inst inst_zero (enc_r 0x20 3 2 0 1 0x33) =
    Inr (inst_zero\<lparr>rd := 1, rs1 := 2, rs2 := 3, itype := inst_sub\<rparr>)"
proof -
  have "encodes (enc_r 0x20 (ucast (3 :: reg)) 2 0 1 0x33)
      (inst_zero\<lparr>rd := ucast (1 :: reg), rs1 := ucast (2 :: reg), rs2 := ucast (3 :: reg), itype := inst_sub\<rparr>)"
    using enc_reg [of inst_sub "0x20" 0 "0x33" 3 2 1] by (simp add: r_table_def)
  with decode_inverts_encode [of "enc_r 0x20 3 2 0 1 0x33"
      "inst_zero\<lparr>rd := 1, rs1 := 2, rs2 := 3, itype := inst_sub\<rparr>" inst_zero 0]
  show ?thesis by simp
qed

text \<open>
  C5: a 16-bit instruction that the C extension defines decodes to the same operation, with
  the same registers and the same immediate, as the 32-bit instruction it expands to, and is
  marked as compressed; the upper half of the fetched word does not matter. (The immediates of
  shifts agree in the six bits the shift uses.) The exception is \<open>c.ebreak\<close>: it is refused,
  and so is \<open>ebreak\<close>.
\<close>

theorem decode_rvc_expands:
  assumes "expand_rvc (ucast data) = Some w"
  shows "if w = enc_ebreak
    then (\<exists>e. decode_inst p data = Inl e) \<and> (\<exists>e. decode_inst p w = Inl e)
    else \<exists>i j. decode_inst p data = Inr i \<and> decode_inst p w = Inr j \<and> rvc i \<and> same_op i j"
  using expand_rvc_ok(1,2) [OF assms, of p] decode_enc_system(2) [of p] by simp

theorem decode_rvc_expands_witness:
  "\<exists>i j. decode_inst inst_zero 0x730505 = Inr i \<and> decode_inst inst_zero (enc_i 1 10 0 10 0x13) = Inr j \<and>
    rvc i \<and> same_op i j"
proof -
  have "enc_i 1 10 0 10 0x13 \<noteq> enc_ebreak" by code_simp
  with decode_rvc_expands [OF demo_expand, of inst_zero] show ?thesis by simp
qed

text \<open>
  C36: a 16-bit pattern without an expansion (a reserved one), or with the expansion \<open>ebreak\<close>, is
  refused by the decoder, never executed as something else.
\<close>

theorem decode_rvc_rejects:
  assumes "expand_rvc (ucast data) = None \<or> expand_rvc (ucast data) = Some enc_ebreak" "QUADRANT data \<noteq> 3"
  shows "\<exists>e. decode_inst p data = Inl e"
  using expand_rvc_None [OF _ assms(2), of p] expand_rvc_ok(2) [of data enc_ebreak p] assms(1) by auto

theorem decode_rvc_rejects_witness: "\<exists>e. decode_inst inst_zero 0 = Inl e"
  by (rule decode_rvc_rejects) code_simp+

text \<open>
  C20: every instruction the decoder returns is well formed: its register numbers are below 32,
  its type is an index of the handler table, it ends the block exactly when it is a jump or
  \<open>ecall\<close>, and the offsets of branches and \<open>jal\<close> are even.
\<close>

theorem decode_well_formed:
  assumes "regs_ok p" "decode_inst p data = Inr i"
  shows "wf_inst i"
  using ok_allD [OF decode_inst_wf [OF assms(1)] assms(2)] .

theorem decode_well_formed_witness:
  "wf_inst (inst_zero\<lparr>rd := 10, imm := 7, itype := inst_addi\<rparr>)"
  by (rule decode_well_formed [of inst_zero "enc_i 7 0 0 10 0x13"]) code_simp+

text \<open>
  A word the decoder does not accept ends the process with a fatal message or with one of
  the assertions about reserved operands; the decoder has no other way to fail.
\<close>

lemma decode_errors:
  assumes "decode_inst p data = Inl e"
  shows "(\<exists>msg. e = Fatal msg) \<or> (\<exists>msg \<in> set decode_asserts. e = Assert_Fail msg)"
  using decode_inst_fault [OF assms] by (cases e) auto

lemma decode_errors_at:
  "(\<exists>msg. Assert_Fail ''inst->imm != 0'' = Fatal msg) \<or>
   (\<exists>msg \<in> set decode_asserts. Assert_Fail ''inst->imm != 0'' = Assert_Fail msg)"
  by (rule decode_errors [of inst_zero 0]) code_simp

section \<open>The handlers\<close>

text \<open>
  The handler table is aligned with the enumeration of instruction types: entry \<open>t\<close> of
  \<open>funcs\<close> is the handler of instruction type \<open>t\<close>, for all of them.
\<close>

lemma funcs_match_types: "funcs = map snd handler_of \<and> map fst handler_of = [0..<num_insns]"
  using funcs_aligned handler_of_types by blast

text \<open>
  C11: what every handler may do, called as the loop calls it on a decoded instruction. It
  indexes inside its arrays; it fails only by a memory fault, a division by zero or an
  unsupported CSR; it changes no register but \<open>rd\<close> and no page protection; and either the
  block goes on with the control state unchanged, or it ends with an exit reason and an even
  address to go on at.
\<close>

theorem handler_contract:
  assumes "wf_inst i" "even (pc s)"
  shows "outcome handler_fault (handler_post s i) (dispatch s i)"
  by (rule dispatch_post [OF assms])

theorem handler_contract_witness:
  "outcome handler_fault (handler_post (demo_cpu []) (inst_zero\<lparr>itype := inst_add\<rparr>))
    (dispatch (demo_cpu []) (inst_zero\<lparr>itype := inst_add\<rparr>))"
  by (rule handler_contract) (simp_all add: wf_inst_def regs_ok_def class_defs num_insns_def demo_cpu_def)


section \<open>The three loops\<close>

text \<open>
  C17: a call of \<open>exec_block_interp\<close> that ends, started with \<open>x0 = 0\<close> and an even program
  counter, ends with \<open>x0 = 0\<close>, an exit reason other than \<open>none\<close> and an even address to go
  on at, having changed no page protection and only appended to the output; or it fails in one of
  the ways of the decoder and the handlers. It never indexes outside an array.
\<close>

theorem exec_block_contract:
  assumes "cpu_ok s" "regs_ok i" "exec_block_interp (s, i) = Some r"
  shows "outcome block_fault (block_post s) r"
  using exec_block_post [OF assms(1,2)] exec_block_fault [OF assms(1,2)] assms(3) by (cases r) auto

theorem exec_block_contract_witness:
  "\<exists>r. exec_block_interp (demo_cpu demo_ecall, inst_zero) = Some (Inr r) \<and> block_post (demo_cpu demo_ecall) r"
proof -
  have "fetches (mem (demo_cpu demo_ecall)) (pc (demo_cpu demo_ecall)) 0x73"
    using demo_ecall_fetch by (simp add: demo_cpu_def)
  from exec_block_break [OF interp_ecall [OF this demo_cpu_ok(2)]]
  obtain r where r: "exec_block_interp (demo_cpu demo_ecall, inst_zero) = Some (Inr r)" by blast
  with exec_block_contract [OF demo_cpu_ok(1,2) r] show ?thesis by simp
qed

text \<open>
  The loop of \<open>exec_block_interp\<close> computes: it returns \<open>r\<close> exactly when running it for
  some finite number of iterations returns \<open>r\<close>.
\<close>

lemma exec_block_fuel:
  "exec_block_interp x = Some r \<longleftrightarrow> (\<exists>n. c_loop_n n (\<lambda>y. Some (interp_step y)) x = Some r)"
  unfolding exec_block_interp_def using c_loop_n_sound c_loop_n_complete by metis

text \<open>
  C18: \<open>machine_step\<close>, when it returns, returns \<open>ecall\<close>: neither of its assertions can fail,
  the invariant of the hart (\<open>x0 = 0\<close>, even program counter) holds again, and the allocator
  and the host's side are untouched.
\<close>

theorem machine_step_contract:
  fixes m :: "'w machine_t"
  assumes "machine_ok m" "machine_step m = Some r"
  shows "outcome block_fault (\<lambda>(m', why). why = ecall \<and> exit_reason (state m') = ecall \<and>
    machine_ok m' \<and> runs_from (state m) (state m') \<and> same_host_side m m') r"
  by (rule machine_step_outcome [OF assms])

theorem machine_step_contract_witness:
  "\<exists>m'. machine_step (demo_machine demo_code) = Some (Inr (m', ecall)) \<and> machine_ok m' \<and>
    runs_from (demo_cpu demo_code) (state m')"
proof -
  from machine_step_to_ecall [of "demo_machine demo_code", OF _ demo_fetch(3)] demo_run obtain m' where
    m': "machine_step (demo_machine demo_code) = Some (Inr (m', ecall))"
    by (auto simp: demo_machine_def demo_cpu_ok)
  from machine_step_contract [OF demo_cpu_ok(3) m'] m' show ?thesis by (auto simp: demo_machine_def)
qed

text \<open>
  C10: the loop of \<open>main\<close>, from a machine that satisfies the invariants of the hart and of
  the allocator, never ends normally; it ends only by the exit of the guest, a fatal message, a
  memory fault, a division by zero, an assertion of the decoder or the one \<open>sys_brk\<close> makes
  about its argument. No array is indexed out of range and no other assertion fails. The memory of the model is the guest's: that no address the guest writes to
  belongs to the emulator's own objects is taken for granted.
\<close>

theorem main_loop_safe:
  assumes "main_inv m" "c_loop (main_body h os) m = Some r"
  shows "\<exists>e. r = Inl e \<and> main_fault e"
  using calls.loop_post [OF assms(1), of h os] calls.loop_fault [OF assms(1), of h os] assms(2)
  by (cases r) auto

text \<open>A guest whose run reaches the call \<open>exit\<close> or \<open>exit_group\<close> ends the emulator with the status in \<open>a0\<close>.\<close>

lemma guest_exit:
  fixes m :: "'w machine_t"
  assumes "isa_step\<^sup>*\<^sup>* (arch_of (state m)) ((p, g, mm), f)" "fetches mm p 0x73" "regs_ok (interp_inst m)"
    and "g reg_a7 = SYS_exit \<or> g reg_a7 = SYS_exit_group"
  shows "c_loop (main_body h os) m = Some (Inl (Exit (ucast (g reg_a0))))"
  by (rule exit_run [OF assms])

lemma demo_main_inv: "main_inv (demo_machine bs)"
  using demo_cpu_ok by (simp add: main_inv_def break_ok_def demo_defs mmu_zero_def)

lemma demo_main_ends:
  "c_loop (main_body demo_host demo_os) (demo_machine demo_exit) = Some (Inl (Exit 0))"
  using exit_run [OF demo_exit_run [OF demo_exit_fetch(1)] demo_exit_fetch(2), of demo_host demo_os]
  by (simp add: demo_machine_def demo_cpu_ok wr_def rv_enum sys_defs)

theorem main_loop_safe_witness:
  "c_loop (main_body demo_host demo_os) (demo_machine demo_exit) = Some (Inl (Exit 0)) \<and> main_fault (Exit 0)"
  using main_loop_safe [OF demo_main_inv demo_main_ends] demo_main_ends by simp

section \<open>Integer instructions\<close>

text \<open>
  C12: the register-register instructions of RV64I and RV64M: the value written to \<open>rd\<close> is the one
  of the ISA manual, computed over the integers and reduced to 64 bits, for all operands, shift amounts,
  divisors of zero and the overflowing quotient included; nothing else changes. For the four 32-bit
  divisions and remainders this holds unless the low half of the divisor register is zero and the
  register is not.
\<close>

theorem alu_register_results:
  assumes "(itype i, f) \<in> set (isa_r @ isa_divw)" "regs_ok i"
    and "(itype i, f) \<in> set isa_divw \<longrightarrow>
      gp_regs s (unat (rs2 i)) = 0 \<or> (ucast (gp_regs s (unat (rs2 i))) :: u32) \<noteq> 0"
  shows "dispatch s i = Inr (s\<lparr>gp_regs := (gp_regs s)
    (unat (rd i) := word_of_int (f (gp_regs s (unat (rs1 i))) (gp_regs s (unat (rs2 i)))))\<rparr>, i)"
proof (cases "(itype i, f) \<in> set isa_divw")
  case True
  with dispatch_isa_divw [OF True assms(2), of s] assms(3) show ?thesis by (simp add: sets_rd_def Let_def)
next
  case False
  with assms(1) have "(itype i, f) \<in> set isa_r" by simp
  from dispatch_isa_r [OF this assms(2), of s] show ?thesis by (simp add: sets_rd_def)
qed

theorem alu_register_results_witness:
  "dispatch (demo_cpu []) (inst_zero\<lparr>rd := 5, itype := inst_divw\<rparr>) =
    Inr ((demo_cpu [])\<lparr>gp_regs := (\<lambda>_. 0)(5 := - 1)\<rparr>, inst_zero\<lparr>rd := 5, itype := inst_divw\<rparr>)"
  using alu_register_results [of "inst_zero\<lparr>rd := 5, itype := inst_divw\<rparr>"
      "\<lambda>a b. s32 (isa_div (s32 (uint a)) (s32 (uint b)))" "demo_cpu []"]
  by (simp add: isa_divw_def regs_ok_def demo_cpu_def s32_def isa_div_def)

text \<open>
  C13: the register-immediate instructions of RV64I: likewise, with the signed immediate as second
  operand; the only other effect is the debugging output about \<open>ra\<close>.
\<close>

theorem alu_immediate_results:
  assumes "(itype i, f) \<in> set isa_i" "regs_ok i"
  shows "\<exists>l. dispatch s i = Inr (s\<lparr>gp_regs := (gp_regs s)
       (unat (rd i) := word_of_int (f (gp_regs s (unat (rs1 i))) (sint (imm i)))),
       stderr_log := stderr_log s @ l\<rparr>, i)"
  by (rule dispatch_isa_i [OF assms])

theorem alu_immediate_results_witness:
  "\<exists>l. dispatch (demo_cpu []) (inst_zero\<lparr>rd := 5, imm := - 3, itype := inst_addi\<rparr>) =
    Inr ((demo_cpu [])\<lparr>gp_regs := (\<lambda>_. 0)(5 := - 3), stderr_log := l\<rparr>,
      inst_zero\<lparr>rd := 5, imm := - 3, itype := inst_addi\<rparr>)"
  using alu_immediate_results [of "inst_zero\<lparr>rd := 5, imm := - 3, itype := inst_addi\<rparr>"
      "\<lambda>a i. uint a + i" "demo_cpu []"]
  by (simp add: isa_i_def regs_ok_def demo_cpu_def)

text \<open>
  C28: the 32-bit divisions and remainders agree with the ISA manual when the divisor register is
  zero or its low half is not. With a divisor register whose low half alone is zero, where the
  manual defines the result, the emulator divides by zero and dies.
\<close>

theorem division_word_results:
  assumes "(itype i, f) \<in> set isa_divw" "regs_ok i"
  shows "let a = gp_regs s (unat (rs1 i)); b = gp_regs s (unat (rs2 i)) in
    if b = 0 \<or> (ucast b :: u32) \<noteq> 0
    then dispatch s i = Inr (s\<lparr>gp_regs := (gp_regs s)(unat (rd i) := word_of_int (f a b))\<rparr>, i)
    else dispatch s i = Inl Div_By_Zero"
  using dispatch_isa_divw [OF assms, of s] by (simp only: sets_rd_def)

theorem division_word_results_witness:
  "dispatch ((demo_cpu [])\<lparr>gp_regs := (\<lambda>_. 0)(6 := 0x100000000)\<rparr>)
     (inst_zero\<lparr>rd := 5, rs2 := 6, itype := inst_divw\<rparr>) = Inl Div_By_Zero"
  using division_word_results [of "inst_zero\<lparr>rd := 5, rs2 := 6, itype := inst_divw\<rparr>"
      "\<lambda>a b. s32 (isa_div (s32 (uint a)) (s32 (uint b)))"
      "(demo_cpu [])\<lparr>gp_regs := (\<lambda>_. 0)(6 := 0x100000000)\<rparr>"]
  by (simp add: isa_divw_def regs_ok_def Let_def)

text \<open>
  C33: the high halves of 128-bit products, computed from 32-bit limbs, are those of the exact
  product of the operands read as unsigned or signed numbers.
\<close>

theorem high_products:
  "mulhu a b = word_of_int ((uint a * uint b) div 2 ^ 64) \<and>
   mulh c d = word_of_int ((sint c * sint d) div 2 ^ 64) \<and>
   mulhsu c b = word_of_int ((sint c * uint b) div 2 ^ 64)"
  by (simp only: mulhu_int mulh_int mulhsu_int)

section \<open>Loads and stores\<close>

text \<open>
  C24: a load instruction reads \<open>1\<close>, \<open>2\<close>, \<open>4\<close> or \<open>8\<close> bytes at \<open>rs1 + imm\<close>, as a
  little-endian number, and extends it with its sign or with zeros into \<open>rd\<close>; if the bytes are
  not all readable it faults at one that is not.
\<close>

theorem load_results:
  assumes "(itype i, n, sg) \<in> set isa_load" "regs_ok i"
  shows "(\<exists>l bs. load_bytes n (mem s) (mem_addr s i) = Inr bs \<and>
      dispatch s i = Inr (s\<lparr>gp_regs := (gp_regs s)(unat (rd i) := widen n sg (le_int bs)),
        stderr_log := stderr_log s @ l\<rparr>, i)) \<or>
    (\<exists>x. in_region (mem_addr s i) n x \<and> \<not> readable (mem s) x \<and> dispatch s i = Inl (Segv x))"
proof (cases "load_bytes n (mem s) (mem_addr s i)")
  case (Inl e)
  with load_bytes_fault [OF Inl] dispatch_isa_load [OF assms, of s] show ?thesis by auto
next
  case (Inr bs)
  with dispatch_isa_load [OF assms, of s] show ?thesis by auto
qed

theorem load_results_witness:
  "\<exists>l. dispatch ((demo_cpu [0xfe])\<lparr>gp_regs := (\<lambda>_. 0)(6 := 0x10000)\<rparr>)
     (inst_zero\<lparr>rd := 5, rs1 := 6, itype := inst_lb\<rparr>) =
   Inr ((demo_cpu [0xfe])\<lparr>gp_regs := (\<lambda>_. 0)(6 := 0x10000, 5 := - 2), stderr_log := l\<rparr>,
     inst_zero\<lparr>rd := 5, rs1 := 6, itype := inst_lb\<rparr>)"
proof -
  have "load_bytes 1 (demo_mem [0xfe]) (TO_HOST 0x10000) = Inr [0xfe]" by code_simp
  then show ?thesis
    using load_results [of "inst_zero\<lparr>rd := 5, rs1 := 6, itype := inst_lb\<rparr>" 1 True
        "(demo_cpu [0xfe])\<lparr>gp_regs := (\<lambda>_. 0)(6 := 0x10000)\<rparr>"]
      load_bytes_ok_iff [of 1 "demo_mem [0xfe]" "TO_HOST 0x10000"]
    by (auto simp: isa_load_def regs_ok_def mem_addr_def demo_cpu_def widen_def)
qed

text \<open>
  C25: what a store instruction wrote, a load of the same width from the same address reads back,
  with the extension of the load.
\<close>

theorem load_reads_back_store:
  assumes "(itype i, n) \<in> set isa_store" "regs_ok i" "(itype j, n, sg) \<in> set isa_load" "regs_ok j"
    and "mem_addr s j = mem_addr s i"
    and "\<forall>x. in_region (mem_addr s i) n x \<longrightarrow> readable (mem s) x"
    and "dispatch s i = Inr (s1, i1)"
  shows "\<exists>l. dispatch s1 j = Inr (s1\<lparr>gp_regs := (gp_regs s1)
      (unat (rd j) := widen n sg (uint (gp_regs s (unat (rs2 i))))), stderr_log := stderr_log s1 @ l\<rparr>, j)"
  by (rule store_then_load [OF assms])

text \<open>
  C26: a store changes the bytes of its region and nothing else: no other byte, no register.
\<close>

theorem store_changes_only_region:
  assumes "(itype i, n) \<in> set isa_store" "regs_ok i" "dispatch s i = Inr (s1, i1)"
  shows "gp_regs s1 = gp_regs s \<and> fp_regs s1 = fp_regs s \<and>
    (\<forall>x. \<not> in_region (mem_addr s i) n x \<longrightarrow> mem s1 x = mem s x)"
  by (rule store_frame [OF assms])

definition demo_store :: cpu_t where
  "demo_store = (demo_cpu [0, 0])\<lparr>gp_regs := (\<lambda>_. 0)(6 := 0x10000, 7 := 0x1fe)\<rparr>"

lemma demo_store_runs:
  "\<exists>s1. dispatch demo_store (inst_zero\<lparr>rs1 := 6, rs2 := 7, itype := inst_sb\<rparr>) =
    Inr (s1, inst_zero\<lparr>rs1 := 6, rs2 := 7, itype := inst_sb\<rparr>) \<and> gp_regs s1 = gp_regs demo_store"
proof -
  have "\<exists>m'. store_bytes (le_bytes 1 (0x1fe :: u64)) (demo_mem [0, 0]) (TO_HOST 0x10000) = Inr m'"
    by (simp add: store_byte_def demo_defs PROT_WRITE_def)
  then show ?thesis
    using dispatch_isa_store [of "inst_zero\<lparr>rs1 := 6, rs2 := 7, itype := inst_sb\<rparr>" 1 demo_store]
    by (auto simp: isa_store_def regs_ok_def mem_addr_def demo_store_def demo_cpu_def)
qed

lemma demo_store_readable:
  "\<forall>x. in_region (TO_HOST 0x10000) 1 x \<longrightarrow> readable (demo_mem [0, 0]) x"
  using load_bytes_ok_iff [of 1 "demo_mem [0, 0]" "TO_HOST 0x10000"]
  by (simp add: load_byte_def demo_defs PROT_READ_def)

theorem load_reads_back_store_witness:
  "\<exists>s1 l. dispatch demo_store (inst_zero\<lparr>rs1 := 6, rs2 := 7, itype := inst_sb\<rparr>) =
      Inr (s1, inst_zero\<lparr>rs1 := 6, rs2 := 7, itype := inst_sb\<rparr>) \<and>
    dispatch s1 (inst_zero\<lparr>rd := 5, rs1 := 6, itype := inst_lb\<rparr>) =
      Inr (s1\<lparr>gp_regs := (gp_regs s1)(5 := - 2), stderr_log := stderr_log s1 @ l\<rparr>,
        inst_zero\<lparr>rd := 5, rs1 := 6, itype := inst_lb\<rparr>)"
proof -
  obtain s1 where s1: "dispatch demo_store (inst_zero\<lparr>rs1 := 6, rs2 := 7, itype := inst_sb\<rparr>) =
      Inr (s1, inst_zero\<lparr>rs1 := 6, rs2 := 7, itype := inst_sb\<rparr>)" using demo_store_runs by blast
  from load_reads_back_store [of _ 1 "inst_zero\<lparr>rd := 5, rs1 := 6, itype := inst_lb\<rparr>" True, OF _ _ _ _ _ _ s1]
    demo_store_readable s1 show ?thesis
    by (simp add: isa_store_def isa_load_def regs_ok_def mem_addr_def demo_store_def demo_cpu_def widen_def)
qed

theorem store_changes_only_region_witness:
  "\<exists>s1 i1. dispatch demo_store (inst_zero\<lparr>rs1 := 6, rs2 := 7, itype := inst_sb\<rparr>) = Inr (s1, i1) \<and>
    mem s1 (TO_HOST 0x10001) = Some (0, 7)"
proof -
  obtain s1 where s1: "dispatch demo_store (inst_zero\<lparr>rs1 := 6, rs2 := 7, itype := inst_sb\<rparr>) =
      Inr (s1, inst_zero\<lparr>rs1 := 6, rs2 := 7, itype := inst_sb\<rparr>)" using demo_store_runs by blast
  from store_changes_only_region [of _ 1, OF _ _ s1]
  have "mem s1 (TO_HOST 0x10001) = mem demo_store (TO_HOST 0x10001)"
    by (simp add: isa_store_def regs_ok_def mem_addr_def demo_store_def demo_cpu_def in_region_def
        TO_HOST_def GUEST_MEMORY_OFFSET_def)
  with s1 show ?thesis by (simp add: demo_store_def demo_defs)
qed

section \<open>Floating-point instructions\<close>

text \<open>
  C8: addition, subtraction, multiplication, division and square root, in single and in double
  precision, on finite operands (for division: not by zero, for the root: not of a negative number, but of
  either zero, and whatever the second register holds): the result is the exact one, rounded to the nearest number of the format, ties to even, subnormal numbers and
  overflow to infinity included, with the sign the ISA gives it. A single-precision result goes into the
  low half of the register, and the upper half keeps what it held.
\<close>

theorem fp_arithmetic_rounded:
  assumes "regs_ok i"
  shows "((itype i, x) \<in> set isa_fp_d \<and> d_defined x (fp_regs s (unat (rs1 i))) (fp_regs s (unat (rs2 i))) \<longrightarrow>
      (\<exists>v. d_result x (fp_regs s (unat (rs1 i))) (fp_regs s (unat (rs2 i))) v \<and>
        dispatch s i = Inr (s\<lparr>fp_regs := (fp_regs s)(unat (rd i) := v)\<rparr>, i))) \<and>
    ((itype i, x) \<in> set isa_fp_s \<and>
      s_defined x (ucast (fp_regs s (unat (rs1 i)))) (ucast (fp_regs s (unat (rs2 i)))) \<longrightarrow>
      (\<exists>v. s_result x (ucast (fp_regs s (unat (rs1 i)))) (ucast (fp_regs s (unat (rs2 i)))) v \<and>
        dispatch s i = Inr (s\<lparr>fp_regs := (fp_regs s)
          (unat (rd i) := fp_set_w (fp_regs s (unat (rd i))) v)\<rparr>, i)))"
  using dispatch_fp_d [of i x s] dispatch_fp_s [of i x s] assms by (auto simp: fp_get_w_def)

text \<open>The two smallest subnormal numbers and their sum.\<close>

definition demo_fp :: cpu_t where
  "demo_fp = (demo_cpu [])\<lparr>fp_regs := (\<lambda>_. 0)(1 := 1, 2 := 2)\<rparr>"

theorem fp_arithmetic_rounded_witness:
  "d_result x_add 1 2 3 \<and>
   dispatch demo_fp (inst_zero\<lparr>rd := 3, rs1 := 1, rs2 := 2, itype := inst_fadd_d\<rparr>) =
     Inr (demo_fp\<lparr>fp_regs := (fp_regs demo_fp)(3 := 3)\<rparr>,
       inst_zero\<lparr>rd := 3, rs1 := 1, rs2 := 2, itype := inst_fadd_d\<rparr>)"
proof -
  let ?i = "inst_zero\<lparr>rd := 3, rs1 := 1, rs2 := 2, itype := inst_fadd_d\<rparr>"
  have fin: "d_finite 1" "d_finite 2" by (simp_all add: d_finite_def f_finite_def f_mag_def f_inf_def)
  have ok: "regs_ok ?i" by (simp add: regs_ok_def)
  have mem: "(itype ?i, x_add) \<in> set isa_fp_d" by (simp add: isa_fp_d_def)
  have ops: "fp_regs demo_fp (unat (rs1 ?i)) = 1" "fp_regs demo_fp (unat (rs2 ?i)) = 2"
    by (simp_all add: demo_fp_def)
  from fp_arithmetic_rounded [OF ok, of x_add demo_fp] mem fin obtain v where
    v: "d_result x_add 1 2 v"
    "dispatch demo_fp ?i = Inr (demo_fp\<lparr>fp_regs := (fp_regs demo_fp)(3 := v)\<rparr>, ?i)"
    unfolding ops by (auto simp: d_defined_def x_add_def)
  have "dispatch demo_fp ?i = func_fadd_d demo_fp ?i" by (rule dispatch_handler) (simp add: handler_of_def)
  also have "\<dots> = Inr (demo_fp\<lparr>fp_regs := (fp_regs demo_fp)(3 := f64_op2 f_add 1 2)\<rparr>, ?i)"
    by (simp add: func_defs FUNC_fp_d_def ok demo_fp_def)
  also have "f64_op2 f_add 1 2 = 3"
    by (simp add: f64_op2_def f_add_def f_nan2_def f_is_nan_def f_is_inf_def f_mag_def f_inf_def f_int_def f_sign_def
        f_units_def f_exp_def f_frac_def f_of_int_def f_round_def f_signed_def Let_def round_div_def floor_log2.simps [of 3]
        floor_log2.simps [of "Suc 0"])
  finally have "demo_fp\<lparr>fp_regs := (fp_regs demo_fp)(3 := v)\<rparr> = demo_fp\<lparr>fp_regs := (fp_regs demo_fp)(3 := 3)\<rparr>"
    unfolding v(2) by (simp only: sum.inject prod.inject)
  from arg_cong [OF this, of "\<lambda>s. fp_regs s 3"] have "v = 3" by simp
  with v show ?thesis by simp
qed

text \<open>
  C22: the other instructions that write a floating-point register, each on a domain. Double results: sign
  injection of all operands, minimum and maximum of operands that are not NaNs and not both zeros, and
  single to double precision for a finite NaN-boxed operand. Single-precision sign injection of NaN-boxed
  operands. On these the register holds the value the ISA defines. Single-precision results: arithmetic,
  minimum and maximum on NaN-boxed operands with the same restrictions, conversions of finite doubles and
  of all integers, rounded to the nearest number, ties to even, and the move of a 32-bit pattern. There
  the low half of the register is the value the ISA defines; the upper half keeps what it held, where the
  ISA has all ones. Nothing else changes.
\<close>

theorem fp_register_results:
  assumes "regs_ok i"
  shows "((itype i, S) \<in> set isa_ff \<and> S (fp_regs s (unat (rs1 i))) (fp_regs s (unat (rs2 i))) v \<longrightarrow>
      dispatch s i = Inr (s\<lparr>fp_regs := (fp_regs s)(unat (rd i) := v)\<rparr>, i)) \<and>
    ((itype i, W) \<in> set isa_fs \<and>
      W (fp_regs s (unat (rs1 i))) (fp_regs s (unat (rs2 i))) (gp_regs s (unat (rs1 i))) u \<longrightarrow>
      dispatch s i = Inr (s\<lparr>fp_regs := (fp_regs s)(unat (rd i) := fp_set_w (fp_regs s (unat (rd i))) u)\<rparr>, i))"
  using dispatch_ff [of i S s v] dispatch_fs [of i W s u] assms by blast

theorem fp_register_results_witness:
  "dispatch demo_fp (inst_zero\<lparr>rd := 3, rs1 := 1, rs2 := 2, itype := inst_fsgnjn_d\<rparr>) =
     Inr (demo_fp\<lparr>fp_regs := (fp_regs demo_fp)(3 := 0x8000000000000001)\<rparr>,
       inst_zero\<lparr>rd := 3, rs1 := 1, rs2 := 2, itype := inst_fsgnjn_d\<rparr>)"
proof -
  have "sgnj_d (\<lambda>s t. \<not> t) 1 2 0x8000000000000001"
    unfolding sgnj_d_def with_sign_def by code_simp
  then show ?thesis
    using fp_register_results [of "inst_zero\<lparr>rd := 3, rs1 := 1, rs2 := 2, itype := inst_fsgnjn_d\<rparr>"
        "sgnj_d (\<lambda>s t. \<not> t)" demo_fp "0x8000000000000001" "\<lambda>a b c v. v = ucast c" 0]
    by (simp add: isa_ff_def regs_ok_def demo_fp_def)
qed

text \<open>
  C21: the instructions from floating-point registers to an integer register, single-precision operands
  NaN-boxed. Comparisons (false on every NaN, equal on zeros of both signs), classification into the ten
  classes and moves of bit patterns, the 32-bit one sign-extended, write the value the ISA defines for all
  operands. Conversions to signed and unsigned integers of 32 and 64 bits write, for a finite operand, the
  nearest integer, ties to even, where that is in the range of the type (for the unsigned 64-bit ones:
  below \<open>2 ^ 63\<close>).
\<close>

theorem fp_to_integer_results:
  assumes "(itype i, S) \<in> set (isa_fx @ isa_fi)" "regs_ok i"
    and "S (fp_regs s (unat (rs1 i))) (fp_regs s (unat (rs2 i))) v"
  shows "dispatch s i = Inr (s\<lparr>gp_regs := (gp_regs s)(unat (rd i) := v)\<rparr>, i)"
  using dispatch_fx [of i S s v] dispatch_fi [of i S s v] assms by auto

text \<open>A NaN is not equal to itself.\<close>

theorem fp_to_integer_results_witness:
  "dispatch ((demo_cpu [])\<lparr>gp_regs := (\<lambda>_. 9), fp_regs := (\<lambda>_. 0x7ff8000000000000)\<rparr>)
     (inst_zero\<lparr>rd := 5, itype := inst_feq_d\<rparr>) =
   Inr ((demo_cpu [])\<lparr>gp_regs := (\<lambda>_. 9)(5 := 0), fp_regs := (\<lambda>_. 0x7ff8000000000000)\<rparr>,
     inst_zero\<lparr>rd := 5, itype := inst_feq_d\<rparr>)"
proof -
  have "d_nan 0x7ff8000000000000" by (simp add: d_nan_def f_is_nan_def f_mag_def f_inf_def)
  then have "cmp_d (=) 0x7ff8000000000000 0x7ff8000000000000 0" by (simp add: cmp_d_def truth_def)
  with fp_to_integer_results [of "inst_zero\<lparr>rd := 5, itype := inst_feq_d\<rparr>" "cmp_d (=)"
      "(demo_cpu [])\<lparr>gp_regs := (\<lambda>_. 9), fp_regs := (\<lambda>_. 0x7ff8000000000000)\<rparr>" 0]
  show ?thesis by (simp add: isa_fx_def regs_ok_def)
qed

text \<open>
  C23: conversions of signed and unsigned 32-bit and 64-bit integers to doubles write the double nearest to
  the integer, ties to even; \<open>fmv.d.x\<close> writes the bits.
\<close>

theorem fp_from_integer_results:
  assumes "(itype i, R) \<in> set isa_xf" "regs_ok i" "R (gp_regs s (unat (rs1 i))) v"
  shows "dispatch s i = Inr (s\<lparr>fp_regs := (fp_regs s)(unat (rd i) := v)\<rparr>, i)"
  by (rule dispatch_xf [OF assms])

theorem fp_from_integer_results_witness:
  "\<exists>v. d_rounded False (2 ^ 64 - 1) v \<and>
   dispatch ((demo_cpu [])\<lparr>gp_regs := (\<lambda>_. - 1)\<rparr>) (inst_zero\<lparr>rd := 3, rs1 := 1, itype := inst_fcvt_d_lu\<rparr>) =
     Inr ((demo_cpu [])\<lparr>gp_regs := (\<lambda>_. - 1), fp_regs := (\<lambda>_. 0)(3 := v)\<rparr>,
       inst_zero\<lparr>rd := 3, rs1 := 1, itype := inst_fcvt_d_lu\<rparr>)"
proof -
  have "uint (- 1 :: u64) = 2 ^ 64 - 1" by code_simp
  moreover have "d_rounded ((2 ^ 64 - 1 :: int) < 0) (real_of_int (2 ^ 64 - 1)) (int_to_f64 (2 ^ 64 - 1))"
    unfolding int_to_f64_def by (intro rounded_word double.int_to_f_rounded)
  ultimately have v: "d_rounded False (2 ^ 64 - 1) (int_to_f64 (2 ^ 64 - 1))"
    "of_integer uint (- 1) (int_to_f64 (2 ^ 64 - 1))" by (simp_all add: of_integer_def)
  with fp_from_integer_results [of "inst_zero\<lparr>rd := 3, rs1 := 1, itype := inst_fcvt_d_lu\<rparr>" "of_integer uint"
      "(demo_cpu [])\<lparr>gp_regs := (\<lambda>_. - 1)\<rparr>" "int_to_f64 (2 ^ 64 - 1)"]
  show ?thesis by (intro exI [of _ "int_to_f64 (2 ^ 64 - 1)"]) (simp add: isa_xf_def regs_ok_def demo_cpu_def)
qed

text \<open>
  C35: where the emulator is not the ISA. The decoder drops the rounding mode of arithmetic and of
  conversions, and the conversions of a double to an integer turn 1.5 into 2, also in the mode C casts have.
  Conversions to integers of NaNs, of infinities and of all values from \<open>2 ^ 63\<close> on give
  \<open>2 ^ 63\<close>, the 32-bit ones 0. Minimum and maximum with a NaN operand, or of two zeros, give the second
  operand. On one triple of operands \<open>fmadd.d\<close>, which rounds the product before it adds, does not give
  the exact result rounded.
\<close>

theorem fp_deviations:
  fixes s :: cpu_t
  assumes "regs_ok i"
  defines "a \<equiv> fp_regs s (unat (rs1 i))" and "b \<equiv> fp_regs s (unat (rs2 i))"
    and "sets_gp \<equiv> \<lambda>v. Inr (s\<lparr>gp_regs := (gp_regs s)(unat (rd i) := v)\<rparr>, i)"
    and "sets_fp \<equiv> \<lambda>v. Inr (s\<lparr>fp_regs := (fp_regs s)(unat (rd i) := v)\<rparr>, i)"
  shows "((t, f7, r2) \<in> set fcvt_table \<or> (t, f7) \<in> set frm_table \<longrightarrow>
      decode_inst p (enc_r f7 r2 r1 rm r 0x53) = decode_inst p (enc_r f7 r2 r1 rm' r 0x53)) \<and>
    (itype i \<in> {inst_fcvt_w_d, inst_fcvt_wu_d, inst_fcvt_l_d, inst_fcvt_lu_d} \<and> a = 0x3ff8000000000000 \<longrightarrow>
      dispatch s i = sets_gp 2) \<and>
    (\<not> d_finite a \<or> 2 ^ 63 \<le> d_val a \<longrightarrow>
      (itype i \<in> {inst_fcvt_w_d, inst_fcvt_wu_d} \<longrightarrow> dispatch s i = sets_gp 0) \<and>
      (itype i \<in> {inst_fcvt_l_d, inst_fcvt_lu_d} \<longrightarrow> dispatch s i = sets_gp 0x8000000000000000)) \<and>
    (\<not> s_finite (ucast a) \<or> 2 ^ 63 \<le> s_val (ucast a) \<longrightarrow>
      (itype i \<in> {inst_fcvt_w_s, inst_fcvt_wu_s} \<longrightarrow> dispatch s i = sets_gp 0) \<and>
      (itype i \<in> {inst_fcvt_l_s, inst_fcvt_lu_s} \<longrightarrow> dispatch s i = sets_gp 0x8000000000000000)) \<and>
    (itype i \<in> {inst_fmin_d, inst_fmax_d} \<and> (d_nan a \<or> d_nan b \<or> d_val a = 0 \<and> d_val b = 0) \<longrightarrow>
      dispatch s i = sets_fp b) \<and>
    (itype i \<in> {inst_fmin_s, inst_fmax_s} \<and>
        (s_nan (ucast a) \<or> s_nan (ucast b) \<or> s_val (ucast a) = 0 \<and> s_val (ucast b) = 0) \<longrightarrow>
      dispatch s i = sets_fp (fp_set_w (fp_regs s (unat (rd i))) (ucast b))) \<and>
    (itype i = inst_fmadd_d \<and> a = 1 \<and> b = 0x3fe0000000000000 \<and> fp_regs s (unat (rs3 i)) = 1 \<longrightarrow>
      dispatch s i = sets_fp 1 \<and> d_rounded False (d_val 1 * d_val 0x3fe0000000000000 + d_val 1) 2)"
  using rounding_mode_lost(1) [of t f7 r2 p r1 rm r rm'] rounding_mode_lost(2) [of t f7 p r2 r1 rm r rm']
    half_rounds_up [of i s] convert_invalid [OF assms(1), of s] minmax_second_operand [OF assms(1), of s]
    fmadd_rounds_twice [of i s] assms(1)
  unfolding a_def b_def sets_gp_def sets_fp_def by (intro conjI) blast+

theorem fp_deviations_witness:
  "decode_inst inst_zero (enc_r 0x61 0 1 0 5 0x53) = decode_inst inst_zero (enc_r 0x61 0 1 1 5 0x53) \<and>
   dispatch ((demo_cpu [])\<lparr>fp_regs := (\<lambda>_. 0x3ff8000000000000)\<rparr>) (inst_zero\<lparr>rd := 5, rs1 := 1, itype := inst_fcvt_w_d\<rparr>) =
     Inr ((demo_cpu [])\<lparr>fp_regs := (\<lambda>_. 0x3ff8000000000000), gp_regs := (\<lambda>_. 0)(5 := 2)\<rparr>,
       inst_zero\<lparr>rd := 5, rs1 := 1, itype := inst_fcvt_w_d\<rparr>)"
  using fp_deviations [of "inst_zero\<lparr>rd := 5, rs1 := 1, itype := inst_fcvt_w_d\<rparr>" inst_fcvt_w_d "0x61" 0 inst_zero 1 0 5 1
      "(demo_cpu [])\<lparr>fp_regs := (\<lambda>_. 0x3ff8000000000000)\<rparr>"]
  by (simp add: regs_ok_def demo_cpu_def fcvt_table_def)

text \<open>
  Sign injection. Every bit but the sign is that of the first operand; the sign is that of
  the second, its negation, or the exclusive or of both, by the flags \<open>n\<close> and \<open>x\<close>.
\<close>

lemma sign_injection:
  "bit (fsgnj32 a b n x) k = (if k = 31 then (if x then bit a 31 \<noteq> bit b 31 else bit b 31 \<noteq> n) else bit a k) \<and>
   bit (fsgnj64 c d n x) k = (if k = 63 then (if x then bit c 63 \<noteq> bit d 63 else bit d 63 \<noteq> n) else bit c k)"
proof -
  have "\<not> bit (fsgnj32 a b n x) k \<and> \<not> bit a k" if "\<not> k < 32" using that by (auto dest: bit_imp_le_length)
  moreover have "\<not> bit (fsgnj64 c d n x) k \<and> \<not> bit c k" if "\<not> k < 64"
    using that by (auto dest: bit_imp_le_length)
  ultimately show ?thesis using bit_fsgnj32 [of k a b n x] bit_fsgnj64 [of k c d n x]
    by (cases "k < 32"; cases "k < 64") auto
qed

text \<open>
  Classification sets exactly one bit, the bit of the class of the operand in the table of
  the ISA manual.
\<close>

lemma classify_one_bit:
  "f32_classify a = push_bit (f32_class_bit a) 1 \<and> f64_classify b = push_bit (f64_class_bit b) 1"
  by (simp only: f32_classify_bit f64_classify_bit)

section \<open>Compressed instructions at work\<close>

text \<open>
  C34: integers survive the floating-point registers. \<open>fcvt.d.w\<close> followed by \<open>fcvt.w.d\<close> gives
  back every 32-bit integer, sign-extended, and \<open>fcvt.d.l\<close> followed by \<open>fcvt.l.d\<close> every
  64-bit integer that fits the significand of a double, although the handlers round with the
  host's \<open>llrint\<close>.
\<close>

theorem fcvt_int_roundtrip:
  assumes "regs_ok i" "regs_ok j" "rs1 j = rd i"
  shows "(itype i = inst_fcvt_d_w \<and> itype j = inst_fcvt_w_d \<longrightarrow>
      (\<exists>s'. dispatch s i = Inr (s', i) \<and> dispatch s' j = Inr (s'\<lparr>gp_regs := (gp_regs s)
        (unat (rd j) := scast (ucast (gp_regs s (unat (rs1 i))) :: i32))\<rparr>, j))) \<and>
    (itype i = inst_fcvt_d_l \<and> itype j = inst_fcvt_l_d \<and> \<bar>sint (gp_regs s (unat (rs1 i)))\<bar> < 2 ^ 53 \<longrightarrow>
      (\<exists>s'. dispatch s i = Inr (s', i) \<and> dispatch s' j = Inr (s'\<lparr>gp_regs := (gp_regs s)
        (unat (rd j) := gp_regs s (unat (rs1 i)))\<rparr>, j)))"
  using fcvt_roundtrip [OF assms] by blast

theorem fcvt_int_roundtrip_witness:
  "\<exists>s' t. dispatch ((demo_cpu [])\<lparr>gp_regs := (\<lambda>_. 0)(10 := - 5)\<rparr>)
      (inst_zero\<lparr>rd := 3, rs1 := 10, itype := inst_fcvt_d_l\<rparr>) =
      Inr (s', inst_zero\<lparr>rd := 3, rs1 := 10, itype := inst_fcvt_d_l\<rparr>) \<and>
    dispatch s' (inst_zero\<lparr>rd := 11, rs1 := 3, itype := inst_fcvt_l_d\<rparr>) =
      Inr (t, inst_zero\<lparr>rd := 11, rs1 := 3, itype := inst_fcvt_l_d\<rparr>) \<and> gp_regs t 11 = - 5"
proof -
  let ?s = "(demo_cpu [])\<lparr>gp_regs := (\<lambda>_. 0)(10 := - 5)\<rparr>"
  have "\<bar>sint (gp_regs ?s 10)\<bar> < 2 ^ 53" by code_simp
  with fcvt_int_roundtrip [of "inst_zero\<lparr>rd := 3, rs1 := 10, itype := inst_fcvt_d_l\<rparr>"
      "inst_zero\<lparr>rd := 11, rs1 := 3, itype := inst_fcvt_l_d\<rparr>" ?s]
  show ?thesis by (auto simp: regs_ok_def)
qed

text \<open>
  Executing a compressed instruction other than a jump and executing the instruction it
  expands to have the same effect on the hart and on memory, fail alike and both end or both
  continue the block, floating-point loads and stores included.
\<close>

lemma rvc_same_effect:
  assumes "expand_rvc (ucast data) = Some w" "decode_inst p data = Inr i" "decode_inst p w = Inr j"
    and "regs_ok p" "itype i \<noteq> inst_jal" "itype i \<noteq> inst_jalr"
  shows "effect (dispatch s i) = effect (dispatch s j)"
proof (rule same_op_effect)
  show "same_op i j" using expand_rvc_ok(3) [OF assms(1,3)] assms(2) by auto
  show "itype i < num_insns"
    using ok_allD [OF decode_inst_wf [OF assms(4)] assms(2)] by (simp add: wf_inst_def)
qed (use assms in simp_all)

lemma rvc_same_effect_at:
  "effect (dispatch (demo_cpu []) (inst_zero\<lparr>rd := 10, rs1 := 10, imm := 1, itype := inst_addi, rvc := True\<rparr>)) =
   effect (dispatch (demo_cpu []) (inst_zero\<lparr>rd := 10, rs1 := 10, imm := 1, itype := inst_addi\<rparr>))"
  by (rule rvc_same_effect [OF demo_expand, of inst_zero]) (code_simp, code_simp, code_simp, simp_all add: rv_enum)

section \<open>Loading and allocating\<close>

text \<open>
  Rounding to pages. For a page size that is a power of two, \<open>ROUNDDOWN\<close> is the largest
  multiple of it that is not larger and \<open>ROUNDUP\<close>, where it does not wrap around, the smallest
  that is not smaller.
\<close>

lemma page_rounding:
  assumes "page_ok h"
  shows "unat (ROUNDDOWN x (page_size h)) = unat x div unat (page_size h) * unat (page_size h) \<and>
    (unat x + unat (page_size h) \<le> 2 ^ 64 \<longrightarrow>
      unat (ROUNDUP x (page_size h)) =
        (unat x + unat (page_size h) - 1) div unat (page_size h) * unat (page_size h))"
  using ROUNDDOWN_unat [OF assms] ROUNDUP_unat [OF assms] by blast

lemma demo_page: "page_ok demo_host"
  unfolding page_ok_def by (intro exI [of _ 12]) (simp add: demo_host_def)

lemma page_rounding_at: "unat (ROUNDUP 0x1234 (page_size demo_host)) = 0x2000"
  using page_rounding [OF demo_page, of "0x1234"] by (simp add: demo_host_def)

text \<open>
  C19: loading an ELF file whose program headers have the standard size puts every byte of the file part of
  a well-formed loadable segment at its virtual address, with the protection its flags ask for, if the
  segments after it are well formed and none of them covers the page of that byte. Well formed:
  the address and the file offset agree modulo the page size, the file part lies in the file and is no
  larger than the memory part, and that is no larger than user space.
\<close>

theorem elf_segment_bytes:
  assumes "page_ok h" "mmu_load_elf h stack u m file = Inr (u', m')"
    and "e_phentsize (ehdr_of_bytes (take sizeof_ehdr file)) = 56"
    and "elf_segments (ehdr_of_bytes (take sizeof_ehdr file)) file
      (unat (e_phnum (ehdr_of_bytes (take sizeof_ehdr file)))) 0 = ps @ p # qs"
    and "segment_ok h p file" "k < unat (p_filesz p)"
    and "\<forall>q \<in> set qs. segment_ok h q file \<and> \<not> segment_span h q (TO_HOST (p_vaddr p) + word_of_nat k)"
  shows "m' (TO_HOST (p_vaddr p) + word_of_nat k) =
    Some (file ! (unat (p_offset p) + k), flags_to_mmap_prot (p_flags p))"
proof -
  have "m' = segments_memory h file (ps @ p # qs) m"
    using mmu_load_elf_result [OF assms(1-3)] assms(4) by simp
  then obtain m0 where "m' (TO_HOST (p_vaddr p) + word_of_nat k) =
      segment_memory h m0 p file (TO_HOST (p_vaddr p) + word_of_nat k)"
    using segments_memory_split [OF assms(1,7)] by blast
  with segment_memory_file [OF assms(1,5,6)] show ?thesis by simp
qed

text \<open>
  C29: after a file with at least one loadable segment is loaded, the entry point is the one of
  the header, the break is at the end of the highest segment, and the invariant of the allocator
  holds, so that \<open>machine_setup\<close> can allocate the stack.
\<close>

theorem elf_load_break:
  assumes "page_ok h" "mmu_load_elf h stack mmu_zero m file = Inr (u', m')"
    and "e_phentsize (ehdr_of_bytes (take sizeof_ehdr file)) = 56"
    and "elf_segments (ehdr_of_bytes (take sizeof_ehdr file)) file
      (unat (e_phnum (ehdr_of_bytes (take sizeof_ehdr file)))) 0 = segs"
    and "segs \<noteq> []" "\<forall>p \<in> set segs. segment_fits h p"
  shows "entry u' = e_entry (ehdr_of_bytes (take sizeof_ehdr file)) \<and>
    host_alloc u' = segments_top h segs 0 \<and> guest_alloc u' = TO_GUEST (host_alloc u') \<and> mmu_inv h u' m'"
  using loaded_ready [OF assms] by (auto simp: fresh_break_def)

text \<open>
  A file of one segment, ten bytes of memory at \<open>0x10078\<close> of which eight are in the file:
  \<open>addi a7, x0, 93\<close>, \<open>ecall\<close>.
\<close>

definition demo_elf :: "u8 list" where
  "demo_elf = [0x7f, 0x45, 0x4c, 0x46, 2, 1, 1, 0, 0, 0, 0, 0, 0, 0, 0, 0,
     2, 0, 243, 0, 1, 0, 0, 0, 0x78, 0, 1, 0, 0, 0, 0, 0,
     64, 0, 0, 0, 0, 0, 0, 0, 0, 0, 0, 0, 0, 0, 0, 0,
     0, 0, 0, 0, 64, 0, 56, 0, 1, 0, 0, 0, 0, 0, 0, 0,
     1, 0, 0, 0, 5, 0, 0, 0, 0x78, 0, 0, 0, 0, 0, 0, 0,
     0x78, 0, 1, 0, 0, 0, 0, 0, 0x78, 0, 1, 0, 0, 0, 0, 0,
     8, 0, 0, 0, 0, 0, 0, 0, 10, 0, 0, 0, 0, 0, 0, 0, 0, 0x10, 0, 0, 0, 0, 0, 0,
     0x93, 0x08, 0xd0, 0x05, 0x73, 0, 0, 0, 44]"

definition demo_phdr :: elf64_phdr_t where
  "demo_phdr = \<lparr>p_type = 1, p_flags = 5, p_offset = 0x78, p_vaddr = 0x10078, p_paddr = 0x10078,
     p_filesz = 8, p_memsz = 10, p_align = 0x1000\<rparr>"

lemma demo_elf_headers:
  "e_phentsize (ehdr_of_bytes (take sizeof_ehdr demo_elf)) = 56"
  "e_entry (ehdr_of_bytes (take sizeof_ehdr demo_elf)) = 0x10078"
  "e_phnum (ehdr_of_bytes (take sizeof_ehdr demo_elf)) = 1"
  "elf_segments (ehdr_of_bytes (take sizeof_ehdr demo_elf)) demo_elf 1 0 = [demo_phdr]"
  by code_simp+

lemma demo_phdr_ok: "segment_ok demo_host demo_phdr demo_elf" "segment_fits demo_host demo_phdr"
  by (simp_all add: segment_ok_def segment_fits_def segment_top_def demo_phdr_def demo_host_def
      user_space_def demo_elf_def TO_HOST_def GUEST_MEMORY_OFFSET_def ROUNDDOWN_def ROUNDUP_def)

lemma demo_segment_loads: "\<exists>r. mmu_load_segment demo_host u m demo_phdr file = Inr r"
  by (simp add: mmu_load_segment_def mmap_fixed_def demo_phdr_def demo_host_def TO_HOST_def
      GUEST_MEMORY_OFFSET_def ROUNDDOWN_def ROUNDUP_def Let_def)

lemma demo_elf_loads:
  "\<exists>u' m'. mmu_load_elf demo_host [] mmu_zero (\<lambda>_. None) demo_elf = Inr (u', m')"
proof -
  let ?e = "ehdr_of_bytes (take sizeof_ehdr demo_elf)"
  have "load_phdr [] ?e 0 demo_elf = Inr (take 56 (drop 64 demo_elf))"
    "phdr_of_bytes (take 56 (drop 64 demo_elf)) = demo_phdr" "take 4 demo_elf = ELFMAG"
    "e_machine ?e = EM_RISCV" "demo_elf ! EI_CLASS = ELFCLASS64" "\<not> length demo_elf < sizeof_ehdr"
    "p_type demo_phdr = PT_LOAD"
    by code_simp+
  with demo_segment_loads [of "mmu_zero\<lparr>entry := e_entry ?e\<rparr>" "\<lambda>_. None" demo_elf]
  show ?thesis by (auto simp: mmu_load_elf_cases demo_elf_headers(3) Let_def)
qed

theorem elf_segment_bytes_witness:
  "\<exists>u' m'. mmu_load_elf demo_host [] mmu_zero (\<lambda>_. None) demo_elf = Inr (u', m') \<and>
    m' (TO_HOST 0x1007a) = Some (0xd0, 5)"
proof -
  obtain u' m' where l: "mmu_load_elf demo_host [] mmu_zero (\<lambda>_. None) demo_elf = Inr (u', m')"
    using demo_elf_loads by blast
  have "TO_HOST (p_vaddr demo_phdr) + word_of_nat 2 = TO_HOST 0x1007a" "2 < unat (p_filesz demo_phdr)"
    "demo_elf ! (unat (p_offset demo_phdr) + 2) = 0xd0" "flags_to_mmap_prot (p_flags demo_phdr) = 5"
    by code_simp+
  with elf_segment_bytes [OF demo_page l demo_elf_headers(1), of "[]" demo_phdr "[]" 2] demo_elf_headers l
  show ?thesis by (simp add: demo_phdr_ok)
qed

theorem elf_load_break_witness:
  "\<exists>u' m'. mmu_load_elf demo_host [] mmu_zero (\<lambda>_. None) demo_elf = Inr (u', m') \<and> entry u' = 0x10078 \<and>
    mmu_inv demo_host u' m'"
proof -
  obtain u' m' where l: "mmu_load_elf demo_host [] mmu_zero (\<lambda>_. None) demo_elf = Inr (u', m')"
    using demo_elf_loads by blast
  with elf_load_break [OF demo_page l demo_elf_headers(1) refl] demo_elf_headers show ?thesis
    by (simp add: demo_phdr_ok)
qed

text \<open>
  C30: a file as a linker writes it (the file header, the program headers behind it, the rest) is loaded, when
  the headers name a RISC-V executable, the loadable segments are well formed and the kernel grants their
  mappings: the entry point is that of the header, the break is at the end of the highest segment, and every
  byte of the file part of a segment is at its address, with the protection of its flags, unless another
  segment covers its page. The exception is a segment whose file part is empty and begins at a page boundary:
  its mapping has no bytes, the kernel refuses that, and an assertion ends the emulator.
\<close>

theorem elf_image_loads:
  assumes "page_ok h" "header_ok e (length ps)"
    and "\<forall>p \<in> set (loadable ps). segment_ok h p (elf_file e ps rest) \<and> kernel_maps h p"
  shows "if \<forall>p \<in> set (loadable ps). has_file_part h p
    then \<exists>u' m'. mmu_load_elf h stack mmu_zero m (elf_file e ps rest) = Inr (u', m') \<and>
      entry u' = e_entry e \<and> host_alloc u' = segments_top h (loadable ps) 0 \<and>
      (loadable ps \<noteq> [] \<longrightarrow> base u' = TO_GUEST (host_alloc u') \<and> guest_alloc u' = base u') \<and>
      (\<forall>p \<in> set (loadable ps). \<forall>k < unat (p_filesz p).
        (\<forall>q \<in> set (loadable ps). q \<noteq> p \<longrightarrow> \<not> segment_span h q (TO_HOST (p_vaddr p) + word_of_nat k)) \<longrightarrow>
        m' (TO_HOST (p_vaddr p) + word_of_nat k) =
          Some (elf_file e ps rest ! (unat (p_offset p) + k), flags_to_mmap_prot (p_flags p)))
    else mmu_load_elf h stack mmu_zero m (elf_file e ps rest) = Inl (Assert_Fail ''addr == aligned_vaddr'')"
proof (cases "\<forall>p \<in> set (loadable ps). has_file_part h p")
  case True
  let ?m = "segments_memory h (elf_file e ps rest) (loadable ps) m"
  from elf_file_loads [OF assms, of stack mmu_zero m] True obtain u' where
    u': "mmu_load_elf h stack mmu_zero m (elf_file e ps rest) = Inr (u', ?m)" "entry u' = e_entry e"
      "host_alloc u' = segments_top h (loadable ps) 0" "loadable ps \<noteq> [] \<longrightarrow> fresh_break u'"
    by (auto simp: mmu_zero_def)
  have "\<forall>p \<in> set (loadable ps). segment_ok h p (elf_file e ps rest)" using assms(3) by blast
  note bytes = segments_memory_byte [OF assms(1) this, of _ _ m]
  show ?thesis
    unfolding if_P [OF True]
    by (intro exI [of _ u'] exI [of _ ?m] conjI)
      (use u' in \<open>simp_all add: fresh_break_def\<close>, blast intro: bytes)
next
  case False
  with elf_file_loads [OF assms, of stack mmu_zero m] show ?thesis by (simp only: if_False)
qed

lemma demo_elf_file:
  "demo_elf = elf_file (ehdr_of_bytes demo_elf) [demo_phdr] (drop 120 demo_elf)"
  "header_ok (ehdr_of_bytes demo_elf) 1" "loadable [demo_phdr] = [demo_phdr]"
  "e_entry (ehdr_of_bytes demo_elf) = 0x10078"
  by code_simp+

theorem elf_image_loads_witness:
  "\<exists>u' m'. mmu_load_elf demo_host [] mmu_zero (\<lambda>_. None) demo_elf = Inr (u', m') \<and> entry u' = 0x10078 \<and>
    m' (TO_HOST 0x1007a) = Some (0xd0, 5)"
proof -
  have "kernel_maps demo_host demo_phdr" by (simp add: kernel_maps_def demo_host_def Let_def)
  moreover have "has_file_part demo_host demo_phdr" by (simp add: has_file_part_def demo_phdr_def)
  moreover have "TO_HOST (p_vaddr demo_phdr) + word_of_nat 2 = TO_HOST 0x1007a" "2 < unat (p_filesz demo_phdr)"
    "demo_elf ! (unat (p_offset demo_phdr) + 2) = 0xd0" "flags_to_mmap_prot (p_flags demo_phdr) = 5"
    by code_simp+
  moreover note elf_image_loads [of demo_host "ehdr_of_bytes demo_elf" "[demo_phdr]" "drop 120 demo_elf" "[]" "\<lambda>_. None",
      unfolded demo_elf_file(3) demo_elf_file(1) [symmetric]]
  ultimately show ?thesis using demo_page demo_phdr_ok(1) demo_elf_file(2,4) by fastforce
qed

text \<open>
  C31: the pages of the file part of a loaded segment hold the bytes of the file also behind
  \<open>p_filesz\<close>, up to the end of the last page: the part of the \<open>.bss\<close> that shares a page
  with file contents is not zeroed. The pages behind it are zero up to \<open>p_memsz\<close>.
\<close>

theorem segment_pages:
  assumes "page_ok h" "segment_ok h phdr file" "mmu_load_segment h u m phdr file = Inr (u', m')"
  shows "let d = TO_HOST (p_vaddr phdr) - ROUNDDOWN (TO_HOST (p_vaddr phdr)) (page_size h);
      f = unat (ROUNDUP (p_filesz phdr + d) (page_size h)) in
    (unat d + k < f \<and> unat (p_offset phdr) + k < length file \<longrightarrow>
      m' (TO_HOST (p_vaddr phdr) + word_of_nat k) =
        Some (file ! (unat (p_offset phdr) + k), flags_to_mmap_prot (p_flags phdr))) \<and>
    (f \<le> unat d + k \<and> k < unat (p_memsz phdr) \<longrightarrow>
      m' (TO_HOST (p_vaddr phdr) + word_of_nat k) = Some (0, flags_to_mmap_prot (p_flags phdr)))"
  using segment_memory_pages [OF assms(1,2)] segment_memory_bss [OF assms(1,2)]
  unfolding load_segment_memory [OF assms(1,3)] Let_def by blast

theorem segment_pages_witness:
  "\<exists>u' m'. mmu_load_segment demo_host mmu_zero (\<lambda>_. None) demo_phdr demo_elf = Inr (u', m') \<and>
    m' (TO_HOST 0x10080) = Some (44, 5) \<and> 8 < unat (p_memsz demo_phdr) \<and> \<not> 8 < unat (p_filesz demo_phdr)"
proof -
  obtain u' m' where l: "mmu_load_segment demo_host mmu_zero (\<lambda>_. None) demo_phdr demo_elf = Inr (u', m')"
    using demo_segment_loads [of mmu_zero "\<lambda>_. None" demo_elf] by auto
  have "m' (TO_HOST (p_vaddr demo_phdr) + word_of_nat 8) =
      Some (demo_elf ! (unat (p_offset demo_phdr) + 8), flags_to_mmap_prot (p_flags demo_phdr))"
    using segment_pages [OF demo_page demo_phdr_ok(1) l, of 8]
    by (simp add: demo_phdr_def demo_host_def TO_HOST_def GUEST_MEMORY_OFFSET_def ROUNDDOWN_def
        ROUNDUP_def demo_elf_def Let_def)
  moreover have "TO_HOST (p_vaddr demo_phdr) + word_of_nat 8 = TO_HOST 0x10080"
    "demo_elf ! (unat (p_offset demo_phdr) + 8) = 44" "flags_to_mmap_prot (p_flags demo_phdr) = 5"
    "8 < unat (p_memsz demo_phdr) \<and> \<not> 8 < unat (p_filesz demo_phdr)"
    by code_simp+
  ultimately show ?thesis using l by simp
qed


definition demo_mmu :: mmu_t where
  "demo_mmu = \<lparr>entry = 0, host_alloc = TO_HOST 0x20000, guest_alloc = 0x20000, base = 0x20000\<rparr>"

lemma demo_mmu_ok: "host_ok demo_host" "mmu_inv demo_host demo_mmu m"
  using demo_page
  by (auto simp: host_ok_def demo_host_def mmu_inv_def demo_mmu_def user_space_def mapped_rw_def
      TO_HOST_def TO_GUEST_def GUEST_MEMORY_OFFSET_def ROUNDDOWN_def split: if_splits)


text \<open>
  C32: shrinking the break over a page boundary: the code unmaps as many pages behind the old end of the area
  as it releases, and no others. The bookkeeping moves down, the released pages stay mapped as they were,
  and whatever was mapped behind the area, up to that size, is gone.
\<close>

theorem alloc_shrink_unmaps_wrong_pages:
  assumes "page_ok h" "mmu_inv h u m" "sint sz < 0" "base u \<le> guest_alloc u + sz"
    and "ROUNDUP (guest_alloc u + sz) (page_size h) < TO_GUEST (host_alloc u)"
    and "mmu_alloc h u m sz = Inr (a, u', m')"
  shows "host_alloc u' = TO_HOST (ROUNDUP (guest_alloc u + sz) (page_size h)) \<and>
    (\<forall>x. in_region (host_alloc u') (unat (host_alloc u - host_alloc u')) x \<longrightarrow> m' x = m x) \<and>
    (\<forall>x. m' x = (if in_region (host_alloc u) (unat (host_alloc u - host_alloc u')) x then None else m x))"
  by (rule mmu_alloc_shrink [OF assms])

theorem alloc_shrink_unmaps_wrong_pages_witness:
  "\<exists>u' m'. mmu_alloc demo_host (demo_mmu\<lparr>host_alloc := TO_HOST 0x22000, guest_alloc := 0x22000\<rparr>)
      (\<lambda>_. Some (0, 3)) (- 0x1000) = Inr (0x22000, u', m') \<and> host_alloc u' = TO_HOST 0x21000 \<and>
    m' (TO_HOST 0x21000) = Some (0, 3) \<and> m' (TO_HOST 0x22000) = None"
proof -
  let ?u = "demo_mmu\<lparr>host_alloc := TO_HOST 0x22000, guest_alloc := 0x22000\<rparr>" and ?m = "\<lambda>_. Some (0, 3)"
  note defs = demo_mmu_def demo_host_def TO_HOST_def TO_GUEST_def GUEST_MEMORY_OFFSET_def ROUNDUP_def
    ROUNDDOWN_def
  have inv: "mmu_inv demo_host ?u ?m"
    by (simp add: mmu_inv_def mapped_rw_def readable_def writable_def PROT_READ_def PROT_WRITE_def
        user_space_def defs)
  have "\<exists>u' m'. mmu_alloc demo_host ?u ?m (- 0x1000) = Inr (0x22000, u', m')"
    by (simp add: mmu_alloc_def munmap_def defs)
  then obtain u' m' where a: "mmu_alloc demo_host ?u ?m (- 0x1000) = Inr (0x22000, u', m')" by blast
  note S = alloc_shrink_unmaps_wrong_pages [OF demo_page inv _ _ _ a]
  have ha: "host_alloc u' = TO_HOST 0x21000" using S by (simp add: defs)
  have "host_alloc ?u - host_alloc u' = 0x1000" by (simp add: ha TO_HOST_def)
  then have "m' x = (if in_region (TO_HOST 0x22000) 0x1000 x then None else Some (0, 3))" for x
    using S by (simp add: defs)
  with a ha show ?thesis by (simp add: in_region_def TO_HOST_def)
qed

text \<open>
  C37: shrinking the break and growing it again, on a kernel that never puts a hinted mapping over another
  one, leaves every byte of the area as it was: a guest that gives memory back and asks for it again
  finds the old contents, where the kernel's own \<open>brk\<close> gives zeros for the pages that were released.
\<close>

theorem alloc_regrow_stale:
  assumes "host_keeps h" "page_ok h" "mmu_inv h u m" "sint n < 0" "0 < sint k"
    and "mmu_alloc h u m n = Inr (a, u1, m1)" "mmu_alloc h u1 m1 k = Inr (b, u2, m2)"
    and "in_region (TO_HOST (base u)) (unat (TO_GUEST (host_alloc u) - base u)) x"
  shows "b = guest_alloc u + n \<and> guest_alloc u2 = guest_alloc u + n + k \<and> m2 x = m x"
proof -
  note shrink = mmu_alloc_shrink_keeps [OF assms(2,3,4,6,8)]
  then have "m1 x \<noteq> None" by simp
  from mmu_alloc_grow_keeps [OF assms(1,2,5,7) this] shrink show ?thesis by simp
qed

definition demo_keeping :: host_t where
  "demo_keeping = \<lparr>page_size = 4096, mmap_refuses = (\<lambda>_ _. False),
     mmap_place = (\<lambda>m a len. if unat (ROUNDUP len 4096) \<le> 2 ^ 40 \<and>
       (\<forall>x. in_region 0x600000000000 (unat (ROUNDUP len 4096)) x \<longrightarrow> m x = None) then Some 0x600000000000 else None)\<rparr>"

lemma demo_keeping_ok: "host_keeps demo_keeping" "page_ok demo_keeping"
proof -
  show "host_keeps demo_keeping" by (simp add: host_keeps_def demo_keeping_def split: if_splits)
  show "page_ok demo_keeping" using demo_page by (simp add: page_ok_def demo_keeping_def demo_host_def)
qed

theorem alloc_regrow_stale_witness:
  "\<exists>m m1 m2 u u1 u2. mmu_alloc demo_keeping u m (- 0x1000) = Inr (0x22000, u1, m1) \<and>
    mmu_alloc demo_keeping u1 m1 0x1000 = Inr (0x21000, u2, m2) \<and> m2 (TO_HOST 0x21fff) = Some (7, 3)"
proof -
  let ?u = "demo_mmu\<lparr>host_alloc := TO_HOST 0x22000, guest_alloc := 0x22000\<rparr>"
    and ?u1 = "demo_mmu\<lparr>host_alloc := TO_HOST 0x21000, guest_alloc := 0x21000\<rparr>"
    and ?m = "\<lambda>x. if in_region (TO_HOST 0x20000) 0x2000 x then Some (7, 3) else None"
  let ?m1 = "\<lambda>x. if in_region (TO_HOST 0x22000) 0x1000 x then None else ?m x"
  note defs = demo_mmu_def demo_keeping_def TO_HOST_def TO_GUEST_def GUEST_MEMORY_OFFSET_def ROUNDUP_def
    ROUNDDOWN_def
  have inv: "mmu_inv demo_keeping ?u ?m"
    by (simp add: mmu_inv_def mapped_rw_def readable_def writable_def PROT_READ_def PROT_WRITE_def
        user_space_def defs)
  have a: "mmu_alloc demo_keeping ?u ?m (- 0x1000) = Inr (0x22000, ?u1, ?m1)"
    by (simp add: mmu_alloc_def munmap_def defs cong: if_cong)
  have "\<not> in_region (TO_HOST 0x20000) 0x2000 x" if "in_region 0x600000000000 0x1000 x" for x
    using that in_region_nat [of "0x600000000000" "0x1000" x] in_region_nat [of "TO_HOST 0x20000" "0x2000" x]
    by (simp add: defs)
  then have "\<exists>u2 m2. mmu_alloc demo_keeping ?u1 ?m1 0x1000 = Inr (0x21000, u2, m2)"
    by (simp add: mmu_alloc_def mmap_hint_def MAP_FAILED_def defs)
  then obtain u2 m2 where b: "mmu_alloc demo_keeping ?u1 ?m1 0x1000 = Inr (0x21000, u2, m2)" by blast
  have "m2 (TO_HOST 0x21fff) = ?m (TO_HOST 0x21fff)"
    using alloc_regrow_stale [OF demo_keeping_ok inv _ _ a b, where x = "TO_HOST 0x21fff"] by (simp add: in_region_def defs)
  also have "\<dots> = Some (7, 3)" by (simp add: in_region_def defs)
  finally show ?thesis using a b by blast
qed

section \<open>ELF headers\<close>

text \<open>
  C38: the structures of the file format are laid out as the ELF manual says: an ELF header and a program
  header that are written field by field, little-endian and without padding, are read back from the bytes.
\<close>

theorem elf_headers_roundtrip:
  assumes "length (e_ident e) = EI_NIDENT"
  shows "ehdr_of_bytes (bytes_of_ehdr e @ rest) = e \<and> length (bytes_of_ehdr e) = sizeof_ehdr \<and>
    phdr_of_bytes (bytes_of_phdr p @ rest) = p \<and> length (bytes_of_phdr p) = sizeof_phdr"
  using ehdr_roundtrip [OF assms] phdr_roundtrip length_headers assms by blast

theorem elf_headers_roundtrip_witness:
  "bytes_of_phdr demo_phdr = take 56 (drop 64 demo_elf) \<and>
   phdr_of_bytes (take 56 (drop 64 demo_elf)) = demo_phdr"
proof -
  have "bytes_of_phdr demo_phdr = take 56 (drop 64 demo_elf)" by code_simp
  moreover have "phdr_of_bytes (bytes_of_phdr demo_phdr @ []) = demo_phdr"
    using elf_headers_roundtrip [of "ehdr_of_bytes demo_elf" "[]" demo_phdr] by (simp add: ehdr_of_bytes_def demo_elf_def EI_NIDENT_def)
  ultimately show ?thesis by simp
qed

section \<open>Printing\<close>

text \<open>
  C39: the text \<open>inst_print\<close> prints determines the instruction: two instructions with the same dump are
  equal in every field.
\<close>

theorem inst_print_determines:
  assumes "inst_print i = inst_print j"
  shows "i = j"
  by (rule inst_print_inj [OF assms])

theorem inst_print_determines_witness:
  "inst_print (inst_zero\<lparr>rd := 1, itype := inst_addi\<rparr>) \<noteq> inst_print (inst_zero\<lparr>rd := 2, itype := inst_addi\<rparr>)"
proof
  assume "inst_print (inst_zero\<lparr>rd := 1, itype := inst_addi\<rparr>) = inst_print (inst_zero\<lparr>rd := 2, itype := inst_addi\<rparr>)"
  from inst_print_determines [OF this] have "rd (inst_zero\<lparr>rd := 1, itype := inst_addi\<rparr>) =
    rd (inst_zero\<lparr>rd := 2, itype := inst_addi\<rparr>)" by (rule arg_cong)
  then show False by simp
qed

section \<open>System calls\<close>

text \<open>
  C7: \<open>do_syscall\<close> implements the table of calls of the reference system. Every call, whatever the number
  in \<open>a7\<close> and the arguments, either returns the value the table gives and changes memory, the break and
  the world as the table says and nothing else of the machine, or ends the emulator with the outcome the
  table gives.
\<close>

theorem syscall_specification:
  "(\<exists>v y. serves h os (gp_regs (state m)) (mem (state m), mmu m, world m) v y \<and>
      do_syscall h os m (gp_regs (state m) reg_a7) = Inr (v, after_call m y)) \<or>
   (\<exists>e. refuses h (gp_regs (state m)) (mem (state m)) (mmu m) e \<and>
      do_syscall h os m (gp_regs (state m) reg_a7) = Inl e)"
  using call_total [of h os "gp_regs (state m)" "mem (state m)" "mmu m" "world m"] do_syscall_serves [of h os m]
    do_syscall_refuses [of h m _ os] by blast


text \<open>
  Dispatch by number. The eleven numbers the emulator supports reach their handlers; the
  numbers its tables mark as unimplemented end the emulator with a message naming the number in
  \<open>a7\<close>; every other 64-bit number ends it with ``unknown syscall''. No number indexes outside
  a table.
\<close>

lemma syscall_dispatch:
  "(n \<in> set unimplemented_numbers \<longrightarrow> do_syscall h os m n =
      Inl (Fatal (''unimplemented syscall: '' @ show_nat (unat (gp_regs (state m) reg_a7))))) \<and>
   (n \<notin> set implemented_numbers \<and> n \<notin> set unimplemented_numbers \<longrightarrow>
      do_syscall h os m n = Inl (Fatal ''unknown syscall'')) \<and>
   map (do_syscall h os m) implemented_numbers =
     [sys_exit m, sys_exit m, sys_read os m, sys_write os m, sys_openat os m, sys_close os m,
      sys_fstat os m, sys_lseek os m, sys_brk h m, sys_gettimeofday os m, sys_open os m]"
  using do_syscall_unimplemented [of n h os m] do_syscall_unknown [of n h os m]
  by (simp add: implemented_numbers_def do_syscall_implemented)

lemma syscall_dispatch_at:
  "do_syscall demo_host demo_os (demo_machine []) SYS_getpid = Inl (Fatal ''unimplemented syscall: 0'') \<and>
   do_syscall demo_host demo_os (demo_machine []) 1023 = Inl (Fatal ''unknown syscall'')"
proof -
  have "show_nat (unat (gp_regs (state (demo_machine [])) reg_a7)) = ''0''" "SYS_getpid \<in> set unimplemented_numbers"
    "1023 \<notin> set implemented_numbers" "1023 \<notin> set unimplemented_numbers"
    by code_simp+
  with syscall_dispatch [of SYS_getpid demo_host demo_os "demo_machine []"]
    syscall_dispatch [of 1023 demo_host demo_os "demo_machine []"] show ?thesis by simp
qed

text \<open>
  A system call that returns leaves the registers, the program counter and the decoded
  instruction as they were and keeps the break at or above the end of the image; the result goes
  into \<open>a0\<close> by the loop alone.
\<close>

lemma syscall_keeps_hart:
  assumes "break_ok (mmu m)" "do_syscall h os m n = Inr (r, m')"
  shows "gp_regs (state m') = gp_regs (state m) \<and> fp_regs (state m') = fp_regs (state m) \<and>
    pc (state m') = pc (state m) \<and> interp_inst m' = interp_inst m \<and> break_ok (mmu m')"
  using keeps_cpu_syscall [OF assms(1), of h os n] assms(2) by (simp add: keeps_cpu_def)

lemma demo_brk_runs: "\<exists>m'. do_syscall demo_host demo_os (demo_machine []) SYS_brk = Inr (0, m')"
  unfolding do_syscall_implemented
  by (simp add: sys_brk_def GET_def machine_get_gp_reg_def rv_enum machine_alloc_def mmu_alloc_def Let_def
      demo_machine_def demo_cpu_def mmu_zero_def)

lemma syscall_keeps_hart_at:
  "\<exists>r m'. do_syscall demo_host demo_os (demo_machine []) SYS_brk = Inr (r, m') \<and>
    gp_regs (state m') = gp_regs (demo_cpu [])"
proof -
  obtain m' where m': "do_syscall demo_host demo_os (demo_machine []) SYS_brk = Inr (0, m')"
    using demo_brk_runs by blast
  moreover have "break_ok (mmu (demo_machine []))" using demo_main_inv by (simp add: main_inv_def)
  ultimately show ?thesis using syscall_keeps_hart [OF _ m'] by (auto simp: demo_machine_def)
qed

text \<open>
  \<open>brk\<close>, when it returns, returns the new break: the address asked for, or the current
  break for an argument of zero; it is never below the end of the image.
\<close>

lemma brk_returns_break:
  assumes "sys_brk h m = Inr (r, m')"
  shows "r = guest_alloc (mmu m') \<and> r = (if gp_regs (state m) reg_a0 = 0 then guest_alloc (mmu m)
      else gp_regs (state m) reg_a0) \<and> base (mmu m) \<le> r"
  by (rule sys_brk_result [OF assms])

lemma brk_returns_break_at:
  "\<exists>m'. sys_brk demo_host (demo_machine []) = Inr (0, m') \<and> guest_alloc (mmu m') = 0"
proof -
  obtain m' where m': "sys_brk demo_host (demo_machine []) = Inr (0, m')"
    using demo_brk_runs unfolding do_syscall_implemented by blast
  with brk_returns_break [OF m'] show ?thesis by auto
qed

text \<open>
  C40: the flags of \<open>open\<close> and \<open>openat\<close>: each of newlib's flags sets the host's flag of the
  same name, and no other bit is ever set.
\<close>

theorem open_flags:
  "bit (convert_flags f) k \<longleftrightarrow>
     (k = 0 \<and> bit f 0) \<or> (k = 1 \<and> bit f 1) \<or> (k = 10 \<and> bit f 3) \<or>
     (k = 6 \<and> bit f 9) \<or> (k = 9 \<and> bit f 10) \<or> (k = 7 \<and> bit f 11)"
  by (rule bit_convert_flags)

section \<open>Starting a program\<close>

text \<open>
  C9: the initial stack. After \<open>machine_setup\<close>, with room for it above the image, the stack
  pointer is at the word of \<open>argc\<close> (the count of the emulator's own arguments, one more than
  there are pointers, in four bytes; the four bytes behind it are whatever lay behind the
  variable); above it lie the pointers to the arguments in order and three null pointers. Every
  pointer leads to its string, terminated by a zero byte although \<open>mmu_write\<close> copies none.
  What was mapped below the break is unchanged, and no other register. The only failure is a
  refused \<open>mmap\<close>.
\<close>

theorem setup_stack_layout:
  fixes pad :: u32
  assumes "heap_room h (setup_cost h (tl argv) + k) m" "\<forall>s \<in> set (tl argv). length s + 1 < 2 ^ 63"
    and "8 * length (tl argv) + 32 \<le> unat STACK_SIZE"
  shows "outcome (\<lambda>e. e = Fatal ''mmap failed in mmu alloc'')
    (\<lambda>m'. stack_built (le_bytes 4 (word_of_nat (length argv) :: u32) @ le_bytes 4 pad) (tl argv) m m')
    (machine_setup h pad m argv)"
  using machine_setup_ok [OF assms, of pad] by (auto simp: mmap_failed_def elim!: outcome_mono)

text \<open>The command line \<open>emu a\<close>.\<close>

definition demo_argv :: "u8 list list" where
  "demo_argv = [[101, 109, 117], [97]]"

lemma demo_setup_cost: "setup_cost demo_host (tl demo_argv) = 33558528"
  by (simp add: setup_cost_def string_cost_def page_cost_def demo_argv_def demo_host_def ROUNDUP_def STACK_SIZE_def)

lemma demo_heap_room:
  "heap_room demo_host (setup_cost demo_host (tl demo_argv) + 0) ((demo_machine [])\<lparr>mmu := demo_mmu\<rparr>)"
proof (rule heap_room_fresh)
  show "mmu_inv demo_host (mmu ((demo_machine [])\<lparr>mmu := demo_mmu\<rparr>))
      (mem (state ((demo_machine [])\<lparr>mmu := demo_mmu\<rparr>)))"
    using demo_mmu_ok(2) by simp
qed (simp_all add: demo_mmu_ok demo_setup_cost room_for_stack_def fresh_break_def demo_mmu_def demo_defs
      TO_GUEST_def user_space_def)

theorem setup_stack_layout_witness:
  "outcome (\<lambda>e. e = Fatal ''mmap failed in mmu alloc'')
    (stack_built [2, 0, 0, 0, 1, 0, 0, 0] [[97]] ((demo_machine [])\<lparr>mmu := demo_mmu\<rparr>))
    (machine_setup demo_host 1 ((demo_machine [])\<lparr>mmu := demo_mmu\<rparr>) demo_argv)"
proof -
  have "le_bytes 4 (word_of_nat (length demo_argv) :: u32) @ le_bytes 4 (1 :: u32) = [2, 0, 0, 0, 1, 0, 0, 0]"
    "tl demo_argv = [[97]]" by code_simp+
  with setup_stack_layout [OF demo_heap_room, of 1] show ?thesis by (simp add: STACK_SIZE_def)
qed

text \<open>
  C6: the whole program. With a readable header (program headers no larger than the structure
  that holds them, an even entry point), \<open>main\<close> never returns normally, and it ends only by the
  exit of the guest, a fatal message, a memory fault, a division by zero or one of the
  assertions about the command line, the mappings of the loader and the break. No array is
  indexed out of range, and the assertions about the exit reasons of the loops hold. The memory of the model is the guest's: that no address the guest writes to
  belongs to the emulator's own objects is taken for granted.
\<close>

theorem main_safe:
  assumes "\<And>f. fs (argv ! 1) = Some f \<Longrightarrow> sane_header f"
    and "main h os stack pad fs mem0 w0 argv = Some r"
  shows "\<exists>e. r = Inl e \<and> program_fault e"
  by (rule main_outcome [OF assms])

theorem main_safe_witness:
  "main demo_host demo_os [] 0 (\<lambda>_. Some (replicate 64 0)) (\<lambda>_. None) () demo_argv = Some (Inl (Fatal ''bad elfmag'')) \<and>
   program_fault (Fatal ''bad elfmag'')"
proof -
  have "e_phentsize (ehdr_of_bytes (take sizeof_ehdr (replicate 64 0))) = 0"
    "e_entry (ehdr_of_bytes (take sizeof_ehdr (replicate 64 0))) = 0" "take 4 (replicate 64 0) \<noteq> ELFMAG"
    by code_simp+
  then have "sane_header (replicate 64 0)" and
    r: "main demo_host demo_os [] 0 (\<lambda>_. Some (replicate 64 0)) (\<lambda>_. None) () demo_argv = Some (Inl (Fatal ''bad elfmag''))"
    by (simp_all add: sane_header_def main_def machine_load_program_def mmu_load_elf_cases sizeof_ehdr_def demo_argv_def
        machine_zero_def Let_def)
  with main_safe [OF _ r] show ?thesis by simp
qed

text \<open>
  C1: from the command line to the end of the guest. A file that loads, with room above its image,
  is run from its entry point with all registers but the stack pointer zero, the argument vector
  on the stack, its image in memory and the world as it was. From there the program does what the guest's
  run does: \<open>main\<close> ends with the outcome of a run that ends (the status the guest exits with, a fault,
  a refused call), over any number of instructions and system calls, and does not end when the guest runs
  for ever. Otherwise the host refused memory for the stack. The memory of the model is the guest's: that no address the guest writes to
  belongs to the emulator's own objects is taken for granted.
\<close>

theorem program_follows_guest:
  fixes os :: "'w os_t" and w0 :: 'w and pad :: u32
  assumes "host_ok h" "1 < length argv" "fs (argv ! 1) = Some f"
    and "mmu_load_elf h stack mmu_zero mem0 f = Inr (u, m0)"
    and "e_phentsize (ehdr_of_bytes (take sizeof_ehdr f)) = 56"
    and "elf_segments (ehdr_of_bytes (take sizeof_ehdr f)) f
      (unat (e_phnum (ehdr_of_bytes (take sizeof_ehdr f)))) 0 = segs"
    and "segs \<noteq> []" "\<forall>p \<in> set segs. segment_fits h p"
    and "room_for_stack h (tl argv) u m0"
    and "\<forall>s \<in> set (tl argv). length s + 1 < 2 ^ 63" "8 * length (tl argv) + 32 \<le> unat STACK_SIZE"
  shows "main h os stack pad fs mem0 w0 argv = Some (Inl (Fatal ''mmap failed in mmu alloc'')) \<or>
    (\<exists>m :: 'w machine_t.
      started (le_bytes 4 (word_of_nat (length argv) :: u32) @ le_bytes 4 pad) (tl argv) u m0 w0 m \<and>
      (\<forall>x e. (sys_step h os)\<^sup>*\<^sup>* (sys_of m) x \<longrightarrow> sys_ends h x e \<longrightarrow>
        main h os stack pad fs mem0 w0 argv = Some (Inl e)) \<and>
      (\<forall>\<sigma>. \<sigma> 0 = sys_of m \<longrightarrow> (\<forall>k. sys_step h os (\<sigma> k) (\<sigma> (Suc k))) \<longrightarrow>
        main h os stack pad fs mem0 w0 argv = None))"
proof -
  have page: "page_ok h" using assms(1) by (simp add: host_ok_def)
  from loaded_ready [OF page assms(4-8)] have ready: "mmu_inv h u m0" "fresh_break u" by blast+
  from main_follows_guest [of h argv fs f stack mem0 u m0, OF assms(1-4) ready assms(9-11), of os pad w0]
  show ?thesis unfolding follows_guest_def .
qed

lemma demo_image:
  "load_bytes 4 (segments_memory demo_host demo_elf [demo_phdr] (\<lambda>_. None)) (TO_HOST 0x10078) =
    Inr (le_bytes 4 (enc_i 93 0 0 17 0x13))"
  "load_bytes 4 (segments_memory demo_host demo_elf [demo_phdr] (\<lambda>_. None)) (TO_HOST 0x1007c) =
    Inr (le_bytes 4 (0x73 :: u32))"
proof -
  let ?m = "segments_memory demo_host demo_elf [demo_phdr] (\<lambda>_. None)"
  have "TO_HOST (p_vaddr demo_phdr) + word_of_nat k = TO_HOST (0x10078 + word_of_nat k)" for k
    by (simp add: demo_phdr_def TO_HOST_def)
  then have m: "?m (TO_HOST (0x10078 + word_of_nat k)) = Some (demo_elf ! (120 + k), 5)" if "k < 8" for k
    using segment_memory_file [OF demo_page demo_phdr_ok(1), of k "\<lambda>_. None"] that
    by (simp add: segments_memory_def demo_phdr_def flags_to_mmap_prot_def PF_R_def PF_W_def PF_X_def PROT_READ_def
        PROT_EXEC_def)
  have len: "length demo_elf = 129" by (simp add: demo_elf_def)
  have step: "TO_HOST (0x10078 + word_of_nat k) + 1 = TO_HOST (0x10078 + word_of_nat (Suc k))" for k
    by (simp add: TO_HOST_def)
  have ld: "load_bytes n ?m (TO_HOST (0x10078 + word_of_nat k)) = Inr (take n (drop (120 + k) demo_elf))"
    if "k + n \<le> 8" for n k
    using that
  proof (induction n arbitrary: k)
    case (Suc n)
    from Suc.prems m [of k] have "load_byte ?m (TO_HOST (0x10078 + word_of_nat k)) = Inr (demo_elf ! (120 + k))"
      by (simp add: load_byte_def PROT_READ_def)
    moreover have "drop (120 + k) demo_elf = demo_elf ! (120 + k) # drop (120 + Suc k) demo_elf"
      using Cons_nth_drop_Suc [of "120 + k" demo_elf] len Suc.prems by simp
    ultimately show ?case using Suc.IH [of "Suc k"] Suc.prems by (simp only: load_bytes.simps step) simp
  qed simp
  have "take 4 (drop 120 demo_elf) = le_bytes 4 (enc_i 93 0 0 17 0x13)"
    "take 4 (drop 124 demo_elf) = le_bytes 4 (0x73 :: u32)" by code_simp+
  then show "load_bytes 4 ?m (TO_HOST 0x10078) = Inr (le_bytes 4 (enc_i 93 0 0 17 0x13))"
    "load_bytes 4 ?m (TO_HOST 0x1007c) = Inr (le_bytes 4 (0x73 :: u32))"
    using ld [of 0 4] ld [of 4 4] by simp_all
qed

lemma demo_top: "segments_top demo_host [demo_phdr] 0 = TO_HOST 0x11000"
  by (simp add: segments_top_def segment_top_def demo_phdr_def demo_host_def MAX_u64_def TO_HOST_def
      GUEST_MEMORY_OFFSET_def ROUNDDOWN_def ROUNDUP_def)

lemma demo_room:
  assumes "host_alloc u = TO_HOST 0x11000"
  shows "room_for_stack demo_host (tl demo_argv) u (segments_memory demo_host demo_elf [demo_phdr] (\<lambda>_. None))"
proof -
  have "segments_memory demo_host demo_elf [demo_phdr] (\<lambda>_. None) x = None"
    if "in_region (TO_HOST 0x11000) 33558528 x" for x
  proof -
    have "\<not> segment_span demo_host demo_phdr x"
      using that in_region_nat [of "TO_HOST 0x11000" 33558528 x] in_region_nat [of "TO_HOST 0x10000" 4096 x]
      by (simp add: segment_span_def demo_phdr_def demo_host_def TO_HOST_def GUEST_MEMORY_OFFSET_def ROUNDDOWN_def
          ROUNDUP_def Let_def)
    then show ?thesis using segments_memory_other [OF demo_page, of "[demo_phdr]"] demo_phdr_ok by simp
  qed
  then show ?thesis
    by (simp add: room_for_stack_def demo_setup_cost assms TO_HOST_def GUEST_MEMORY_OFFSET_def user_space_def)
qed

theorem program_follows_guest_witness:
  "main demo_host demo_os [] 0 (\<lambda>_. Some demo_elf) (\<lambda>_. None) () demo_argv \<in>
    {Some (Inl (Fatal ''mmap failed in mmu alloc'')), Some (Inl (Exit 0))}" (is "?r \<in> _")
proof -
  let ?M = "segments_memory demo_host demo_elf [demo_phdr] (\<lambda>_. None)"
  obtain u m0 where l: "mmu_load_elf demo_host [] mmu_zero (\<lambda>_. None) demo_elf = Inr (u, m0)"
    using demo_elf_loads by blast
  have segs: "elf_segments (ehdr_of_bytes (take sizeof_ehdr demo_elf)) demo_elf
      (unat (e_phnum (ehdr_of_bytes (take sizeof_ehdr demo_elf)))) 0 = [demo_phdr]"
    using demo_elf_headers(3,4) by simp
  note ready = loaded_ready [OF demo_page l demo_elf_headers(1) segs]
  then have u: "m0 = ?M" "host_alloc u = TO_HOST 0x11000" "entry u = 0x10078"
    using demo_phdr_ok(2) by (auto simp: demo_top demo_elf_headers(2))
  from program_follows_guest [OF demo_mmu_ok(1) _ _ l demo_elf_headers(1) segs, of demo_argv "\<lambda>_. Some demo_elf" demo_os 0 "()"]
  consider "?r = Some (Inl (Fatal ''mmap failed in mmu alloc''))" | m :: "unit machine_t" and count where
    "started count (tl demo_argv) u ?M () m"
    "\<And>x e. (sys_step demo_host demo_os)\<^sup>*\<^sup>* (sys_of m) x \<Longrightarrow> sys_ends demo_host x e \<Longrightarrow> ?r = Some (Inl e)"
    using demo_room [OF u(2)] u(1) by (auto simp: demo_phdr_ok demo_argv_def STACK_SIZE_def)
  then show ?thesis
  proof cases
    case (2 m count)
    let ?g = "gp_regs (state m)" and ?f = "fp_regs (state m)"
    have ld: "load_bytes 4 (mem (state m)) (TO_HOST a) = Inr bs"
      if "load_bytes 4 ?M (TO_HOST a) = Inr bs" "unat (TO_HOST a) + 4 \<le> unat (TO_HOST 0x11000)" for a bs
      using that 2(1) u(2) in_region_nat [of "TO_HOST a" 4]
      by (intro load_bytes_kept [OF that(1)]) (simp add: started_def TO_HOST_def GUEST_MEMORY_OFFSET_def)
    have fetch: "fetches (mem (state m)) 0x10078 (enc_i 93 0 0 17 0x13)" "fetches (mem (state m)) 0x1007c 0x73"
      using ld [OF demo_image(1)] ld [OF demo_image(2)]
      by (simp_all add: fetches_def TO_HOST_def GUEST_MEMORY_OFFSET_def)
    have pc: "pc (state m) = 0x10078" "?g 0 = 0" "?g 10 = 0" using 2(1) u(3) by (simp_all add: started_def rv_enum)
    have "isa_step\<^sup>*\<^sup>* (arch_of (state m)) ((0x1007c, wr ?g 17 93, mem (state m)), ?f)"
      using demo_addi_step [OF fetch(1), of ?g] pc by (auto simp: arch_of_def)
    from sys_instructions [OF this, of demo_host demo_os "mmu m" "world m"]
    have "?r = Some (Inl (Exit (ucast (wr ?g 17 93 reg_a0))))"
      unfolding sys_of_def [symmetric]
      by (rule 2(2)) (rule end_call [OF fetch(2) refuse_exit], simp add: wr_def rv_enum sys_defs)
    with pc show ?thesis by (simp add: wr_def rv_enum)
  qed simp
qed

end
